theory Spec2Isabelle
  imports
    Main
    "HOL-Library.Word"
    "HOL-Library.List_Lexorder"
    "HOL-Library.Product_Lexorder"
begin

unbundle bit_operations_syntax

section \<open>The DNS cache of unbound: services/cache/dns.c and util/data/packed\_rrset.c\<close>

text \<open>
  A shallow embedding of the message and RRset cache front end. Pointers to
  region memory become values (a served object never aliases cache memory),
  pointers to cached RRset keys become addresses into an explicit store,
  a \<^verbatim>\<open>(uint8_t*, size_t)\<close> pair becomes a byte list whose length is the
  \<^verbatim>\<open>size_t\<close>, a \<^verbatim>\<open>NULL\<close> result becomes \<open>None\<close>, and
  \<^verbatim>\<open>time(NULL)\<close> becomes the parameter \<open>now\<close>. Locks are left out: the
  model is the sequential behaviour of one thread.
\<close>

subsection \<open>Data model\<close>

type_synonym uint8_t = "8 word"
type_synonym uint16_t = "16 word"
type_synonym uint32_t = "32 word"
type_synonym rrset_id_t = "64 word"
type_synonym addr = nat

text \<open>\<^verbatim>\<open>enum rrset_trust\<close>, in the order of \<^verbatim>\<open>rrset_trust_to_string\<close>.\<close>

datatype rrset_trust =
    rrset_trust_none
  | rrset_trust_add_noAA
  | rrset_trust_auth_noAA
  | rrset_trust_add_AA
  | rrset_trust_nonauth_ans_AA
  | rrset_trust_ans_noAA
  | rrset_trust_glue
  | rrset_trust_auth_AA
  | rrset_trust_ans_AA
  | rrset_trust_sec_noglue
  | rrset_trust_prim_noglue
  | rrset_trust_validated
  | rrset_trust_ultimate

fun trust_rank :: "rrset_trust \<Rightarrow> nat" where
  "trust_rank rrset_trust_none = 0"
| "trust_rank rrset_trust_add_noAA = 1"
| "trust_rank rrset_trust_auth_noAA = 2"
| "trust_rank rrset_trust_add_AA = 3"
| "trust_rank rrset_trust_nonauth_ans_AA = 4"
| "trust_rank rrset_trust_ans_noAA = 5"
| "trust_rank rrset_trust_glue = 6"
| "trust_rank rrset_trust_auth_AA = 7"
| "trust_rank rrset_trust_ans_AA = 8"
| "trust_rank rrset_trust_sec_noglue = 9"
| "trust_rank rrset_trust_prim_noglue = 10"
| "trust_rank rrset_trust_validated = 11"
| "trust_rank rrset_trust_ultimate = 12"

text \<open>
  \<^verbatim>\<open>struct packed_rrset_key\<close>: \<open>dname\<close> stands for the pair
  \<^verbatim>\<open>dname, dname_len\<close>; \<open>rk_type\<close> and \<open>rrset_class\<close> hold the values
  in network byte order, as the source stores them.
\<close>

record packed_rrset_key =
  dname :: "uint8_t list"
  rk_flags :: uint32_t
  rk_type :: uint16_t
  rrset_class :: uint16_t

text \<open>
  \<^verbatim>\<open>struct packed_rrset_data\<close>: the three parallel arrays of
  \<open>count + rrsig_count\<close> entries are three lists. The \<^verbatim>\<open>security\<close>
  status is left out: no function below reads or writes it.
\<close>

record packed_rrset_data =
  ttl :: uint32_t
  count :: nat
  rrsig_count :: nat
  trust :: rrset_trust
  rr_len :: "nat list"
  rr_ttl :: "uint32_t list"
  rr_data :: "uint8_t list list"

text \<open>
  \<^verbatim>\<open>struct ub_packed_rrset_key\<close>: \<open>key_id\<close> is the field \<^verbatim>\<open>id\<close>,
  \<open>entry_data\<close> the object behind \<^verbatim>\<open>entry.data\<close>. The hash value is left
  out: the hash table is modelled by key comparison.
\<close>

record ub_packed_rrset_key =
  key_id :: rrset_id_t
  rk :: packed_rrset_key
  entry_data :: packed_rrset_data

subsection \<open>Comparison of RRset keys\<close>

definition tolower :: "uint8_t \<Rightarrow> uint8_t" where
  "tolower c = (if 0x41 \<le> c \<and> c \<le> 0x5A then c + 0x20 else c)"

text \<open>
  Modelled from the spec: \<^verbatim>\<open>query_dname_compare\<close> (util/data/dname.c is not
  among the sources). The spec says that names are compared
  case-insensitively (``dname compared canonically''): the model is the
  three-way comparison of the two byte strings, byte by byte from the front,
  after lowercasing. \<^verbatim>\<open>ub_rrset_compare\<close> calls it on names of equal length.
\<close>

fun query_dname_compare :: "uint8_t list \<Rightarrow> uint8_t list \<Rightarrow> int" where
  "query_dname_compare [] [] = 0"
| "query_dname_compare [] (y # ys) = - 1"
| "query_dname_compare (x # xs) [] = 1"
| "query_dname_compare (x # xs) (y # ys) =
     (if tolower x < tolower y then - 1
      else if tolower y < tolower x then 1
      else query_dname_compare xs ys)"

text \<open>
  \<^verbatim>\<open>ub_rrset_compare\<close>. The source first returns 0 when the two pointers
  are the same object; on values that case is the last line (lemma
  \<open>ub_rrset_compare_same\<close>).
\<close>

definition ub_rrset_compare :: "ub_packed_rrset_key \<Rightarrow> ub_packed_rrset_key \<Rightarrow> int" where
  "ub_rrset_compare key1 key2 =
     (if rk_type (rk key1) \<noteq> rk_type (rk key2) then
        (if rk_type (rk key1) < rk_type (rk key2) then - 1 else 1)
      else if length (dname (rk key1)) \<noteq> length (dname (rk key2)) then
        (if length (dname (rk key1)) < length (dname (rk key2)) then - 1 else 1)
      else
        (let c = query_dname_compare (dname (rk key1)) (dname (rk key2)) in
         if c \<noteq> 0 then c
         else if rrset_class (rk key1) \<noteq> rrset_class (rk key2) then
           (if rrset_class (rk key1) < rrset_class (rk key2) then - 1 else 1)
         else if rk_flags (rk key1) \<noteq> rk_flags (rk key2) then
           (if rk_flags (rk key1) < rk_flags (rk key2) then - 1 else 1)
         else 0))"

text \<open>
  The order of the spec, in its words: type ascending, then dname length
  ascending, then the dname compared canonically, then class ascending, then
  flags ascending. It is the lexicographic order of this tuple.
\<close>

definition rrset_key_order ::
  "ub_packed_rrset_key \<Rightarrow> uint16_t \<times> nat \<times> uint8_t list \<times> uint16_t \<times> uint32_t" where
  "rrset_key_order k =
     (rk_type (rk k), length (dname (rk k)), map tolower (dname (rk k)),
      rrset_class (rk k), rk_flags (rk k))"

subsection \<open>Queries, replies, messages and the environment\<close>

record query_info =
  qname :: "uint8_t list"
  qtype :: uint16_t
  qclass :: uint16_t

text \<open>\<^verbatim>\<open>struct rrset_ref\<close>: the pointer \<^verbatim>\<open>key\<close> and the \<^verbatim>\<open>id\<close> it had.\<close>

record rrset_ref =
  ref_key :: addr
  ref_id :: rrset_id_t

text \<open>
  \<^verbatim>\<open>struct reply_info\<close>. In a cached reply the array \<open>rrsets\<close> holds
  pointers into the RRset cache (\<open>'k\<close> is \<open>addr\<close>); in a served message it
  holds pointers to the copies in the region, which are modelled by the
  copies themselves (\<open>'k\<close> is \<open>ub_packed_rrset_key\<close>).
\<close>

record 'k reply_info =
  rep_flags :: uint16_t
  qdcount :: uint8_t
  rep_ttl :: uint32_t
  an_numrrsets :: nat
  ns_numrrsets :: nat
  ar_numrrsets :: nat
  rrset_count :: nat
  rrsets :: "'k list"
  ref :: "rrset_ref list"

text \<open>\<^verbatim>\<open>struct msgreply_entry\<close>: the query \<open>key\<close> and the reply behind \<^verbatim>\<open>entry.data\<close>.\<close>

record msgreply_entry =
  key :: query_info
  data :: "addr reply_info"

record dns_msg =
  qinfo :: query_info
  rep :: "ub_packed_rrset_key reply_info"

text \<open>
  \<^verbatim>\<open>struct module_env\<close>: the two caches. \<open>mem\<close> is the memory of the RRset
  key objects, by address (the allocator never gives key memory back, so a
  pointer to a key always points to a key); \<open>rrset_entries\<close> lists the
  addresses of the keys that are in the hash table of \<^verbatim>\<open>env->rrset_cache\<close>; \<open>next_id\<close> is the
  allocator's next fresh id.
\<close>

record module_env =
  mem :: "addr \<Rightarrow> ub_packed_rrset_key"
  rrset_entries :: "addr list"
  msg_cache :: "msgreply_entry list"
  next_id :: rrset_id_t

subsection \<open>Constants of the protocol\<close>

text \<open>
  The headers that declare these are not among the sources; the values are
  those of the DNS protocol (record types of RFC 1035, 3596, 2672 and 4034,
  the YXDOMAIN response code of RFC 2136, the 255 byte limit on names, the QR
  bit of the header flags).
\<close>

definition LDNS_RR_TYPE_A :: uint16_t where "LDNS_RR_TYPE_A = 1"
definition LDNS_RR_TYPE_NS :: uint16_t where "LDNS_RR_TYPE_NS = 2"
definition LDNS_RR_TYPE_CNAME :: uint16_t where "LDNS_RR_TYPE_CNAME = 5"
definition LDNS_RR_TYPE_AAAA :: uint16_t where "LDNS_RR_TYPE_AAAA = 28"
definition LDNS_RR_TYPE_DNAME :: uint16_t where "LDNS_RR_TYPE_DNAME = 39"
definition LDNS_RR_TYPE_DS :: uint16_t where "LDNS_RR_TYPE_DS = 43"
definition LDNS_RR_TYPE_NSEC :: uint16_t where "LDNS_RR_TYPE_NSEC = 47"
definition LDNS_RCODE_YXDOMAIN :: uint16_t where "LDNS_RCODE_YXDOMAIN = 6"
definition LDNS_MAX_DOMAINLEN :: nat where "LDNS_MAX_DOMAINLEN = 255"
definition BIT_QR :: uint16_t where "BIT_QR = 0x8000"

text \<open>Byte order conversion on a little-endian host: the two bytes are swapped.\<close>

definition htons :: "uint16_t \<Rightarrow> uint16_t" where
  "htons x = push_bit 8 x OR drop_bit 8 x"

definition ntohs :: "uint16_t \<Rightarrow> uint16_t" where
  "ntohs x = push_bit 8 x OR drop_bit 8 x"

text \<open>\<^verbatim>\<open>ldns_read_uint16\<close> and \<^verbatim>\<open>ldns_write_uint16\<close>: 16 bits, big-endian.\<close>

definition ldns_read_uint16 :: "uint8_t list \<Rightarrow> nat" where
  "ldns_read_uint16 bs = unat (bs ! 0) * 256 + unat (bs ! 1)"

definition ldns_write_uint16 :: "nat \<Rightarrow> uint8_t list" where
  "ldns_write_uint16 n = [of_nat (n div 256), of_nat (n mod 256)]"

text \<open>
  Subtraction of \<^verbatim>\<open>size_t\<close> values (64 bits): it wraps around when the
  result would be negative.
\<close>

definition size_t_sub :: "nat \<Rightarrow> nat \<Rightarrow> nat" where
  "size_t_sub a b = (if b \<le> a then a - b else a + 2 ^ 64 - b)"

subsection \<open>Regions\<close>

text \<open>
  A region is the list of the outcomes of its coming allocations, \<open>False\<close>
  for one that fails (returns \<^verbatim>\<open>NULL\<close>); past the end of the list every
  allocation succeeds. \<^verbatim>\<open>region_alloc\<close> and \<^verbatim>\<open>region_alloc_init\<close> both
  take the next outcome; what they allocate is the value the model builds.
\<close>

type_synonym region = "bool list"

fun region_alloc :: "region \<Rightarrow> bool \<times> region" where
  "region_alloc [] = (True, [])"
| "region_alloc (b # bs) = (b, bs)"

definition alloc_ok :: "region \<Rightarrow> bool" where
  "alloc_ok r = fst (region_alloc r)"

definition alloc_rest :: "region \<Rightarrow> region" where
  "alloc_rest r = snd (region_alloc r)"

text \<open>The next \<open>n\<close> allocations of a region all succeed.\<close>

definition allocs_succeed :: "nat \<Rightarrow> region \<Rightarrow> bool" where
  "allocs_succeed n r = list_all (\<lambda>b. b) (take n r)"

subsection \<open>Lookups in the two caches\<close>

text \<open>
  Modelled from the spec: the equality of RRset keys that the RRset cache
  uses (services/cache/rrset.c is not among the sources). Equality uses all
  four fields, names are compared case-insensitively. The cache is asked
  with type and class in host byte order.
\<close>

definition rrset_key_match ::
  "packed_rrset_key \<Rightarrow> uint8_t list \<Rightarrow> uint16_t \<Rightarrow> uint16_t \<Rightarrow> uint32_t \<Rightarrow> bool" where
  "rrset_key_match k qn qt qc fl =
     (rk_type k = htons qt \<and> length (dname k) = length qn \<and>
      query_dname_compare (dname k) qn = 0 \<and>
      rrset_class k = htons qc \<and> rk_flags k = fl)"

text \<open>
  Modelled from the spec: \<^verbatim>\<open>rrset_cache_lookup\<close> (services/cache/rrset.c is
  not among the sources). It finds the entry whose key equals the argument
  and verifies \<open>entry.data.ttl > now\<close>; an expired entry is a miss.
\<close>

definition rrset_cache_lookup ::
  "module_env \<Rightarrow> uint8_t list \<Rightarrow> uint16_t \<Rightarrow> uint16_t \<Rightarrow> uint32_t \<Rightarrow> uint32_t \<Rightarrow> addr option" where
  "rrset_cache_lookup env qn qt qc fl now =
     (case find (\<lambda>a. rrset_key_match (rk (mem env a)) qn qt qc fl) (rrset_entries env) of
        None \<Rightarrow> None
      | Some a \<Rightarrow> if now < ttl (entry_data (mem env a)) then Some a else None)"

text \<open>
  Modelled from the spec: the lookup in the message cache
  (\<^verbatim>\<open>slabhash_lookup\<close> with the comparison of \<^verbatim>\<open>query_info\<close> keys, neither
  among the sources). The key is the triple of name, type and class, names
  compared case-insensitively.
\<close>

definition query_info_equal :: "query_info \<Rightarrow> query_info \<Rightarrow> bool" where
  "query_info_equal a b =
     (qtype a = qtype b \<and> qclass a = qclass b \<and>
      length (qname a) = length (qname b) \<and>
      query_dname_compare (qname a) (qname b) = 0)"

definition slabhash_lookup :: "msgreply_entry list \<Rightarrow> query_info \<Rightarrow> msgreply_entry option" where
  "slabhash_lookup c k = find (\<lambda>e. query_info_equal (key e) k) c"

text \<open>
  Modelled from the spec: \<^verbatim>\<open>rrset_array_lock\<close> (services/cache/rrset.c is
  not among the sources). It succeeds when every one of the \<open>cnt\<close>
  references is live (the key's id equals the id of the reference) and
  not expired (the spec: expired is \<open>ttl \<le> now\<close>).
\<close>

definition rrset_array_lock ::
  "(addr \<Rightarrow> ub_packed_rrset_key) \<Rightarrow> rrset_ref list \<Rightarrow> nat \<Rightarrow> uint32_t \<Rightarrow> bool" where
  "rrset_array_lock m rf cnt now =
     list_all (\<lambda>r. key_id (m (ref_key r)) = ref_id r \<and> now < ttl (entry_data (m (ref_key r))))
       (take cnt rf)"

subsection \<open>Copies into the region\<close>

text \<open>
  The loop of \<^verbatim>\<open>copy_rrset\<close> that makes the \<open>n\<close> per-record TTLs
  relative: \<^verbatim>\<open>for(i=0; i<n; i++) rr_ttl[i] -= now\<close>, on 32 bits.
\<close>

definition ttls_relative :: "uint32_t list \<Rightarrow> uint32_t \<Rightarrow> nat \<Rightarrow> uint32_t list" where
  "ttls_relative ts now n = fold (\<lambda>i xs. xs[i := xs ! i - now]) [0..<n] ts"

text \<open>
  \<^verbatim>\<open>copy_rrset\<close>: three allocations (the key, the name, the data), then the
  TTLs of the copy are made relative.
\<close>

definition copy_rrset ::
  "ub_packed_rrset_key \<Rightarrow> region \<Rightarrow> uint32_t \<Rightarrow> ub_packed_rrset_key option \<times> region" where
  "copy_rrset k region now =
     (if \<not> alloc_ok region then (None, alloc_rest region)
      else let r1 = alloc_rest region in
      if \<not> alloc_ok r1 then (None, alloc_rest r1)
      else let r2 = alloc_rest r1 in
      if \<not> alloc_ok r2 then (None, alloc_rest r2)
      else let r3 = alloc_rest r2; d = entry_data k in
        (Some \<lparr>key_id = key_id k, rk = rk k,
               entry_data = d\<lparr>ttl := ttl d - now,
                 rr_ttl := ttls_relative (rr_ttl d) now (count d + rrsig_count d)\<rparr>\<rparr>, r3))"

text \<open>The loop of \<^verbatim>\<open>tomsg\<close> over the RRsets of the reply: it stops at the first
  copy that fails.\<close>

fun copy_rrsets ::
  "(addr \<Rightarrow> ub_packed_rrset_key) \<Rightarrow> addr list \<Rightarrow> region \<Rightarrow> uint32_t \<Rightarrow>
   ub_packed_rrset_key list option \<times> region" where
  "copy_rrsets m [] region now = (Some [], region)"
| "copy_rrsets m (a # as) region now =
     (case copy_rrset (m a) region now of
        (None, r1) \<Rightarrow> (None, r1)
      | (Some ck, r1) \<Rightarrow>
          (case copy_rrsets m as r1 now of
             (None, r2) \<Rightarrow> (None, r2)
           | (Some cks, r2) \<Rightarrow> (Some (ck # cks), r2)))"

text \<open>
  \<^verbatim>\<open>gen_dns_msg\<close>: four allocations (the message, the query name, the
  reply, the array of \<open>num\<close> pointers). The fields of the reply are not
  initialised here; every caller assigns all of them.
\<close>

definition gen_dns_msg :: "region \<Rightarrow> query_info \<Rightarrow> nat \<Rightarrow> dns_msg option \<times> region" where
  "gen_dns_msg region q num =
     (if \<not> alloc_ok region then (None, alloc_rest region)
      else let r1 = alloc_rest region in
      if \<not> alloc_ok r1 then (None, alloc_rest r1)
      else let r2 = alloc_rest r1 in
      if \<not> alloc_ok r2 then (None, alloc_rest r2)
      else let r3 = alloc_rest r2 in
      if \<not> alloc_ok r3 then (None, alloc_rest r3)
      else (Some \<lparr>qinfo = q,
                  rep = \<lparr>rep_flags = 0, qdcount = 0, rep_ttl = 0, an_numrrsets = 0,
                         ns_numrrsets = 0, ar_numrrsets = 0, rrset_count = 0,
                         rrsets = [], ref = []\<rparr>\<rparr>, alloc_rest r3))"

subsection \<open>Messages from the caches\<close>

text \<open>\<^verbatim>\<open>tomsg\<close>: a message from a cached reply.\<close>

definition tomsg ::
  "module_env \<Rightarrow> msgreply_entry \<Rightarrow> addr reply_info \<Rightarrow> region \<Rightarrow> uint32_t \<Rightarrow>
   dns_msg option \<times> region" where
  "tomsg env e r region now =
     (if now > rep_ttl r then (None, region)
      else case gen_dns_msg region (key e) (rrset_count r) of
        (None, r1) \<Rightarrow> (None, r1)
      | (Some msg, r1) \<Rightarrow>
          if \<not> rrset_array_lock (mem env) (ref r) (rrset_count r) now then (None, r1)
          else
            (case copy_rrsets (mem env) (take (rrset_count r) (rrsets r)) r1 now of
               (None, r2) \<Rightarrow> (None, r2)
             | (Some cks, r2) \<Rightarrow>
                 (Some (msg\<lparr>rep := \<lparr>rep_flags = rep_flags r, qdcount = qdcount r,
                                    rep_ttl = rep_ttl r,
                                    an_numrrsets = an_numrrsets r,
                                    ns_numrrsets = ns_numrrsets r,
                                    ar_numrrsets = ar_numrrsets r,
                                    rrset_count = rrset_count r,
                                    rrsets = cks, ref = []\<rparr>\<rparr>), r2)))"

text \<open>\<^verbatim>\<open>cname_msg\<close>: a message with only the cached CNAME RRset.\<close>

definition cname_msg ::
  "ub_packed_rrset_key \<Rightarrow> region \<Rightarrow> uint32_t \<Rightarrow> query_info \<Rightarrow> dns_msg option \<times> region" where
  "cname_msg rrset region now q =
     (let d = entry_data rrset in
      if now > ttl d then (None, region)
      else case gen_dns_msg region q 1 of
        (None, r1) \<Rightarrow> (None, r1)
      | (Some msg, r1) \<Rightarrow>
          (case copy_rrset rrset r1 now of
             (None, r2) \<Rightarrow> (None, r2)
           | (Some ck, r2) \<Rightarrow>
               (Some (msg\<lparr>rep := \<lparr>rep_flags = BIT_QR, qdcount = 1,
                                  rep_ttl = ttl d - now,
                                  an_numrrsets = 1, ns_numrrsets = 0, ar_numrrsets = 0,
                                  rrset_count = 1, rrsets = [ck], ref = []\<rparr>\<rparr>), r2)))"

text \<open>
  Modelled from the spec: \<^verbatim>\<open>dname_valid\<close> (util/data/dname.c is not among
  the sources). A name is a sequence of length-prefixed labels ended by the
  zero-length root label, at most 255 bytes long. The model returns the
  length of the name at the front of the buffer when it is well formed
  (labels of at most 63 bytes) and fits in \<open>maxlen\<close> bytes, and 0 otherwise.
\<close>

fun dname_valid_from :: "uint8_t list \<Rightarrow> nat \<Rightarrow> nat \<Rightarrow> nat" where
  "dname_valid_from [] maxlen len = 0"
| "dname_valid_from (l # bs) maxlen len =
     (if l = 0 then (if maxlen < len + 1 then 0 else len + 1)
      else if 63 < unat l then 0
      else if LDNS_MAX_DOMAINLEN \<le> len + unat l + 1 then 0
      else if maxlen < len + unat l + 1 then 0
      else dname_valid_from (drop (unat l) bs) maxlen (len + unat l + 1))"

definition dname_valid :: "uint8_t list \<Rightarrow> nat \<Rightarrow> nat" where
  "dname_valid dn maxlen = dname_valid_from dn maxlen 0"

text \<open>
  \<^verbatim>\<open>get_cname_target\<close>: the target name in the first record of a CNAME or
  DNAME RRset; \<open>None\<close> when the function returns without assigning its
  output (the caller initialised it with \<^verbatim>\<open>NULL\<close>).
\<close>

definition get_cname_target :: "ub_packed_rrset_key \<Rightarrow> uint8_t list option" where
  "get_cname_target rrset =
     (if ntohs (rk_type (rk rrset)) \<noteq> LDNS_RR_TYPE_CNAME \<and>
         ntohs (rk_type (rk rrset)) \<noteq> LDNS_RR_TYPE_DNAME then None
      else let d = entry_data rrset in
      if count d < 1 then None
      else if rr_len d ! 0 < 3 then None
      else let len = ldns_read_uint16 (rr_data d ! 0) in
      if len \<noteq> rr_len d ! 0 - 2 then None
      else if dname_valid (drop 2 (rr_data d ! 0)) len \<noteq> len then None
      else Some (take len (drop 2 (rr_data d ! 0))))"

text \<open>
  \<^verbatim>\<open>synth_dname_msg\<close>: the DNAME RRset and a synthesized CNAME. The id of
  the synthesized key is not assigned by the source; the model puts 0 and no
  theorem below reads it. The caller passes an RRset whose owner is a suffix
  of the query name, so that \<open>qname_len - dname_len\<close> does not wrap.
\<close>

definition synth_dname_msg ::
  "ub_packed_rrset_key \<Rightarrow> region \<Rightarrow> uint32_t \<Rightarrow> query_info \<Rightarrow> dns_msg option \<times> region" where
  "synth_dname_msg rrset region now q =
     (let d = entry_data rrset in
      if now > ttl d then (None, region)
      else case gen_dns_msg region q 2 of
        (None, r1) \<Rightarrow> (None, r1)
      | (Some msg0, r1) \<Rightarrow>
      (case copy_rrset rrset r1 now of
        (None, r2) \<Rightarrow> (None, r2)
      | (Some dck, r2) \<Rightarrow>
      (let msg = msg0\<lparr>rep := \<lparr>rep_flags = BIT_QR, qdcount = 1, rep_ttl = ttl d - now,
                               an_numrrsets = 1, ns_numrrsets = 0, ar_numrrsets = 0,
                               rrset_count = 1, rrsets = [dck], ref = []\<rparr>\<rparr> in
       case get_cname_target rrset of
        None \<Rightarrow> (None, r2)
      | Some dtarg \<Rightarrow>
      (let newlen = size_t_sub (length (qname q) + length dtarg) (length (dname (rk rrset))) in
       if newlen > LDNS_MAX_DOMAINLEN then
         (Some (msg\<lparr>rep := (rep msg)\<lparr>rep_flags := rep_flags (rep msg) OR LDNS_RCODE_YXDOMAIN\<rparr>\<rparr>), r2)
       else if \<not> alloc_ok r2 then (None, alloc_rest r2)
       else let r3 = alloc_rest r2;
                newname = take (size_t_sub (length (qname q)) (length (dname (rk rrset)))) (qname q)
                          @ dtarg in
       if \<not> alloc_ok r3 then (None, alloc_rest r3)
       else let r4 = alloc_rest r3 in
       if \<not> alloc_ok r4 then (None, alloc_rest r4)
       else let r5 = alloc_rest r4 in
       if \<not> alloc_ok r5 then (None, alloc_rest r5)
       else let r6 = alloc_rest r5;
                newd = \<lparr>ttl = 0, count = 1, rrsig_count = 0, trust = rrset_trust_ans_noAA,
                        rr_len = [newlen + 2], rr_ttl = [0],
                        rr_data = [ldns_write_uint16 newlen @ newname]\<rparr>;
                ck = \<lparr>key_id = 0,
                      rk = \<lparr>dname = qname q, rk_flags = 0,
                            rk_type = htons LDNS_RR_TYPE_CNAME,
                            rrset_class = rrset_class (rk rrset)\<rparr>,
                      entry_data = newd\<rparr> in
         (Some (msg\<lparr>rep := (rep msg)\<lparr>rep_ttl := ttl newd,
                                        an_numrrsets := an_numrrsets (rep msg) + 1,
                                        rrset_count := rrset_count (rep msg) + 1,
                                        rrsets := rrsets (rep msg) @ [ck]\<rparr>\<rparr>), r6)))))"

text \<open>
  \<^verbatim>\<open>find_closest_of_type\<close>: the loop runs while \<open>qnamelen > 0\<close>, looks the
  name up and snips off the front label (\<open>lablen + 1\<close> bytes). Where a label
  length runs past the end of the name the source would read beyond the
  buffer; the model stops there.
\<close>

fun find_closest_of_type ::
  "module_env \<Rightarrow> uint8_t list \<Rightarrow> uint16_t \<Rightarrow> uint32_t \<Rightarrow> uint16_t \<Rightarrow> addr option" where
  "find_closest_of_type env [] qc now searchtype = None"
| "find_closest_of_type env (lablen # rest) qc now searchtype =
     (case rrset_cache_lookup env (lablen # rest) searchtype qc 0 now of
        Some a \<Rightarrow> Some a
      | None \<Rightarrow> find_closest_of_type env (drop (unat lablen) rest) qc now searchtype)"

text \<open>
  \<^verbatim>\<open>dns_cache_lookup\<close>: the cached message, then a DNAME at the name or
  above it, then a CNAME at the name. The scratch region only serves the
  LRU update of \<^verbatim>\<open>rrset_array_unlock_touch\<close> and is left out.
\<close>

definition dns_cache_lookup ::
  "module_env \<Rightarrow> uint8_t list \<Rightarrow> uint16_t \<Rightarrow> uint16_t \<Rightarrow> region \<Rightarrow> uint32_t \<Rightarrow>
   dns_msg option \<times> region" where
  "dns_cache_lookup env qn qt qc region now =
     (let k = \<lparr>qname = qn, qtype = qt, qclass = qc\<rparr> in
      case (case slabhash_lookup (msg_cache env) k of
              None \<Rightarrow> (None, region)
            | Some e \<Rightarrow> tomsg env e (data e) region now) of
        (Some msg, r1) \<Rightarrow> (Some msg, r1)
      | (None, r1) \<Rightarrow>
      (case (case find_closest_of_type env qn qc now LDNS_RR_TYPE_DNAME of
               None \<Rightarrow> (None, r1)
             | Some a \<Rightarrow> synth_dname_msg (mem env a) r1 now k) of
        (Some msg, r2) \<Rightarrow> (Some msg, r2)
      | (None, r2) \<Rightarrow>
      (case rrset_cache_lookup env qn LDNS_RR_TYPE_CNAME qc 0 now of
        None \<Rightarrow> (None, r2)
      | Some a \<Rightarrow> cname_msg (mem env a) r2 now k)))"

subsection \<open>Delegation points\<close>

text \<open>
  Modelled from the spec: the delegation point and its operations
  (iterator/iter\_delegpt.c is not among the sources). A delegation point has
  an owner name, a list of nameserver names and an address table of the
  address RRsets attached to it; it lives in the caller's region.
  \<^verbatim>\<open>delegpt_create\<close> and \<^verbatim>\<open>delegpt_set_name\<close> take one allocation each,
  \<^verbatim>\<open>delegpt_rrset_add_ns\<close> one for every nameserver name it adds (the names
  of the rdata, each behind its 16 bit length), and \<^verbatim>\<open>delegpt_add_rrset_A\<close>
  and \<^verbatim>\<open>delegpt_add_rrset_AAAA\<close> one for the address set they attach.
  Each returns false at the first allocation that fails and leaves what it
  had added before.
\<close>

record delegpt_ns =
  ns_name :: "uint8_t list"

record delegpt =
  dp_name :: "uint8_t list"
  nslist :: "delegpt_ns list"
  dp_addrs :: "ub_packed_rrset_key list"

definition delegpt_create :: "region \<Rightarrow> delegpt option \<times> region" where
  "delegpt_create region =
     (if \<not> alloc_ok region then (None, alloc_rest region)
      else (Some \<lparr>dp_name = [], nslist = [], dp_addrs = []\<rparr>, alloc_rest region))"

definition delegpt_set_name :: "delegpt \<Rightarrow> region \<Rightarrow> uint8_t list \<Rightarrow> delegpt option \<times> region" where
  "delegpt_set_name dp region nm =
     (if \<not> alloc_ok region then (None, alloc_rest region)
      else (Some (dp\<lparr>dp_name := nm\<rparr>), alloc_rest region))"

fun delegpt_add_ns_names ::
  "delegpt \<Rightarrow> region \<Rightarrow> uint8_t list list \<Rightarrow> bool \<times> delegpt \<times> region" where
  "delegpt_add_ns_names dp region [] = (True, dp, region)"
| "delegpt_add_ns_names dp region (rd # rds) =
     (if \<not> alloc_ok region then (False, dp, alloc_rest region)
      else delegpt_add_ns_names (dp\<lparr>nslist := nslist dp @ [\<lparr>ns_name = drop 2 rd\<rparr>]\<rparr>)
             (alloc_rest region) rds)"

definition delegpt_rrset_add_ns ::
  "delegpt \<Rightarrow> region \<Rightarrow> ub_packed_rrset_key \<Rightarrow> bool \<times> delegpt \<times> region" where
  "delegpt_rrset_add_ns dp region nskey =
     delegpt_add_ns_names dp region
       (take (count (entry_data nskey)) (rr_data (entry_data nskey)))"

definition delegpt_add_rrset_A ::
  "delegpt \<Rightarrow> region \<Rightarrow> ub_packed_rrset_key \<Rightarrow> bool \<times> delegpt \<times> region" where
  "delegpt_add_rrset_A dp region akey =
     (if \<not> alloc_ok region then (False, dp, alloc_rest region)
      else (True, dp\<lparr>dp_addrs := dp_addrs dp @ [akey]\<rparr>, alloc_rest region))"

definition delegpt_add_rrset_AAAA ::
  "delegpt \<Rightarrow> region \<Rightarrow> ub_packed_rrset_key \<Rightarrow> bool \<times> delegpt \<times> region" where
  "delegpt_add_rrset_AAAA dp region akey =
     (if \<not> alloc_ok region then (False, dp, alloc_rest region)
      else (True, dp\<lparr>dp_addrs := dp_addrs dp @ [akey]\<rparr>, alloc_rest region))"

text \<open>
  \<^verbatim>\<open>addr_to_additional\<close>: the copy goes to the slot \<open>rrsets[rrset_count]\<close>,
  the end of the list, and is counted only when the copy succeeded.
\<close>

definition addr_to_additional ::
  "ub_packed_rrset_key \<Rightarrow> region \<Rightarrow> dns_msg \<Rightarrow> uint32_t \<Rightarrow> dns_msg \<times> region" where
  "addr_to_additional rrset region msg now =
     (case copy_rrset rrset region now of
        (None, r1) \<Rightarrow> (msg, r1)
      | (Some ck, r1) \<Rightarrow>
          (msg\<lparr>rep := (rep msg)\<lparr>rrsets := rrsets (rep msg) @ [ck],
                                 ar_numrrsets := ar_numrrsets (rep msg) + 1,
                                 rrset_count := rrset_count (rep msg) + 1\<rparr>\<rparr>, r1))"

text \<open>
  One of the two blocks in the loop body of \<^verbatim>\<open>find_add_addrs\<close>: look up
  the addresses of type \<open>t\<close> for a nameserver, attach them with \<open>add\<close> and
  put them in the additional section when a message is built. The first
  component is false where the source returns 0.
\<close>

definition find_add_addr ::
  "module_env \<Rightarrow> uint16_t \<Rightarrow> uint16_t \<Rightarrow>
   (delegpt \<Rightarrow> region \<Rightarrow> ub_packed_rrset_key \<Rightarrow> bool \<times> delegpt \<times> region) \<Rightarrow>
   delegpt_ns \<Rightarrow> region \<Rightarrow> delegpt \<Rightarrow> uint32_t \<Rightarrow> dns_msg option \<Rightarrow>
   bool \<times> delegpt \<times> dns_msg option \<times> region" where
  "find_add_addr env qc t add ns region dp now msg =
     (case rrset_cache_lookup env (ns_name ns) t qc 0 now of
        None \<Rightarrow> (True, dp, msg, region)
      | Some a \<Rightarrow>
          (case add dp region (mem env a) of
             (False, dp1, r1) \<Rightarrow> (False, dp1, msg, r1)
           | (True, dp1, r1) \<Rightarrow>
               (case msg of
                  None \<Rightarrow> (True, dp1, None, r1)
                | Some m \<Rightarrow>
                    (case addr_to_additional (mem env a) r1 m now of
                       (m1, r2) \<Rightarrow> (True, dp1, Some m1, r2)))))"

text \<open>\<^verbatim>\<open>find_add_addrs\<close>: the loop over the nameservers, A then AAAA for each.\<close>

fun find_add_addrs_loop ::
  "module_env \<Rightarrow> uint16_t \<Rightarrow> delegpt_ns list \<Rightarrow> region \<Rightarrow> delegpt \<Rightarrow> uint32_t \<Rightarrow>
   dns_msg option \<Rightarrow> bool \<times> delegpt \<times> dns_msg option \<times> region" where
  "find_add_addrs_loop env qc [] region dp now msg = (True, dp, msg, region)"
| "find_add_addrs_loop env qc (ns # nss) region dp now msg =
     (case find_add_addr env qc LDNS_RR_TYPE_A delegpt_add_rrset_A ns region dp now msg of
        (False, dp1, msg1, r1) \<Rightarrow> (False, dp1, msg1, r1)
      | (True, dp1, msg1, r1) \<Rightarrow>
          (case find_add_addr env qc LDNS_RR_TYPE_AAAA delegpt_add_rrset_AAAA ns r1 dp1 now msg1 of
             (False, dp2, msg2, r2) \<Rightarrow> (False, dp2, msg2, r2)
           | (True, dp2, msg2, r2) \<Rightarrow> find_add_addrs_loop env qc nss r2 dp2 now msg2))"

definition find_add_addrs ::
  "module_env \<Rightarrow> uint16_t \<Rightarrow> region \<Rightarrow> delegpt \<Rightarrow> uint32_t \<Rightarrow> dns_msg option \<Rightarrow>
   bool \<times> delegpt \<times> dns_msg option \<times> region" where
  "find_add_addrs env qc region dp now msg =
     find_add_addrs_loop env qc (nslist dp) region dp now msg"

text \<open>\<^verbatim>\<open>find_add_ds\<close>: the DS, or else the NSEC, at the delegation point goes
  to the authority section.\<close>

definition find_add_ds ::
  "module_env \<Rightarrow> region \<Rightarrow> dns_msg \<Rightarrow> delegpt \<Rightarrow> uint32_t \<Rightarrow> dns_msg \<times> region" where
  "find_add_ds env region msg dp now =
     (case (case rrset_cache_lookup env (dp_name dp) LDNS_RR_TYPE_DS (qclass (qinfo msg)) 0 now of
              None \<Rightarrow> rrset_cache_lookup env (dp_name dp) LDNS_RR_TYPE_NSEC
                        (qclass (qinfo msg)) 0 now
            | Some a \<Rightarrow> Some a) of
        None \<Rightarrow> (msg, region)
      | Some a \<Rightarrow>
          (case copy_rrset (mem env a) region now of
             (None, r1) \<Rightarrow> (msg, r1)
           | (Some ck, r1) \<Rightarrow>
               (msg\<lparr>rep := (rep msg)\<lparr>rrsets := rrsets (rep msg) @ [ck],
                                      ns_numrrsets := ns_numrrsets (rep msg) + 1,
                                      rrset_count := rrset_count (rep msg) + 1\<rparr>\<rparr>, r1)))"

text \<open>
  \<^verbatim>\<open>create_msg\<close>: four allocations (message, query name, reply, array),
  the reply zeroed, then the copy of the NS RRset as the first authority
  RRset. \<open>nsdata\<close> only sizes the array.
\<close>

definition create_msg ::
  "uint8_t list \<Rightarrow> uint16_t \<Rightarrow> uint16_t \<Rightarrow> region \<Rightarrow> ub_packed_rrset_key \<Rightarrow>
   packed_rrset_data \<Rightarrow> uint32_t \<Rightarrow> dns_msg option \<times> region" where
  "create_msg qn qt qc region nskey nsdata now =
     (if \<not> alloc_ok region then (None, alloc_rest region)
      else let r1 = alloc_rest region in
      if \<not> alloc_ok r1 then (None, alloc_rest r1)
      else let r2 = alloc_rest r1 in
      if \<not> alloc_ok r2 then (None, alloc_rest r2)
      else let r3 = alloc_rest r2 in
      if \<not> alloc_ok r3 then (None, alloc_rest r3)
      else case copy_rrset nskey (alloc_rest r3) now of
        (None, r4) \<Rightarrow> (None, r4)
      | (Some ck, r4) \<Rightarrow>
          (Some \<lparr>qinfo = \<lparr>qname = qn, qtype = qt, qclass = qc\<rparr>,
                 rep = \<lparr>rep_flags = BIT_QR, qdcount = 1, rep_ttl = 0, an_numrrsets = 0,
                        ns_numrrsets = 1, ar_numrrsets = 0, rrset_count = 1,
                        rrsets = [ck], ref = []\<rparr>\<rparr>, r4))"

text \<open>
  \<^verbatim>\<open>dns_cache_find_delegation\<close>. \<open>want_msg\<close> says that the caller passed a
  place for the referral message; the second component of the result is the
  message left there (\<open>None\<close> when none was built).
\<close>

definition dns_cache_find_delegation ::
  "module_env \<Rightarrow> uint8_t list \<Rightarrow> uint16_t \<Rightarrow> uint16_t \<Rightarrow> region \<Rightarrow> bool \<Rightarrow> uint32_t \<Rightarrow>
   delegpt option \<times> dns_msg option \<times> region" where
  "dns_cache_find_delegation env qn qt qc region want_msg now =
     (case find_closest_of_type env qn qc now LDNS_RR_TYPE_NS of
        None \<Rightarrow> (None, None, region)
      | Some a \<Rightarrow>
      (let nskey = mem env a; nsdata = entry_data nskey in
       case delegpt_create region of
        (None, r1) \<Rightarrow> (None, None, r1)
      | (Some dp0, r1) \<Rightarrow>
      (case delegpt_set_name dp0 r1 (dname (rk nskey)) of
        (None, r2) \<Rightarrow> (None, None, r2)
      | (Some dp1, r2) \<Rightarrow>
      (case (if want_msg then create_msg qn qt qc r2 nskey nsdata now else (None, r2)) of
        (msg0, r3) \<Rightarrow>
      if want_msg \<and> msg0 = None then (None, None, r3)
      else
      (case delegpt_rrset_add_ns dp1 r3 nskey of
        (ok_ns, dp2, r4) \<Rightarrow>
      (case (case msg0 of
               None \<Rightarrow> (None, r4)
             | Some m \<Rightarrow> (case find_add_ds env r4 m dp2 now of (m1, r5) \<Rightarrow> (Some m1, r5))) of
        (msg1, r5) \<Rightarrow>
      (case find_add_addrs env qc r5 dp2 now msg1 of
        (ok_addrs, dp3, msg2, r6) \<Rightarrow> (Some dp3, msg2, r6))))))))"

subsection \<open>Storing a reply\<close>

text \<open>\<^verbatim>\<open>packed_rrset_ttl_add\<close>: add to the TTL of the set and of each record.\<close>

definition packed_rrset_ttl_add :: "packed_rrset_data \<Rightarrow> uint32_t \<Rightarrow> packed_rrset_data" where
  "packed_rrset_ttl_add d add =
     d\<lparr>ttl := ttl d + add,
       rr_ttl := fold (\<lambda>i xs. xs[i := xs ! i + add]) [0..<count d + rrsig_count d] (rr_ttl d)\<rparr>"

text \<open>\<^verbatim>\<open>rrsetdata_equal\<close>: same counts, and record by record the same length
  and the same bytes (\<^verbatim>\<open>memcmp\<close> over \<open>rr_len[i]\<close> bytes).\<close>

definition rrsetdata_equal :: "packed_rrset_data \<Rightarrow> packed_rrset_data \<Rightarrow> bool" where
  "rrsetdata_equal d1 d2 =
     (if count d1 \<noteq> count d2 \<or> rrsig_count d1 \<noteq> rrsig_count d2 then False
      else list_all
             (\<lambda>i. rr_len d1 ! i = rr_len d2 ! i \<and>
                  take (rr_len d1 ! i) (rr_data d1 ! i) = take (rr_len d1 ! i) (rr_data d2 ! i))
             [0..<count d1 + rrsig_count d1])"

text \<open>
  Modelled from the spec: \<^verbatim>\<open>reply_info_sortref\<close> (util/data/msgreply.c is
  not among the sources). The references of a reply are sorted by the order
  of \<^verbatim>\<open>ub_rrset_compare\<close> on the keys they point to.
\<close>

fun insort_ref ::
  "(addr \<Rightarrow> ub_packed_rrset_key) \<Rightarrow> rrset_ref \<Rightarrow> rrset_ref list \<Rightarrow> rrset_ref list" where
  "insort_ref m x [] = [x]"
| "insort_ref m x (y # ys) =
     (if ub_rrset_compare (m (ref_key x)) (m (ref_key y)) \<le> 0 then x # y # ys
      else y # insort_ref m x ys)"

definition reply_info_sortref ::
  "(addr \<Rightarrow> ub_packed_rrset_key) \<Rightarrow> addr reply_info \<Rightarrow> addr reply_info" where
  "reply_info_sortref m r = r\<lparr>ref := foldr (insort_ref m) (ref r) []\<rparr>"

text \<open>
  Modelled from the spec: \<^verbatim>\<open>reply_info_set_ttls\<close> (util/data/msgreply.c is
  not among the sources). The TTLs of the reply and of each of its RRsets,
  relative when the reply arrives, become absolute: \<open>now\<close> is added, once
  for every RRset the references point to.
\<close>

definition reply_info_set_ttls ::
  "module_env \<Rightarrow> addr reply_info \<Rightarrow> uint32_t \<Rightarrow> module_env \<times> addr reply_info" where
  "reply_info_set_ttls env r now =
     (env\<lparr>mem := fold (\<lambda>a m. m(a := (m a)\<lparr>entry_data := packed_rrset_ttl_add (entry_data (m a)) now\<rparr>))
                    (remdups (map ref_key (ref r))) (mem env)\<rparr>,
      r\<lparr>rep_ttl := rep_ttl r + now\<rparr>)"

text \<open>
  Modelled from the spec: \<^verbatim>\<open>rrset_cache_update\<close> (services/cache/rrset.c is
  not among the sources), the insert of the RRset store with its merge
  policy. With no entry for the key the new one is installed under a fresh
  id, written into the reference. An existing entry of strictly higher trust
  is kept and the reference is set to it. Otherwise, when the new data is
  equal (\<^verbatim>\<open>rrsetdata_equal\<close>), the TTLs of the existing entry become the
  maximum of the existing and the new ones; otherwise the data is replaced
  in place under a fresh id. The result says whether the caller is to adopt
  the key of the store. The store of the model has no capacity limit and
  evicts nothing.
\<close>

definition rrset_cache_update ::
  "module_env \<Rightarrow> rrset_ref \<Rightarrow> uint32_t \<Rightarrow> bool \<times> rrset_ref \<times> module_env" where
  "rrset_cache_update env rf now =
     (let k = mem env (ref_key rf) in
      case find (\<lambda>a. ub_rrset_compare (mem env a) k = 0) (rrset_entries env) of
        None \<Rightarrow>
          (False, rf\<lparr>ref_id := next_id env\<rparr>,
           env\<lparr>mem := (mem env)(ref_key rf := k\<lparr>key_id := next_id env\<rparr>),
               rrset_entries := ref_key rf # rrset_entries env,
               next_id := next_id env + 1\<rparr>)
      | Some a \<Rightarrow>
          (let e = mem env a in
           if trust_rank (trust (entry_data k)) < trust_rank (trust (entry_data e)) then
             (True, \<lparr>ref_key = a, ref_id = key_id e\<rparr>, env)
           else if rrsetdata_equal (entry_data k) (entry_data e) then
             (True, \<lparr>ref_key = a, ref_id = key_id e\<rparr>,
              env\<lparr>mem := (mem env)(a := e\<lparr>entry_data := (entry_data e)
                      \<lparr>ttl := max (ttl (entry_data e)) (ttl (entry_data k)),
                       rr_ttl := map2 max (rr_ttl (entry_data e)) (rr_ttl (entry_data k))\<rparr>\<rparr>)\<rparr>)
           else
             (True, \<lparr>ref_key = a, ref_id = next_id env\<rparr>,
              env\<lparr>mem := (mem env)(a := e\<lparr>key_id := next_id env, entry_data := entry_data k\<rparr>),
                  next_id := next_id env + 1\<rparr>)))"

text \<open>
  \<^verbatim>\<open>store_rrsets\<close>: the body of the loop for index \<open>i\<close>, and the loop over
  the \<open>rrset_count\<close> RRsets of the reply.
\<close>

definition store_rrset_step ::
  "uint32_t \<Rightarrow> nat \<Rightarrow> module_env \<times> addr reply_info \<Rightarrow> module_env \<times> addr reply_info" where
  "store_rrset_step now i s =
     (let env = fst s; r = snd s in
      case rrset_cache_update env
             \<lparr>ref_key = rrsets r ! i, ref_id = key_id (mem env (rrsets r ! i))\<rparr> now of
        (in_cache, rf, env1) \<Rightarrow>
          (env1, r\<lparr>ref := (ref r)[i := rf],
                   rrsets := (if in_cache then (rrsets r)[i := ref_key rf] else rrsets r)\<rparr>))"

definition store_rrsets ::
  "module_env \<Rightarrow> addr reply_info \<Rightarrow> uint32_t \<Rightarrow> module_env \<times> addr reply_info" where
  "store_rrsets env r now = fold (store_rrset_step now) [0..<rrset_count r] (env, r)"

text \<open>
  Modelled from the spec: the insert into the message cache
  (\<^verbatim>\<open>slabhash_insert\<close>, not among the sources): the entry is installed for
  its query key, in the place of an entry with an equal key.
\<close>

definition slabhash_insert :: "msgreply_entry list \<Rightarrow> msgreply_entry \<Rightarrow> msgreply_entry list" where
  "slabhash_insert c e = e # filter (\<lambda>x. \<not> query_info_equal (key x) (key e)) c"

text \<open>
  \<^verbatim>\<open>dns_cache_store_msg\<close>. \<open>malloc_ok\<close> is the outcome of the allocation in
  \<^verbatim>\<open>query_info_entrysetup\<close>. The reply is changed in place, so it is
  returned with the environment. The argument \<^verbatim>\<open>hash\<close> only selects the
  place in the hash table and is left out.
\<close>

definition dns_cache_store_msg ::
  "module_env \<Rightarrow> query_info \<Rightarrow> addr reply_info \<Rightarrow> uint32_t \<Rightarrow> bool \<Rightarrow>
   module_env \<times> addr reply_info" where
  "dns_cache_store_msg env q r now malloc_ok =
     (let ttl0 = rep_ttl r;
          r1 = r\<lparr>ref := map (\<lambda>a. \<lparr>ref_key = a, ref_id = key_id (mem env a)\<rparr>)
                          (take (rrset_count r) (rrsets r))\<rparr>;
          r2 = reply_info_sortref (mem env) r1 in
      case reply_info_set_ttls env r2 now of
        (env3, r3) \<Rightarrow>
      (case store_rrsets env3 r3 now of
        (env4, r4) \<Rightarrow>
      if ttl0 = 0 then (env4, r4)
      else let r5 = reply_info_sortref (mem env4) r4 in
      if \<not> malloc_ok then (env4, r5)
      else (env4\<lparr>msg_cache := slabhash_insert (msg_cache env4) \<lparr>key = q, data = r5\<rparr>\<rparr>, r5)))"

subsection \<open>Invariants of the cached data\<close>

text \<open>
  The invariant of the spec on stored RRset data: the three sequences have
  \<open>count + rrsig_count\<close> entries and the TTL of the set is the minimum of the
  TTLs of its records.
\<close>

definition rrset_data_invariant :: "packed_rrset_data \<Rightarrow> bool" where
  "rrset_data_invariant d \<longleftrightarrow>
     length (rr_ttl d) = count d + rrsig_count d \<and> rr_ttl d \<noteq> [] \<and>
     ttl d = Min (set (rr_ttl d))"

text \<open>
  In a cached reply the references point to the keys of the array
  \<open>rrsets\<close>: \<^verbatim>\<open>dns_cache_store_msg\<close> and \<^verbatim>\<open>store_rrsets\<close> set
  \<open>ref[i].key = rrsets[i]\<close> and sorting only permutes the references.
\<close>

definition reply_refs_cover :: "addr reply_info \<Rightarrow> bool" where
  "reply_refs_cover r \<longleftrightarrow>
     set (take (rrset_count r) (rrsets r)) \<subseteq> ref_key ` set (take (rrset_count r) (ref r))"

text \<open>
  The state of the reply inside the loop of \<^verbatim>\<open>store_rrsets\<close>, before
  index \<open>k\<close>: the reply has \<open>n\<close> references and \<open>l\<close> slots in its array
  of RRsets, and the first \<open>k\<close> references point to the keys of the array.
\<close>

definition refs_match :: "nat \<Rightarrow> nat \<Rightarrow> nat \<Rightarrow> addr reply_info \<Rightarrow> bool" where
  "refs_match k n l r \<longleftrightarrow>
     length (ref r) = n \<and> length (rrsets r) = l \<and> rrset_count r = n \<and>
     (\<forall>j<k. ref_key (ref r ! j) = rrsets r ! j)"

text \<open>The addresses of the RRsets that the two caches hold or refer to.\<close>

definition cached_rrsets :: "module_env \<Rightarrow> addr set" where
  "cached_rrsets env =
     set (rrset_entries env) \<union> (\<Union>e\<in>set (msg_cache env). set (rrsets (data e)))"

text \<open>
  A served RRset \<open>s\<close> carries the TTLs of the cached RRset \<open>c\<close> rebased to
  seconds remaining at \<open>now\<close>: each served TTL is the stored one minus
  \<open>now\<close>, the subtraction on 32 bits did not wrap around (as numbers,
  served plus \<open>now\<close> is the stored value), and so it is not above the stored
  one.
\<close>

definition ttl_rebased :: "uint32_t \<Rightarrow> ub_packed_rrset_key \<Rightarrow> ub_packed_rrset_key \<Rightarrow> bool" where
  "ttl_rebased now c s \<longleftrightarrow>
     rk s = rk c \<and>
     list_all2 (\<lambda>t' t. t' = t - now \<and> unat t' + unat now = unat t \<and> t' \<le> t)
       (rr_ttl (entry_data s)) (rr_ttl (entry_data c))"

subsection \<open>Names as sequences of labels\<close>

text \<open>
  The wire format of the name with the labels \<open>ls\<close>: each label behind its
  length byte, then the zero-length root label. The ancestors of a name,
  itself first and the root last, are the names of the suffixes of its
  sequence of labels.
\<close>

fun dname_of_labels :: "uint8_t list list \<Rightarrow> uint8_t list" where
  "dname_of_labels [] = [0]"
| "dname_of_labels (l # ls) = of_nat (length l) # l @ dname_of_labels ls"

fun label_suffixes :: "'a list \<Rightarrow> 'a list list" where
  "label_suffixes [] = [[]]"
| "label_suffixes (l # ls) = (l # ls) # label_suffixes ls"

section \<open>Example inputs\<close>

text \<open>Concrete keys, caches and queries on which the theorems below are instantiated.\<close>

definition w9_a :: ub_packed_rrset_key where
  "w9_a = \<lparr>key_id = 1, rk = \<lparr>dname = [1, 0x41, 0], rk_flags = 0, rk_type = 5, rrset_class = 1\<rparr>,
     entry_data = \<lparr>ttl = 0, count = 0, rrsig_count = 0, trust = rrset_trust_none, rr_len = [], rr_ttl = [], rr_data = []\<rparr>\<rparr>"
definition w9_b :: ub_packed_rrset_key where
  "w9_b = \<lparr>key_id = 2, rk = \<lparr>dname = [1, 0x61, 0], rk_flags = 0, rk_type = 5, rrset_class = 1\<rparr>,
     entry_data = \<lparr>ttl = 0, count = 0, rrsig_count = 0, trust = rrset_trust_none, rr_len = [], rr_ttl = [], rr_data = []\<rparr>\<rparr>"
definition w9_c :: ub_packed_rrset_key where
  "w9_c = \<lparr>key_id = 3, rk = \<lparr>dname = [1, 0x61, 0], rk_flags = 1, rk_type = 5, rrset_class = 1\<rparr>,
     entry_data = \<lparr>ttl = 0, count = 0, rrsig_count = 0, trust = rrset_trust_none, rr_len = [], rr_ttl = [], rr_data = []\<rparr>\<rparr>"

text \<open>
  A cache with a DNAME at \<open>ab.\<close> to \<open>cd.\<close> (address 1) and a CNAME at
  \<open>w.ab.\<close> to \<open>x.ab.\<close> (address 2), class IN, and no cached message.
\<close>

definition w_dname :: ub_packed_rrset_key where
  "w_dname = \<lparr>key_id = 7,
     rk = \<lparr>dname = [2, 0x61, 0x62, 0], rk_flags = 0,
           rk_type = htons LDNS_RR_TYPE_DNAME, rrset_class = htons 1\<rparr>,
     entry_data = \<lparr>ttl = 3700, count = 1, rrsig_count = 0, trust = rrset_trust_ans_AA,
       rr_len = [6], rr_ttl = [3700], rr_data = [[0, 4, 2, 0x63, 0x64, 0]]\<rparr>\<rparr>"

definition w_cname :: ub_packed_rrset_key where
  "w_cname = \<lparr>key_id = 8,
     rk = \<lparr>dname = [1, 0x77, 2, 0x61, 0x62, 0], rk_flags = 0,
           rk_type = htons LDNS_RR_TYPE_CNAME, rrset_class = htons 1\<rparr>,
     entry_data = \<lparr>ttl = 400, count = 1, rrsig_count = 0, trust = rrset_trust_ans_AA,
       rr_len = [8], rr_ttl = [400], rr_data = [[0, 6, 1, 0x78, 2, 0x61, 0x62, 0]]\<rparr>\<rparr>"

definition w_env :: module_env where
  "w_env = \<lparr>mem = (\<lambda>a. if a = 1 then w_dname else w_cname), rrset_entries = [1, 2],
     msg_cache = [], next_id = 9\<rparr>"

definition w_qname :: "uint8_t list" where
  "w_qname = [1, 0x77, 2, 0x61, 0x62, 0]"

definition w_owner :: "uint8_t list" where
  "w_owner = [2, 0x61, 0x62, 0]"

text \<open>
  A query name of 196 bytes below \<open>ab.\<close> (three labels of 63 bytes), and a
  cache whose DNAME at \<open>ab.\<close> has a target of 65 bytes: the rewritten name
  would have 257 bytes.
\<close>

definition w_long_qname :: "uint8_t list" where
  "w_long_qname =
     (63 # replicate 63 0x78) @ (63 # replicate 63 0x78) @ (63 # replicate 63 0x78) @
     [2, 0x61, 0x62, 0]"

definition w_long_dname :: ub_packed_rrset_key where
  "w_long_dname = \<lparr>key_id = 7,
     rk = \<lparr>dname = [2, 0x61, 0x62, 0], rk_flags = 0,
           rk_type = htons LDNS_RR_TYPE_DNAME, rrset_class = htons 1\<rparr>,
     entry_data = \<lparr>ttl = 3700, count = 1, rrsig_count = 0, trust = rrset_trust_ans_AA,
       rr_len = [67], rr_ttl = [3700],
       rr_data = [[0, 65] @ (63 # replicate 63 0x79) @ [0]]\<rparr>\<rparr>"

definition w_long_env :: module_env where
  "w_long_env = \<lparr>mem = (\<lambda>a. w_long_dname), rrset_entries = [1], msg_cache = [], next_id = 9\<rparr>"

text \<open>The message that the lookup of \<open>ab.\<close> with type DNAME gets from \<open>w_env\<close>.\<close>

definition w_dname_reply :: dns_msg where
  "w_dname_reply =
     \<lparr>qinfo = \<lparr>qname = [2, 0x61, 0x62, 0], qtype = LDNS_RR_TYPE_DNAME, qclass = 1\<rparr>,
      rep = \<lparr>rep_flags = BIT_QR, qdcount = 1, rep_ttl = 0, an_numrrsets = 2,
             ns_numrrsets = 0, ar_numrrsets = 0, rrset_count = 2,
             rrsets =
               [\<lparr>key_id = 7,
                 rk = \<lparr>dname = [2, 0x61, 0x62, 0], rk_flags = 0,
                       rk_type = htons LDNS_RR_TYPE_DNAME, rrset_class = htons 1\<rparr>,
                 entry_data = \<lparr>ttl = 3600, count = 1, rrsig_count = 0,
                   trust = rrset_trust_ans_AA, rr_len = [6], rr_ttl = [3600],
                   rr_data = [[0, 4, 2, 0x63, 0x64, 0]]\<rparr>\<rparr>,
                \<lparr>key_id = 0,
                 rk = \<lparr>dname = [2, 0x61, 0x62, 0], rk_flags = 0,
                       rk_type = htons LDNS_RR_TYPE_CNAME, rrset_class = htons 1\<rparr>,
                 entry_data = \<lparr>ttl = 0, count = 1, rrsig_count = 0,
                   trust = rrset_trust_ans_noAA, rr_len = [6], rr_ttl = [0],
                   rr_data = [[0, 4, 2, 0x63, 0x64, 0]]\<rparr>\<rparr>],
             ref = []\<rparr>\<rparr>"

text \<open>
  A cache with an A RRset at \<open>ab.\<close> that expires at 900 (address 1, id 7)
  and a cached message for the query \<open>ab.\<close> A IN that refers to it and
  expires at 500; \<open>w_msg_served\<close> is the message served for that query at
  time 500.
\<close>

definition w_a_rrset :: ub_packed_rrset_key where
  "w_a_rrset = \<lparr>key_id = 7,
     rk = \<lparr>dname = [2, 0x61, 0x62, 0], rk_flags = 0,
           rk_type = htons LDNS_RR_TYPE_A, rrset_class = htons 1\<rparr>,
     entry_data = \<lparr>ttl = 900, count = 1, rrsig_count = 0, trust = rrset_trust_ans_AA,
       rr_len = [6], rr_ttl = [900], rr_data = [[0, 4, 192, 0, 2, 1]]\<rparr>\<rparr>"

definition w_msg_entry :: msgreply_entry where
  "w_msg_entry =
     \<lparr>key = \<lparr>qname = [2, 0x61, 0x62, 0], qtype = 1, qclass = 1\<rparr>,
      data = \<lparr>rep_flags = BIT_QR, qdcount = 1, rep_ttl = 500, an_numrrsets = 1,
              ns_numrrsets = 0, ar_numrrsets = 0, rrset_count = 1,
              rrsets = [1], ref = [\<lparr>ref_key = 1, ref_id = 7\<rparr>]\<rparr>\<rparr>"

definition w_msg_env :: module_env where
  "w_msg_env = \<lparr>mem = (\<lambda>a. w_a_rrset), rrset_entries = [1], msg_cache = [w_msg_entry],
     next_id = 9\<rparr>"

definition w_msg_served :: dns_msg where
  "w_msg_served =
     \<lparr>qinfo = \<lparr>qname = [2, 0x61, 0x62, 0], qtype = 1, qclass = 1\<rparr>,
      rep = \<lparr>rep_flags = BIT_QR, qdcount = 1, rep_ttl = 500, an_numrrsets = 1,
             ns_numrrsets = 0, ar_numrrsets = 0, rrset_count = 1,
             rrsets =
               [\<lparr>key_id = 7,
                 rk = \<lparr>dname = [2, 0x61, 0x62, 0], rk_flags = 0,
                       rk_type = htons LDNS_RR_TYPE_A, rrset_class = htons 1\<rparr>,
                 entry_data = \<lparr>ttl = 400, count = 1, rrsig_count = 0,
                   trust = rrset_trust_ans_AA, rr_len = [6], rr_ttl = [400],
                   rr_data = [[0, 4, 192, 0, 2, 1]]\<rparr>\<rparr>],
             ref = []\<rparr>\<rparr>"

text \<open>
  A cache with the NS RRset of \<open>ab.\<close>, nameserver \<open>ns.ab.\<close> (address 1), and
  the A RRset of \<open>ns.ab.\<close> (address 2).
\<close>

definition w_ns :: ub_packed_rrset_key where
  "w_ns = \<lparr>key_id = 7,
     rk = \<lparr>dname = [2, 0x61, 0x62, 0], rk_flags = 0,
           rk_type = htons LDNS_RR_TYPE_NS, rrset_class = htons 1\<rparr>,
     entry_data = \<lparr>ttl = 900, count = 1, rrsig_count = 0, trust = rrset_trust_auth_AA,
       rr_len = [9], rr_ttl = [900],
       rr_data = [[0, 7, 2, 0x6E, 0x73, 2, 0x61, 0x62, 0]]\<rparr>\<rparr>"

definition w_ns_addr :: ub_packed_rrset_key where
  "w_ns_addr = \<lparr>key_id = 8,
     rk = \<lparr>dname = [2, 0x6E, 0x73, 2, 0x61, 0x62, 0], rk_flags = 0,
           rk_type = htons LDNS_RR_TYPE_A, rrset_class = htons 1\<rparr>,
     entry_data = \<lparr>ttl = 900, count = 1, rrsig_count = 0, trust = rrset_trust_glue,
       rr_len = [6], rr_ttl = [900], rr_data = [[0, 4, 192, 0, 2, 53]]\<rparr>\<rparr>"

definition w_ns_env :: module_env where
  "w_ns_env = \<lparr>mem = (\<lambda>a. if a = 1 then w_ns else w_ns_addr), rrset_entries = [1, 2],
     msg_cache = [], next_id = 9\<rparr>"





text \<open>
  The same cache reached through the interface. In an empty cache the reply
  to \<open>ab.\<close> A IN with TTL 400 and one A RRset (the key object at address 1)
  is stored at time 100; then the reply to \<open>ab.\<close> ANY IN, holding the same
  A record with TTL 800 (the key object at address 2), is stored at time
  100. The second store finds the RRset in the cache with equal data and
  extends its TTL to 900; the first message still expires at 500.
\<close>

definition w_a_fresh :: "uint32_t \<Rightarrow> ub_packed_rrset_key" where
  "w_a_fresh t = \<lparr>key_id = 0,
     rk = \<lparr>dname = [2, 0x61, 0x62, 0], rk_flags = 0,
           rk_type = htons LDNS_RR_TYPE_A, rrset_class = htons 1\<rparr>,
     entry_data = \<lparr>ttl = t, count = 1, rrsig_count = 0, trust = rrset_trust_ans_AA,
       rr_len = [6], rr_ttl = [t], rr_data = [[0, 4, 192, 0, 2, 1]]\<rparr>\<rparr>"

definition w_empty_env :: module_env where
  "w_empty_env = \<lparr>mem = (\<lambda>a. if a = 1 then w_a_fresh 400 else w_a_fresh 800),
     rrset_entries = [], msg_cache = [], next_id = 7\<rparr>"

definition w_reply :: "uint32_t \<Rightarrow> addr \<Rightarrow> addr reply_info" where
  "w_reply t a = \<lparr>rep_flags = BIT_QR, qdcount = 1, rep_ttl = t, an_numrrsets = 1,
     ns_numrrsets = 0, ar_numrrsets = 0, rrset_count = 1, rrsets = [a], ref = []\<rparr>"

definition w_two_stores :: module_env where
  "w_two_stores =
     fst (dns_cache_store_msg
            (fst (dns_cache_store_msg w_empty_env
                    \<lparr>qname = [2, 0x61, 0x62, 0], qtype = 1, qclass = 1\<rparr> (w_reply 400 1) 100 True))
            \<lparr>qname = [2, 0x61, 0x62, 0], qtype = 255, qclass = 1\<rparr> (w_reply 800 2) 100 True)"

text \<open>
  The cache \<open>w_msg_env\<close> with an older A RRset at \<open>ab.\<close>: the RRset
  (address 1, id 7) expired at 50, while the cached message for \<open>ab.\<close> A IN
  that refers to it expires at 500.
\<close>

definition w_old_rrset :: ub_packed_rrset_key where
  "w_old_rrset = \<lparr>key_id = 7,
     rk = \<lparr>dname = [2, 0x61, 0x62, 0], rk_flags = 0,
           rk_type = htons LDNS_RR_TYPE_A, rrset_class = htons 1\<rparr>,
     entry_data = \<lparr>ttl = 50, count = 1, rrsig_count = 0, trust = rrset_trust_ans_AA,
       rr_len = [6], rr_ttl = [50], rr_data = [[0, 4, 192, 0, 2, 1]]\<rparr>\<rparr>"

definition w_old_env :: module_env where
  "w_old_env = \<lparr>mem = (\<lambda>a. w_old_rrset), rrset_entries = [1], msg_cache = [w_msg_entry],
     next_id = 9\<rparr>"

section \<open>Regions and copies\<close>

lemma alloc_rest_drop: "alloc_rest r = drop 1 r"
  by (cases r) (simp_all add: alloc_rest_def)

lemma alloc_ok_succeed: "alloc_ok r = allocs_succeed 1 r"
  by (cases r) (simp_all add: alloc_ok_def allocs_succeed_def)

lemma allocs_succeed_add:
  "allocs_succeed (m + n) r = (allocs_succeed m r \<and> allocs_succeed n (drop m r))"
  by (simp add: allocs_succeed_def take_add)

lemma allocs_succeed_drop:
  "allocs_succeed n r \<Longrightarrow> k + m \<le> n \<Longrightarrow> allocs_succeed m (drop k r)"
proof -
  assume a: "allocs_succeed n r" and le: "k + m \<le> n"
  then obtain d where n: "n = (k + m) + d" using le_Suc_ex by blast
  from a show ?thesis unfolding n allocs_succeed_add by simp
qed

lemma allocs_succeed_Nil [simp]: "allocs_succeed n []"
  by (simp add: allocs_succeed_def)

lemma ttls_relative_take:
  "ttls_relative ts now n = map (\<lambda>t. t - now) (take n ts) @ drop n ts"
proof (induction n)
  case 0
  show ?case by (simp add: ttls_relative_def)
next
  case (Suc n)
  have "ttls_relative ts now (Suc n) =
        (ttls_relative ts now n)[n := ttls_relative ts now n ! n - now]"
    by (simp add: ttls_relative_def)
  also have "\<dots> = map (\<lambda>t. t - now) (take (Suc n) ts) @ drop (Suc n) ts"
  proof (cases "n < length ts")
    case True
    then show ?thesis
      by (simp add: Suc.IH take_Suc_conv_app_nth list_update_append nth_append
            Cons_nth_drop_Suc[symmetric] )
  next
    case False
    then show ?thesis by (simp add: Suc.IH list_update_beyond)
  qed
  finally show ?case .
qed

lemma ttls_relative_map:
  "length ts = n \<Longrightarrow> ttls_relative ts now n = map (\<lambda>t. t - now) ts"
  by (simp add: ttls_relative_take)

lemma copy_rrset_ok:
  "allocs_succeed 3 region \<Longrightarrow>
   copy_rrset k region now =
     (Some \<lparr>key_id = key_id k, rk = rk k,
            entry_data = (entry_data k)\<lparr>ttl := ttl (entry_data k) - now,
              rr_ttl := ttls_relative (rr_ttl (entry_data k)) now
                          (count (entry_data k) + rrsig_count (entry_data k))\<rparr>\<rparr>,
      drop 3 region)"
  using allocs_succeed_drop[of 3 region 0 1] allocs_succeed_drop[of 3 region 1 1]
    allocs_succeed_drop[of 3 region 2 1]
  by (simp add: copy_rrset_def Let_def alloc_ok_succeed alloc_rest_drop eval_nat_numeral)

lemma copy_rrset_SomeD:
  "copy_rrset k region now = (Some ck, r') \<Longrightarrow>
   ck = \<lparr>key_id = key_id k, rk = rk k,
            entry_data = (entry_data k)\<lparr>ttl := ttl (entry_data k) - now,
              rr_ttl := ttls_relative (rr_ttl (entry_data k)) now
                          (count (entry_data k) + rrsig_count (entry_data k))\<rparr>\<rparr> \<and>
   r' = drop 3 region"
  by (auto simp: copy_rrset_def Let_def alloc_rest_drop eval_nat_numeral split: if_splits)

lemma gen_dns_msg_ok:
  "allocs_succeed 4 region \<Longrightarrow>
   gen_dns_msg region q num =
     (Some \<lparr>qinfo = q,
            rep = \<lparr>rep_flags = 0, qdcount = 0, rep_ttl = 0, an_numrrsets = 0,
                   ns_numrrsets = 0, ar_numrrsets = 0, rrset_count = 0,
                   rrsets = [], ref = []\<rparr>\<rparr>, drop 4 region)"
  using allocs_succeed_drop[of 4 region 0 1] allocs_succeed_drop[of 4 region 1 1]
    allocs_succeed_drop[of 4 region 2 1] allocs_succeed_drop[of 4 region 3 1]
  by (simp add: gen_dns_msg_def Let_def alloc_ok_succeed alloc_rest_drop eval_nat_numeral)

lemma gen_dns_msg_SomeD:
  "gen_dns_msg region q num = (Some msg, r') \<Longrightarrow> qinfo msg = q \<and> r' = drop 4 region"
  by (auto simp: gen_dns_msg_def Let_def alloc_rest_drop eval_nat_numeral split: if_splits)

section \<open>The order of RRset keys\<close>

lemma query_dname_compare_zero:
  "query_dname_compare a b = 0 \<longleftrightarrow> map tolower a = map tolower b"
  by (induction a b rule: query_dname_compare.induct) auto

lemma query_dname_compare_neg:
  "query_dname_compare a b < 0 \<longleftrightarrow> map tolower a < map tolower b"
  by (induction a b rule: query_dname_compare.induct) auto

lemma query_dname_compare_sym: "query_dname_compare b a = - query_dname_compare a b"
  by (induction a b rule: query_dname_compare.induct) auto

lemma ub_rrset_compare_neg:
  "ub_rrset_compare k1 k2 < 0 \<longleftrightarrow> rrset_key_order k1 < rrset_key_order k2"
  unfolding ub_rrset_compare_def rrset_key_order_def Let_def
  using query_dname_compare_zero[of "dname (rk k1)" "dname (rk k2)"]
        query_dname_compare_neg[of "dname (rk k1)" "dname (rk k2)"]
  by (auto simp: less_prod_def)

lemma ub_rrset_compare_zero:
  "ub_rrset_compare k1 k2 = 0 \<longleftrightarrow> rrset_key_order k1 = rrset_key_order k2"
  unfolding ub_rrset_compare_def rrset_key_order_def Let_def
  using query_dname_compare_zero[of "dname (rk k1)" "dname (rk k2)"]
  by (auto dest: map_eq_imp_length_eq)

lemma ub_rrset_compare_sym: "ub_rrset_compare k2 k1 = - ub_rrset_compare k1 k2"
  unfolding ub_rrset_compare_def Let_def
  using query_dname_compare_sym[of "dname (rk k1)" "dname (rk k2)"]
  by auto

lemma ub_rrset_compare_le:
  "ub_rrset_compare k1 k2 \<le> 0 \<longleftrightarrow> rrset_key_order k1 \<le> rrset_key_order k2"
  using ub_rrset_compare_neg[of k1 k2] ub_rrset_compare_zero[of k1 k2]
  by (auto simp: order_le_less)

lemma ub_rrset_compare_same: "ub_rrset_compare k k = 0"
  by (simp add: ub_rrset_compare_zero)

lemma rrset_key_order_less:
  "rrset_key_order k1 < rrset_key_order k2 \<longleftrightarrow>
     rk_type (rk k1) < rk_type (rk k2) \<or>
     rk_type (rk k1) = rk_type (rk k2) \<and>
     (length (dname (rk k1)) < length (dname (rk k2)) \<or>
      length (dname (rk k1)) = length (dname (rk k2)) \<and>
      (map tolower (dname (rk k1)) < map tolower (dname (rk k2)) \<or>
       map tolower (dname (rk k1)) = map tolower (dname (rk k2)) \<and>
       (rrset_class (rk k1) < rrset_class (rk k2) \<or>
        rrset_class (rk k1) = rrset_class (rk k2) \<and> rk_flags (rk k1) < rk_flags (rk k2))))"
  by (auto simp: rrset_key_order_def less_prod_def)

text \<open>
  Claim C9. \<^verbatim>\<open>ub_rrset_compare\<close> is a total order on RRset keys: it
  returns 0 exactly when the two keys agree on type, name (compared
  case-insensitively), class and flags, which for the lowercased owner names
  of stored keys is equality of the four key fields; it is negative exactly
  when the
  first key is below the second in the lexicographic order by type, name
  length, lowercased name, class and flags (\<open>rrset_key_order\<close>, spelled out
  in \<open>rrset_key_order_less\<close>); swapping the arguments negates the result;
  and the relation ``the result is at most 0'' is antisymmetric (up to the
  equality above), transitive and total.
\<close>

theorem ub_rrset_compare_total_order:
  "(ub_rrset_compare k1 k2 = 0 \<longleftrightarrow>
      rk_type (rk k1) = rk_type (rk k2) \<and>
      map tolower (dname (rk k1)) = map tolower (dname (rk k2)) \<and>
      rrset_class (rk k1) = rrset_class (rk k2) \<and>
      rk_flags (rk k1) = rk_flags (rk k2)) \<and>
   (map tolower (dname (rk k1)) = dname (rk k1) \<and>
    map tolower (dname (rk k2)) = dname (rk k2) \<longrightarrow>
      (ub_rrset_compare k1 k2 = 0 \<longleftrightarrow> rk k1 = rk k2)) \<and>
   (ub_rrset_compare k1 k2 < 0 \<longleftrightarrow> rrset_key_order k1 < rrset_key_order k2) \<and>
   ub_rrset_compare k2 k1 = - ub_rrset_compare k1 k2 \<and>
   (ub_rrset_compare k1 k2 \<le> 0 \<and> ub_rrset_compare k2 k1 \<le> 0 \<longrightarrow> ub_rrset_compare k1 k2 = 0) \<and>
   (ub_rrset_compare k1 k2 \<le> 0 \<and> ub_rrset_compare k2 k3 \<le> 0 \<longrightarrow> ub_rrset_compare k1 k3 \<le> 0) \<and>
   (ub_rrset_compare k1 k2 \<le> 0 \<or> ub_rrset_compare k2 k1 \<le> 0)"
proof -
  have zero: "ub_rrset_compare k1 k2 = 0 \<longleftrightarrow>
      rk_type (rk k1) = rk_type (rk k2) \<and>
      map tolower (dname (rk k1)) = map tolower (dname (rk k2)) \<and>
      rrset_class (rk k1) = rrset_class (rk k2) \<and>
      rk_flags (rk k1) = rk_flags (rk k2)"
    by (auto simp: ub_rrset_compare_zero rrset_key_order_def dest: map_eq_imp_length_eq)
  have fields: "rk k1 = rk k2 \<longleftrightarrow>
      rk_type (rk k1) = rk_type (rk k2) \<and> dname (rk k1) = dname (rk k2) \<and>
      rrset_class (rk k1) = rrset_class (rk k2) \<and> rk_flags (rk k1) = rk_flags (rk k2)"
    by (auto intro: packed_rrset_key.equality)
  have lower: "map tolower (dname (rk k1)) = dname (rk k1) \<and>
      map tolower (dname (rk k2)) = dname (rk k2) \<longrightarrow>
      (ub_rrset_compare k1 k2 = 0 \<longleftrightarrow> rk k1 = rk k2)"
    unfolding zero fields by auto
  have anti: "ub_rrset_compare k1 k2 \<le> 0 \<and> ub_rrset_compare k2 k1 \<le> 0 \<longrightarrow> ub_rrset_compare k1 k2 = 0"
    using ub_rrset_compare_sym[where ?k1.0 = k1 and ?k2.0 = k2] by linarith
  have trans: "ub_rrset_compare k1 k2 \<le> 0 \<and> ub_rrset_compare k2 k3 \<le> 0 \<longrightarrow> ub_rrset_compare k1 k3 \<le> 0"
    unfolding ub_rrset_compare_le by (blast intro: order_trans)
  have total: "ub_rrset_compare k1 k2 \<le> 0 \<or> ub_rrset_compare k2 k1 \<le> 0"
    unfolding ub_rrset_compare_le by (rule linear)
  show ?thesis
    using zero lower anti trans total ub_rrset_compare_neg[of k1 k2]
      ub_rrset_compare_sym[where ?k1.0 = k1 and ?k2.0 = k2]
    by blast
qed

theorem ub_rrset_compare_total_order_witness:
  "ub_rrset_compare w9_a w9_b \<le> 0 \<and> ub_rrset_compare w9_b w9_a \<le> 0 \<and>
   ub_rrset_compare w9_a w9_b = 0 \<and>
   ub_rrset_compare w9_b w9_c \<le> 0 \<and> ub_rrset_compare w9_a w9_c \<le> 0 \<and>
   ub_rrset_compare w9_c w9_a = 1 \<and> dname (rk w9_a) \<noteq> dname (rk w9_b) \<and>
   map tolower (dname (rk w9_b)) = dname (rk w9_b) \<and>
   map tolower (dname (rk w9_c)) = dname (rk w9_c) \<and>
   rk w9_b \<noteq> rk w9_c \<and> ub_rrset_compare w9_b w9_c \<noteq> 0"
proof -
  have ab: "ub_rrset_compare w9_a w9_b \<le> 0"
    by (simp add: ub_rrset_compare_def w9_a_def w9_b_def tolower_def)
  have ba: "ub_rrset_compare w9_b w9_a \<le> 0"
    by (simp add: ub_rrset_compare_def w9_a_def w9_b_def tolower_def)
  have bc: "ub_rrset_compare w9_b w9_c \<le> 0"
    by (simp add: ub_rrset_compare_def w9_b_def w9_c_def tolower_def)
  have ca: "ub_rrset_compare w9_c w9_a = 1"
    by (simp add: ub_rrset_compare_def w9_a_def w9_c_def tolower_def)
  have ne: "dname (rk w9_a) \<noteq> dname (rk w9_b)"
    by (simp add: w9_a_def w9_b_def)
  have lb: "map tolower (dname (rk w9_b)) = dname (rk w9_b)"
    by code_simp
  have lc: "map tolower (dname (rk w9_c)) = dname (rk w9_c)"
    by code_simp
  have nk: "rk w9_b \<noteq> rk w9_c"
    by (simp add: w9_b_def w9_c_def)
  have nz: "ub_rrset_compare w9_b w9_c \<noteq> 0"
    using ub_rrset_compare_total_order[of w9_b w9_c w9_c] lb lc nk by blast
  show ?thesis
    using ub_rrset_compare_total_order[of w9_a w9_b w9_c] ab ba bc ca ne lb lc nk nz by blast
qed

section \<open>Storing a reply\<close>

lemma ub_rrset_compare_rk:
  "rk a = rk a' \<Longrightarrow> rk b = rk b' \<Longrightarrow> ub_rrset_compare a b = ub_rrset_compare a' b'"
  by (simp add: ub_rrset_compare_def)

lemma rrset_cache_update_effect:
  assumes "rrset_cache_update env rf now = (b, rf', env')"
  shows "msg_cache env' = msg_cache env \<and>
         (\<forall>x. rk (mem env' x) = rk (mem env x)) \<and>
         set (rrset_entries env) \<subseteq> set (rrset_entries env') \<and>
         (\<exists>a\<in>set (rrset_entries env').
            ub_rrset_compare (mem env' a) (mem env (ref_key rf)) = 0)"
proof (cases "find (\<lambda>a. ub_rrset_compare (mem env a) (mem env (ref_key rf)) = 0)
                (rrset_entries env)")
  case None
  with assms have env': "env' = env\<lparr>mem := (mem env)(ref_key rf :=
        (mem env (ref_key rf))\<lparr>key_id := next_id env\<rparr>),
      rrset_entries := ref_key rf # rrset_entries env, next_id := next_id env + 1\<rparr>"
    by (simp add: rrset_cache_update_def Let_def)
  have "ub_rrset_compare (mem env' (ref_key rf)) (mem env (ref_key rf)) = 0"
    by (simp add: env' ub_rrset_compare_zero rrset_key_order_def)
  then show ?thesis by (auto simp: env')
next
  case (Some a)
  then have a: "a \<in> set (rrset_entries env)"
    "ub_rrset_compare (mem env a) (mem env (ref_key rf)) = 0"
    by (auto simp: find_Some_iff)
  from assms Some have
    "msg_cache env' = msg_cache env \<and> rrset_entries env' = rrset_entries env \<and>
     (\<forall>x. rk (mem env' x) = rk (mem env x))"
    by (auto simp: rrset_cache_update_def Let_def split: if_splits)
  then show ?thesis
    using a ub_rrset_compare_rk[of "mem env' a" "mem env a"
              "mem env (ref_key rf)" "mem env (ref_key rf)"]
    by auto
qed

lemma store_rrset_step_effect:
  assumes "store_rrset_step now i (env, r) = (env', r')"
  shows "msg_cache env' = msg_cache env \<and>
         (\<forall>x. rk (mem env' x) = rk (mem env x)) \<and>
         set (rrset_entries env) \<subseteq> set (rrset_entries env') \<and>
         (\<exists>a\<in>set (rrset_entries env').
            ub_rrset_compare (mem env' a) (mem env (rrsets r ! i)) = 0) \<and>
         (\<forall>j. j \<noteq> i \<longrightarrow> rrsets r' ! j = rrsets r ! j)"
proof -
  let ?rf = "\<lparr>ref_key = rrsets r ! i, ref_id = key_id (mem env (rrsets r ! i))\<rparr>"
  obtain b rf' env1 where u: "rrset_cache_update env ?rf now = (b, rf', env1)"
    by (metis prod_cases3)
  from assms u have "env' = env1 \<and>
      r' = r\<lparr>ref := (ref r)[i := rf'],
             rrsets := (if b then (rrsets r)[i := ref_key rf'] else rrsets r)\<rparr>"
    by (auto simp: store_rrset_step_def Let_def)
  then have e: "env' = env1"
    and r': "rrsets r' = (if b then (rrsets r)[i := ref_key rf'] else rrsets r)"
    by simp_all
  from rrset_cache_update_effect[OF u] r' show ?thesis
    unfolding e by auto
qed

lemma store_rrsets_fold_effect:
  assumes "fold (store_rrset_step now) is (env, r) = (env', r')" and "distinct is"
  shows "msg_cache env' = msg_cache env \<and>
         (\<forall>x. rk (mem env' x) = rk (mem env x)) \<and>
         set (rrset_entries env) \<subseteq> set (rrset_entries env') \<and>
         (\<forall>i\<in>set is. \<exists>a\<in>set (rrset_entries env').
            ub_rrset_compare (mem env' a) (mem env (rrsets r ! i)) = 0) \<and>
         (\<forall>j. j \<notin> set is \<longrightarrow> rrsets r' ! j = rrsets r ! j)"
  using assms
proof (induction "is" arbitrary: env r)
  case Nil
  then show ?case by simp
next
  case (Cons i "is")
  obtain env1 r1 where s: "store_rrset_step now i (env, r) = (env1, r1)"
    by (metis surj_pair)
  note e1 = store_rrset_step_effect[OF s]
  from Cons.prems s have f: "fold (store_rrset_step now) is (env1, r1) = (env', r')"
    and d: "distinct is" and ni: "i \<notin> set is"
    by simp_all
  note e2 = Cons.IH[OF f d]
  have cache: "msg_cache env' = msg_cache env" using e1 e2 by simp
  have rks: "\<forall>x. rk (mem env' x) = rk (mem env x)" using e1 e2 by simp
  have grow: "set (rrset_entries env) \<subseteq> set (rrset_entries env')" using e1 e2 by blast
  have frame: "\<forall>j. j \<notin> set (i # is) \<longrightarrow> rrsets r' ! j = rrsets r ! j"
    using e1 e2 by simp
  have here: "\<exists>a\<in>set (rrset_entries env').
      ub_rrset_compare (mem env' a) (mem env (rrsets r ! i)) = 0"
  proof -
    from e1 obtain a where a: "a \<in> set (rrset_entries env1)"
      "ub_rrset_compare (mem env1 a) (mem env (rrsets r ! i)) = 0" by blast
    have "a \<in> set (rrset_entries env')" using a(1) e2 by blast
    moreover have "ub_rrset_compare (mem env' a) (mem env (rrsets r ! i)) = 0"
      using a(2) e2 ub_rrset_compare_rk[of "mem env' a" "mem env1 a"
              "mem env (rrsets r ! i)" "mem env (rrsets r ! i)"] by simp
    ultimately show ?thesis by blast
  qed
  have rest: "\<forall>j\<in>set is. \<exists>a\<in>set (rrset_entries env').
      ub_rrset_compare (mem env' a) (mem env (rrsets r ! j)) = 0"
  proof
    fix j assume j: "j \<in> set is"
    with e2 obtain a where a: "a \<in> set (rrset_entries env')"
      "ub_rrset_compare (mem env' a) (mem env1 (rrsets r1 ! j)) = 0" by blast
    have "j \<noteq> i" using j ni by blast
    then have "rrsets r1 ! j = rrsets r ! j" using e1 by simp
    then have "ub_rrset_compare (mem env' a) (mem env (rrsets r ! j)) = 0"
      using a(2) e1 ub_rrset_compare_rk[of "mem env' a" "mem env' a"
              "mem env1 (rrsets r ! j)" "mem env (rrsets r ! j)"] by simp
    then show "\<exists>a\<in>set (rrset_entries env').
      ub_rrset_compare (mem env' a) (mem env (rrsets r ! j)) = 0" using a(1) by blast
  qed
  show ?case using cache rks grow here rest frame by simp
qed

lemma ttl_fold_rk:
  "rk (fold (\<lambda>a m. m(a := (m a)\<lparr>entry_data := packed_rrset_ttl_add (entry_data (m a)) now\<rparr>))
         as m x) = rk (m x)"
  by (induction as arbitrary: m) simp_all

lemma reply_info_set_ttls_effect:
  assumes "reply_info_set_ttls env r now = (env', r')"
  shows "msg_cache env' = msg_cache env \<and> rrset_entries env' = rrset_entries env \<and>
         (\<forall>x. rk (mem env' x) = rk (mem env x)) \<and>
         rrsets r' = rrsets r \<and> rrset_count r' = rrset_count r"
  using assms by (auto simp: reply_info_set_ttls_def ttl_fold_rk)




lemma insort_ref_set: "set (insort_ref m x ys) = insert x (set ys)"
  by (induction ys) auto

lemma insort_ref_length: "length (insort_ref m x ys) = Suc (length ys)"
  by (induction ys) auto

lemma reply_info_sortref_effect:
  "set (ref (reply_info_sortref m r)) = set (ref r) \<and>
   length (ref (reply_info_sortref m r)) = length (ref r) \<and>
   rrsets (reply_info_sortref m r) = rrsets r \<and>
   rrset_count (reply_info_sortref m r) = rrset_count r"
proof -
  have "set (foldr (insort_ref m) xs []) = set xs \<and>
        length (foldr (insort_ref m) xs []) = length xs" for xs
    by (induction xs) (simp_all add: insort_ref_set insort_ref_length)
  then show ?thesis by (simp add: reply_info_sortref_def)
qed

lemma rrset_cache_update_new_key:
  "rrset_cache_update env rf now = (False, rf', env') \<Longrightarrow> ref_key rf' = ref_key rf"
  by (auto simp: rrset_cache_update_def Let_def split: option.splits if_splits)

lemma store_rrset_step_refs:
  assumes "refs_match k n l r" and "k < n" and "n \<le> l"
  shows "refs_match (Suc k) n l (snd (store_rrset_step now k (env, r)))"
proof -
  let ?rf = "\<lparr>ref_key = rrsets r ! k, ref_id = key_id (mem env (rrsets r ! k))\<rparr>"
  obtain b rf' env1 where u: "rrset_cache_update env ?rf now = (b, rf', env1)"
    by (metis prod_cases3)
  have r': "snd (store_rrset_step now k (env, r)) =
      r\<lparr>ref := (ref r)[k := rf'],
        rrsets := (if b then (rrsets r)[k := ref_key rf'] else rrsets r)\<rparr>"
    using u by (simp add: store_rrset_step_def Let_def)
  have new: "\<not> b \<Longrightarrow> ref_key rf' = rrsets r ! k"
    using u rrset_cache_update_new_key[of env ?rf now rf' env1] by simp
  show ?thesis
    unfolding r' using assms new
    by (auto simp: refs_match_def nth_list_update less_Suc_eq)
qed

lemma store_rrsets_fold_refs:
  assumes "refs_match 0 n l r" and "k \<le> n" and "n \<le> l"
  shows "refs_match k n l (snd (fold (store_rrset_step now) [0..<k] (env, r)))"
  using assms(2)
proof (induction k)
  case 0
  then show ?case using assms(1) by simp
next
  case (Suc k)
  then have IH: "refs_match k n l (snd (fold (store_rrset_step now) [0..<k] (env, r)))"
    by simp
  obtain env1 r1 where f: "fold (store_rrset_step now) [0..<k] (env, r) = (env1, r1)"
    by (metis surj_pair)
  have "refs_match (Suc k) n l (snd (store_rrset_step now k (env1, r1)))"
    using store_rrset_step_refs[of k n l r1 now env1] IH f Suc.prems assms(3) by simp
  then show ?case by (simp add: f)
qed

lemma refs_match_cover:
  assumes "refs_match n n l r" and "n \<le> l"
  shows "reply_refs_cover r"
proof -
  have "x \<in> ref_key ` set (take (rrset_count r) (ref r))"
    if "x \<in> set (take (rrset_count r) (rrsets r))" for x
  proof -
    from that obtain j where j: "j < n" "x = rrsets r ! j"
      using assms by (auto simp: in_set_conv_nth refs_match_def)
    then have "x = ref_key (ref r ! j)" using assms by (simp add: refs_match_def)
    moreover have "ref r ! j \<in> set (take (rrset_count r) (ref r))"
      using j assms by (simp add: refs_match_def)
    ultimately show ?thesis by blast
  qed
  then show ?thesis by (auto simp: reply_refs_cover_def)
qed

lemma reply_refs_cover_sortref:
  assumes "reply_refs_cover r" and "length (ref r) = rrset_count r"
  shows "reply_refs_cover (reply_info_sortref m r)"
  using assms reply_info_sortref_effect[of m r]
  by (simp add: reply_refs_cover_def)

text \<open>
  \<^verbatim>\<open>dns_cache_store_msg\<close> keeps the invariant \<open>reply_refs_cover\<close> of the
  message cache: the references of the reply it inserts point to the keys of
  its array of RRsets.
\<close>

lemma dns_cache_store_msg_refs_cover:
  assumes wf: "rrset_count r \<le> length (rrsets r)"
      and old: "\<forall>e\<in>set (msg_cache env). reply_refs_cover (data e)"
  shows "\<forall>e\<in>set (msg_cache (fst (dns_cache_store_msg env q r now malloc_ok))).
           reply_refs_cover (data e)"
proof -
  let ?n = "rrset_count r" and ?l = "length (rrsets r)"
  let ?r1 = "r\<lparr>ref := map (\<lambda>a. \<lparr>ref_key = a, ref_id = key_id (mem env a)\<rparr>)
                          (take (rrset_count r) (rrsets r))\<rparr>"
  let ?r2 = "reply_info_sortref (mem env) ?r1"
  obtain env3 r3 where t: "reply_info_set_ttls env ?r2 now = (env3, r3)"
    by (metis surj_pair)
  obtain env4 r4 where s: "store_rrsets env3 r3 now = (env4, r4)"
    by (metis surj_pair)
  have r3: "r3 = ?r2\<lparr>rep_ttl := rep_ttl ?r2 + now\<rparr>"
    using t by (auto simp: reply_info_set_ttls_def)
  have m0: "refs_match 0 ?n ?l r3"
    using wf reply_info_sortref_effect[of "mem env" ?r1]
    by (simp add: refs_match_def r3)
  have n3: "rrset_count r3 = ?n"
    using reply_info_sortref_effect[of "mem env" ?r1] by (simp add: r3)
  have r4: "r4 = snd (fold (store_rrset_step now) [0..<?n] (env3, r3))"
    using s n3 by (simp add: store_rrsets_def)
  have m4: "refs_match ?n ?n ?l r4"
    unfolding r4 using store_rrsets_fold_refs[OF m0 _ wf, of ?n now env3] by simp
  have c4: "reply_refs_cover r4" using refs_match_cover[OF m4 wf] .
  have c5: "reply_refs_cover (reply_info_sortref (mem env4) r4)"
    using reply_refs_cover_sortref[OF c4] m4 by (simp add: refs_match_def)
  note e3 = reply_info_set_ttls_effect[OF t]
  have f: "fold (store_rrset_step now) [0..<rrset_count r3] (env3, r3) = (env4, r4)"
    using s by (simp add: store_rrsets_def)
  note e4 = store_rrsets_fold_effect[OF f distinct_upt]
  have c: "msg_cache env4 = msg_cache env" using e3 e4 by simp
  have env': "fst (dns_cache_store_msg env q r now malloc_ok) =
      (if rep_ttl r = 0 \<or> \<not> malloc_ok then env4
       else env4\<lparr>msg_cache := slabhash_insert (msg_cache env4)
              \<lparr>key = q, data = reply_info_sortref (mem env4) r4\<rparr>\<rparr>)"
    using t s by (simp add: dns_cache_store_msg_def Let_def)
  show ?thesis
    unfolding env' using old c c5 by (auto simp: slabhash_insert_def)
qed

section \<open>DNAME synthesis\<close>

lemma rrset_cache_lookup_SomeD:
  "rrset_cache_lookup env qn qt qc fl now = Some a \<Longrightarrow>
   a \<in> set (rrset_entries env) \<and> rrset_key_match (rk (mem env a)) qn qt qc fl \<and>
   now < ttl (entry_data (mem env a))"
  by (auto simp: rrset_cache_lookup_def find_Some_iff split: option.splits if_splits)

lemma find_closest_of_type_SomeD:
  "find_closest_of_type env qn qc now st = Some a \<Longrightarrow>
   \<exists>n<length qn. rrset_cache_lookup env (drop n qn) st qc 0 now = Some a"
proof (induction env qn qc now st rule: find_closest_of_type.induct)
  case (1 env qc now searchtype)
  then show ?case by simp
next
  case (2 env lablen rest qc now searchtype)
  show ?case
  proof (cases "rrset_cache_lookup env (lablen # rest) searchtype qc 0 now")
    case None
    with 2 obtain n where n: "n < length (drop (unat lablen) rest)"
      "rrset_cache_lookup env (drop n (drop (unat lablen) rest)) searchtype qc 0 now = Some a"
      by auto
    have "drop (Suc (n + unat lablen)) (lablen # rest) = drop n (drop (unat lablen) rest)"
      by simp
    moreover have "Suc (n + unat lablen) < length (lablen # rest)"
      using n(1) by simp
    ultimately show ?thesis using n(2) by metis
  next
    case (Some b)
    with 2 have "rrset_cache_lookup env (drop 0 (lablen # rest)) searchtype qc 0 now = Some a"
      by simp
    then show ?thesis by (intro exI[of _ 0]) simp
  qed
qed

lemma find_closest_of_type_owner:
  assumes "find_closest_of_type env qn qc now st = Some a"
  shows "\<exists>pre suf. qn = pre @ suf \<and> suf \<noteq> [] \<and>
           rrset_key_match (rk (mem env a)) suf st qc 0 \<and>
           a \<in> set (rrset_entries env) \<and> now < ttl (entry_data (mem env a))"
proof -
  from find_closest_of_type_SomeD[OF assms] obtain n where
    n: "n < length qn" "rrset_cache_lookup env (drop n qn) st qc 0 now = Some a" by blast
  have "qn = take n qn @ drop n qn" by simp
  moreover have "drop n qn \<noteq> []" using n(1) by simp
  ultimately show ?thesis using rrset_cache_lookup_SomeD[OF n(2)] by blast
qed

lemma synth_dname_msg_cname:
  assumes live: "\<not> ttl (entry_data rrset) < now"
      and mem: "allocs_succeed 11 region"
      and targ: "get_cname_target rrset = Some dtarg"
      and suffix: "length (dname (rk rrset)) \<le> length (qname q)"
      and fits: "length (qname q) + length dtarg - length (dname (rk rrset)) \<le> LDNS_MAX_DOMAINLEN"
  shows "synth_dname_msg rrset region now q =
     (Some \<lparr>qinfo = q,
        rep = \<lparr>rep_flags = BIT_QR, qdcount = 1, rep_ttl = 0, an_numrrsets = 2,
               ns_numrrsets = 0, ar_numrrsets = 0, rrset_count = 2,
               rrsets =
                 [\<lparr>key_id = key_id rrset, rk = rk rrset,
                   entry_data = (entry_data rrset)\<lparr>ttl := ttl (entry_data rrset) - now,
                     rr_ttl := ttls_relative (rr_ttl (entry_data rrset)) now
                       (count (entry_data rrset) + rrsig_count (entry_data rrset))\<rparr>\<rparr>,
                  \<lparr>key_id = 0,
                   rk = \<lparr>dname = qname q, rk_flags = 0, rk_type = htons LDNS_RR_TYPE_CNAME,
                         rrset_class = rrset_class (rk rrset)\<rparr>,
                   entry_data = \<lparr>ttl = 0, count = 1, rrsig_count = 0,
                     trust = rrset_trust_ans_noAA,
                     rr_len = [length (qname q) + length dtarg - length (dname (rk rrset)) + 2],
                     rr_ttl = [0],
                     rr_data = [ldns_write_uint16
                         (length (qname q) + length dtarg - length (dname (rk rrset))) @
                       take (length (qname q) - length (dname (rk rrset))) (qname q) @ dtarg]\<rparr>\<rparr>],
               ref = []\<rparr>\<rparr>,
      drop 11 region)"
proof -
  have a4: "allocs_succeed 4 region" using allocs_succeed_drop[OF mem, of 0 4] by simp
  have a3: "allocs_succeed 3 (drop 4 region)" using allocs_succeed_drop[OF mem, of 4 3] by simp
  have a1: "allocs_succeed 1 (drop 7 region)" "allocs_succeed 1 (drop 8 region)"
    "allocs_succeed 1 (drop 9 region)" "allocs_succeed 1 (drop 10 region)"
    using allocs_succeed_drop[OF mem, of 7 1] allocs_succeed_drop[OF mem, of 8 1]
      allocs_succeed_drop[OF mem, of 9 1] allocs_succeed_drop[OF mem, of 10 1] by simp_all
  have sub1: "size_t_sub (length (qname q) + length dtarg) (length (dname (rk rrset))) =
      length (qname q) + length dtarg - length (dname (rk rrset))"
    using suffix by (simp add: size_t_sub_def)
  have sub2: "size_t_sub (length (qname q)) (length (dname (rk rrset))) =
      length (qname q) - length (dname (rk rrset))"
    using suffix by (simp add: size_t_sub_def)
  show ?thesis
    using live fits a1
    by (simp add: synth_dname_msg_def Let_def gen_dns_msg_ok[OF a4] copy_rrset_ok[OF a3] targ
          sub1 sub2 alloc_ok_succeed alloc_rest_drop)
qed

lemma synth_dname_msg_yxdomain:
  assumes live: "\<not> ttl (entry_data rrset) < now"
      and mem: "allocs_succeed 7 region"
      and targ: "get_cname_target rrset = Some dtarg"
      and suffix: "length (dname (rk rrset)) \<le> length (qname q)"
      and toolong: "LDNS_MAX_DOMAINLEN < length (qname q) + length dtarg - length (dname (rk rrset))"
  shows "synth_dname_msg rrset region now q =
     (Some \<lparr>qinfo = q,
        rep = \<lparr>rep_flags = BIT_QR OR LDNS_RCODE_YXDOMAIN, qdcount = 1,
               rep_ttl = ttl (entry_data rrset) - now, an_numrrsets = 1,
               ns_numrrsets = 0, ar_numrrsets = 0, rrset_count = 1,
               rrsets =
                 [\<lparr>key_id = key_id rrset, rk = rk rrset,
                   entry_data = (entry_data rrset)\<lparr>ttl := ttl (entry_data rrset) - now,
                     rr_ttl := ttls_relative (rr_ttl (entry_data rrset)) now
                       (count (entry_data rrset) + rrsig_count (entry_data rrset))\<rparr>\<rparr>],
               ref = []\<rparr>\<rparr>,
      drop 7 region)"
proof -
  have a4: "allocs_succeed 4 region" using allocs_succeed_drop[OF mem, of 0 4] by simp
  have a3: "allocs_succeed 3 (drop 4 region)" using allocs_succeed_drop[OF mem, of 4 3] by simp
  have sub1: "size_t_sub (length (qname q) + length dtarg) (length (dname (rk rrset))) =
      length (qname q) + length dtarg - length (dname (rk rrset))"
    using suffix by (simp add: size_t_sub_def)
  show ?thesis
    using live toolong
    by (simp add: synth_dname_msg_def Let_def gen_dns_msg_ok[OF a4] copy_rrset_ok[OF a3] targ sub1)
qed

lemma dname_valid_from_le:
  "len < 255 \<Longrightarrow> dname_valid_from bs maxlen len \<le> 255"
  by (induction bs maxlen len rule: dname_valid_from.induct)
     (auto simp: LDNS_MAX_DOMAINLEN_def)

lemma get_cname_target_length:
  "get_cname_target rrset = Some dtarg \<Longrightarrow> length dtarg \<le> 255"
  using dname_valid_from_le[of 0 "drop 2 (rr_data (entry_data rrset) ! 0)"
          "ldns_read_uint16 (rr_data (entry_data rrset) ! 0)"]
  by (auto simp: get_cname_target_def Let_def dname_valid_def split: if_splits)

lemma synth_dname_msg_shape:
  assumes "synth_dname_msg rrset region now q = (Some msg, r')"
  shows "(rrset_count (rep msg) = 1 \<and> length (rrsets (rep msg)) = 1 \<and>
          rep_ttl (rep msg) = ttl (entry_data rrset) - now) \<or>
         (rrset_count (rep msg) = 2 \<and> length (rrsets (rep msg)) = 2 \<and>
          rk_type (rk (rrsets (rep msg) ! 1)) = htons LDNS_RR_TYPE_CNAME \<and>
          rr_ttl (entry_data (rrsets (rep msg) ! 1)) = [0] \<and>
          rep_ttl (rep msg) = 0)"
  using assms
  by (auto simp: synth_dname_msg_def Let_def split: if_splits prod.splits option.splits)

text \<open>
  Claim C10. Whenever \<^verbatim>\<open>synth_dname_msg\<close> returns a message to which it
  appended the synthesized CNAME (the message then has two RRsets, the second
  of type CNAME with TTL 0), the TTL of the message itself is 0; the only
  other message it returns holds the DNAME alone and keeps the remaining TTL
  of the DNAME.
\<close>

theorem synth_dname_msg_ttl:
  assumes "synth_dname_msg rrset region now q = (Some msg, r')"
  shows "(rrset_count (rep msg) = 1 \<and> length (rrsets (rep msg)) = 1 \<and>
          rep_ttl (rep msg) = ttl (entry_data rrset) - now) \<or>
         (rrset_count (rep msg) = 2 \<and> length (rrsets (rep msg)) = 2 \<and>
          rk_type (rk (rrsets (rep msg) ! 1)) = htons LDNS_RR_TYPE_CNAME \<and>
          rr_ttl (entry_data (rrsets (rep msg) ! 1)) = [0] \<and>
          rep_ttl (rep msg) = 0)"
  using assms by (rule synth_dname_msg_shape)

theorem synth_dname_msg_ttl_witness:
  "\<exists>msg r'. synth_dname_msg w_dname [] 100 \<lparr>qname = w_qname, qtype = 1, qclass = 1\<rparr> = (Some msg, r') \<and>
     ttl (entry_data w_dname) - 100 = 3600 \<and>
     rrset_count (rep msg) = 2 \<and> rep_ttl (rep msg) = 0"
proof -
  obtain msg r' where
    m: "synth_dname_msg w_dname [] 100 \<lparr>qname = w_qname, qtype = 1, qclass = 1\<rparr> = (Some msg, r')"
    and c: "rrset_count (rep msg) = 2"
    using synth_dname_msg_cname[of w_dname 100 "[]" "[2, 0x63, 0x64, 0]"
        "\<lparr>qname = w_qname, qtype = 1, qclass = 1\<rparr>"]
    by (simp add: w_dname_def w_qname_def LDNS_MAX_DOMAINLEN_def get_cname_target_def
          htons_def ntohs_def LDNS_RR_TYPE_DNAME_def LDNS_RR_TYPE_CNAME_def ldns_read_uint16_def
          dname_valid_def)
  have t: "ttl (entry_data w_dname) - 100 = 3600" by (simp add: w_dname_def)
  from synth_dname_msg_ttl[OF m] c t have "rep_ttl (rep msg) = 0" by simp
  with m c t show ?thesis by blast
qed

lemma rrset_key_match_owner:
  "rrset_key_match k suf t qc fl \<Longrightarrow>
   length (dname k) = length suf \<and> map tolower (dname k) = map tolower suf \<and>
   rk_type k = htons t \<and> rrset_class k = htons qc \<and> rk_flags k = fl"
  by (simp add: rrset_key_match_def query_dname_compare_zero)

lemma dns_cache_lookup_dname:
  assumes miss: "(case slabhash_lookup (msg_cache env) \<lparr>qname = qn, qtype = qt, qclass = qc\<rparr> of
                    None \<Rightarrow> (None, region)
                  | Some e \<Rightarrow> tomsg env e (data e) region now) = (None, r1)"
      and hit: "find_closest_of_type env qn qc now LDNS_RR_TYPE_DNAME = Some a"
      and synth: "synth_dname_msg (mem env a) r1 now \<lparr>qname = qn, qtype = qt, qclass = qc\<rparr>
                    = (Some msg, r')"
  shows "dns_cache_lookup env qn qt qc region now = (Some msg, r')"
  by (simp add: dns_cache_lookup_def Let_def miss hit synth)

lemma rewritten_name_length:
  "length owner \<le> length qn \<Longrightarrow>
   length (take (length qn - length owner) qn @ dtarg) = length qn + length dtarg - length owner"
  by simp

text \<open>
  Claim C2. On a miss in the message cache (no entry for the query, or an
  entry from which \<^verbatim>\<open>tomsg\<close> makes no message; the region is then \<open>r1\<close>),
  when \<^verbatim>\<open>find_closest_of_type\<close> finds a DNAME at the query name or above
  it, the allocations succeed, the DNAME target is well formed and the
  rewritten name fits in 255 bytes,
  \<^verbatim>\<open>dns_cache_lookup\<close> returns the DNAME answer whatever CNAME is cached at
  the query name: the answer section is the copy of the DNAME RRset followed
  by a synthesized CNAME whose owner is the query name, whose target is the
  front of the query name (the query name without the DNAME owner, which is
  its suffix up to letter case) followed by the DNAME target, whose TTL is 0
  and whose trust is \<open>rrset_trust_ans_noAA\<close>.
\<close>

theorem dns_cache_lookup_dname_before_cname:
  assumes miss: "(case slabhash_lookup (msg_cache env) \<lparr>qname = qn, qtype = qt, qclass = qc\<rparr> of
                    None \<Rightarrow> (None, region)
                  | Some e \<Rightarrow> tomsg env e (data e) region now) = (None, r1)"
      and hit: "find_closest_of_type env qn qc now LDNS_RR_TYPE_DNAME = Some a"
      and mem: "allocs_succeed 11 r1"
      and targ: "get_cname_target (mem env a) = Some dtarg"
      and fits: "length (take (length qn - length (dname (rk (mem env a)))) qn @ dtarg)
                   \<le> LDNS_MAX_DOMAINLEN"
  shows "\<exists>msg dck ck.
           fst (dns_cache_lookup env qn qt qc region now) = Some msg \<and>
           rrsets (rep msg) = [dck, ck] \<and>
           an_numrrsets (rep msg) = 2 \<and> ns_numrrsets (rep msg) = 0 \<and>
           ar_numrrsets (rep msg) = 0 \<and> rrset_count (rep msg) = 2 \<and>
           copy_rrset (mem env a) (drop 4 r1) now = (Some dck, drop 7 r1) \<and>
           rk dck = rk (mem env a) \<and> rk_type (rk dck) = htons LDNS_RR_TYPE_DNAME \<and>
           rr_data (entry_data dck) = rr_data (entry_data (mem env a)) \<and>
           dname (rk ck) = qn \<and> rk_type (rk ck) = htons LDNS_RR_TYPE_CNAME \<and>
           rrset_class (rk ck) = rrset_class (rk (mem env a)) \<and>
           length (dname (rk (mem env a))) \<le> length qn \<and>
           map tolower (drop (length qn - length (dname (rk (mem env a)))) qn) =
             map tolower (dname (rk (mem env a))) \<and>
           rr_data (entry_data ck) =
             [ldns_write_uint16 (length qn - length (dname (rk (mem env a))) + length dtarg) @
              take (length qn - length (dname (rk (mem env a)))) qn @ dtarg] \<and>
           count (entry_data ck) = 1 \<and> rrsig_count (entry_data ck) = 0 \<and>
           rr_ttl (entry_data ck) = [0] \<and> ttl (entry_data ck) = 0 \<and>
           trust (entry_data ck) = rrset_trust_ans_noAA"
proof -
  from find_closest_of_type_owner[OF hit] obtain pre suf where
    qn: "qn = pre @ suf" and
    m: "rrset_key_match (rk (mem env a)) suf LDNS_RR_TYPE_DNAME qc 0" and
    live: "now < ttl (entry_data (mem env a))"
    by blast
  note o = rrset_key_match_owner[OF m]
  have len: "length (dname (rk (mem env a))) \<le> length qn" using o qn by simp
  have suf: "drop (length qn - length (dname (rk (mem env a)))) qn = suf"
    using o qn by simp
  have live': "\<not> ttl (entry_data (mem env a)) < now" using live by simp
  have a3: "allocs_succeed 3 (drop 4 r1)" using allocs_succeed_drop[OF mem, of 4 3] by simp
  let ?q = "\<lparr>qname = qn, qtype = qt, qclass = qc\<rparr>"
  have len': "length (dname (rk (mem env a))) \<le> length (qname ?q)" using len by simp
  have fits': "length (qname ?q) + length dtarg - length (dname (rk (mem env a)))
                 \<le> LDNS_MAX_DOMAINLEN"
    using fits rewritten_name_length[OF len, of dtarg] by simp
  note s = synth_dname_msg_cname[OF live' mem targ len' fits']
  note l = dns_cache_lookup_dname[OF miss hit s]
  have ar: "length qn + length dtarg - length (dname (rk (mem env a))) =
            length qn - length (dname (rk (mem env a))) + length dtarg"
    using len by simp
  show ?thesis
    unfolding l
    using copy_rrset_ok[OF a3, of "mem env a" now] o len suf ar
    by (simp add: ttls_relative_take)
qed

theorem dns_cache_lookup_dname_before_cname_witness:
  "slabhash_lookup (msg_cache w_env) \<lparr>qname = w_qname, qtype = 1, qclass = 1\<rparr> = None \<and>
   find_closest_of_type w_env w_qname 1 100 LDNS_RR_TYPE_DNAME = Some 1 \<and>
   rrset_cache_lookup w_env w_qname LDNS_RR_TYPE_CNAME 1 0 100 = Some 2 \<and>
   get_cname_target (mem w_env 1) = Some [2, 0x63, 0x64, 0] \<and>
   (\<exists>msg dck ck.
      fst (dns_cache_lookup w_env w_qname 1 1 [] 100) = Some msg \<and>
      rrsets (rep msg) = [dck, ck] \<and>
      dname (rk dck) = [2, 0x61, 0x62, 0] \<and>
      dname (rk ck) = [1, 0x77, 2, 0x61, 0x62, 0] \<and>
      rr_data (entry_data ck) = [[0, 6, 1, 0x77, 2, 0x63, 0x64, 0]] \<and>
      ttl (entry_data ck) = 0)"
proof -
  have miss: "slabhash_lookup (msg_cache w_env) \<lparr>qname = w_qname, qtype = 1, qclass = 1\<rparr> = None"
    by code_simp
  have hit: "find_closest_of_type w_env w_qname 1 100 LDNS_RR_TYPE_DNAME = Some 1"
    by code_simp
  have cn: "rrset_cache_lookup w_env w_qname LDNS_RR_TYPE_CNAME 1 0 100 = Some 2"
    by code_simp
  have targ: "get_cname_target (mem w_env 1) = Some [2, 0x63, 0x64, 0]"
    by code_simp
  have miss': "(case slabhash_lookup (msg_cache w_env) \<lparr>qname = w_qname, qtype = 1, qclass = 1\<rparr> of
                  None \<Rightarrow> (None, [])
                | Some e \<Rightarrow> tomsg w_env e (data e) [] 100) = (None, [])"
    by (simp add: miss)
  have mem: "allocs_succeed 11 []" by simp
  have fits: "length (take (length w_qname - length (dname (rk (mem w_env 1)))) w_qname @
                [2, 0x63, 0x64, 0::uint8_t]) \<le> LDNS_MAX_DOMAINLEN"
    by code_simp
  have own: "dname (rk (mem w_env 1)) = [2, 0x61, 0x62, 0]"
    by (simp add: w_env_def w_dname_def)
  from dns_cache_lookup_dname_before_cname[OF miss' hit mem targ fits]
  obtain msg dck ck where
    "fst (dns_cache_lookup w_env w_qname 1 1 [] 100) = Some msg"
    "rrsets (rep msg) = [dck, ck]"
    "rk dck = rk (mem w_env 1)"
    "dname (rk ck) = w_qname"
    "rr_data (entry_data ck) =
       [ldns_write_uint16 (length w_qname - length (dname (rk (mem w_env 1))) +
          length [2, 0x63, 0x64, 0::uint8_t]) @
        take (length w_qname - length (dname (rk (mem w_env 1)))) w_qname @ [2, 0x63, 0x64, 0]]"
    "ttl (entry_data ck) = 0"
    by blast
  then have "fst (dns_cache_lookup w_env w_qname 1 1 [] 100) = Some msg \<and>
      rrsets (rep msg) = [dck, ck] \<and>
      dname (rk dck) = [2, 0x61, 0x62, 0] \<and>
      dname (rk ck) = [1, 0x77, 2, 0x61, 0x62, 0] \<and>
      rr_data (entry_data ck) = [[0, 6, 1, 0x77, 2, 0x63, 0x64, 0]] \<and>
      ttl (entry_data ck) = 0"
    unfolding own by (simp add: w_qname_def ldns_write_uint16_def w_env_def w_dname_def)
  with miss hit cn targ show ?thesis by blast
qed

text \<open>
  Claim C3. On a miss in the message cache, when the DNAME found for the
  query name has a well-formed target and the rewritten name (the query name
  without the DNAME owner, followed by the target) would be longer than 255
  bytes, and the allocations for the message and the copy succeed,
  \<^verbatim>\<open>dns_cache_lookup\<close> returns a message whose flags are QR with the
  response code YXDOMAIN in the low four bits and whose only RRset is the
  copy of the DNAME, in the answer section; no CNAME is synthesized.
\<close>

theorem dns_cache_lookup_dname_yxdomain:
  assumes miss: "(case slabhash_lookup (msg_cache env) \<lparr>qname = qn, qtype = qt, qclass = qc\<rparr> of
                    None \<Rightarrow> (None, region)
                  | Some e \<Rightarrow> tomsg env e (data e) region now) = (None, r1)"
      and hit: "find_closest_of_type env qn qc now LDNS_RR_TYPE_DNAME = Some a"
      and mem: "allocs_succeed 7 r1"
      and targ: "get_cname_target (mem env a) = Some dtarg"
      and toolong: "LDNS_MAX_DOMAINLEN <
                      length (take (length qn - length (dname (rk (mem env a)))) qn @ dtarg)"
  shows "\<exists>msg dck.
           fst (dns_cache_lookup env qn qt qc region now) = Some msg \<and>
           rep_flags (rep msg) = BIT_QR OR LDNS_RCODE_YXDOMAIN \<and>
           rep_flags (rep msg) AND 0xF = LDNS_RCODE_YXDOMAIN \<and>
           rrsets (rep msg) = [dck] \<and>
           an_numrrsets (rep msg) = 1 \<and> ns_numrrsets (rep msg) = 0 \<and>
           ar_numrrsets (rep msg) = 0 \<and> rrset_count (rep msg) = 1 \<and>
           copy_rrset (mem env a) (drop 4 r1) now = (Some dck, drop 7 r1) \<and>
           rk dck = rk (mem env a) \<and> rk_type (rk dck) = htons LDNS_RR_TYPE_DNAME"
proof -
  from find_closest_of_type_owner[OF hit] obtain pre suf where
    qn: "qn = pre @ suf" and
    m: "rrset_key_match (rk (mem env a)) suf LDNS_RR_TYPE_DNAME qc 0" and
    live: "now < ttl (entry_data (mem env a))"
    by blast
  note o = rrset_key_match_owner[OF m]
  let ?q = "\<lparr>qname = qn, qtype = qt, qclass = qc\<rparr>"
  have len': "length (dname (rk (mem env a))) \<le> length (qname ?q)" using o qn by simp
  have live': "\<not> ttl (entry_data (mem env a)) < now" using live by simp
  have a3: "allocs_succeed 3 (drop 4 r1)" using allocs_succeed_drop[OF mem, of 4 3] by simp
  have toolong': "LDNS_MAX_DOMAINLEN <
      length (qname ?q) + length dtarg - length (dname (rk (mem env a)))"
    using toolong rewritten_name_length[of "dname (rk (mem env a))" qn dtarg] len' by simp
  note s = synth_dname_msg_yxdomain[OF live' mem targ len' toolong']
  note l = dns_cache_lookup_dname[OF miss hit s]
  have rcode: "(BIT_QR OR LDNS_RCODE_YXDOMAIN) AND 0xF = LDNS_RCODE_YXDOMAIN"
    by (simp add: BIT_QR_def LDNS_RCODE_YXDOMAIN_def)
  show ?thesis
    unfolding l
    using copy_rrset_ok[OF a3, of "mem env a" now] o rcode
    by simp
qed

theorem dns_cache_lookup_dname_yxdomain_witness:
  "slabhash_lookup (msg_cache w_long_env) \<lparr>qname = w_long_qname, qtype = 1, qclass = 1\<rparr> = None \<and>
   find_closest_of_type w_long_env w_long_qname 1 100 LDNS_RR_TYPE_DNAME = Some 1 \<and>
   length w_long_qname = 196 \<and>
   length w_long_qname + 65 - length (dname (rk (mem w_long_env 1))) = 257 \<and>
   (\<exists>msg dck.
      fst (dns_cache_lookup w_long_env w_long_qname 1 1 [] 100) = Some msg \<and>
      rep_flags (rep msg) = 0x8006 \<and>
      rrsets (rep msg) = [dck] \<and> rk_type (rk dck) = htons LDNS_RR_TYPE_DNAME)"
proof -
  have miss: "slabhash_lookup (msg_cache w_long_env)
                \<lparr>qname = w_long_qname, qtype = 1, qclass = 1\<rparr> = None"
    by code_simp
  have hit: "find_closest_of_type w_long_env w_long_qname 1 100 LDNS_RR_TYPE_DNAME = Some 1"
    by code_simp
  have targ: "get_cname_target (mem w_long_env 1) = Some ((63 # replicate 63 0x79) @ [0])"
    by code_simp
  have mem: "allocs_succeed 7 []" by simp
  have l1: "length w_long_qname = 196" by code_simp
  have l2: "length w_long_qname + 65 - length (dname (rk (mem w_long_env 1))) = 257"
    by code_simp
  have miss': "(case slabhash_lookup (msg_cache w_long_env)
                       \<lparr>qname = w_long_qname, qtype = 1, qclass = 1\<rparr> of
                  None \<Rightarrow> (None, [])
                | Some e \<Rightarrow> tomsg w_long_env e (data e) [] 100) = (None, [])"
    by (simp add: miss)
  have toolong: "LDNS_MAX_DOMAINLEN <
      length (take (length w_long_qname - length (dname (rk (mem w_long_env 1)))) w_long_qname @
              (63 # replicate 63 (0x79::uint8_t)) @ [0])"
    by code_simp
  have fl: "BIT_QR OR LDNS_RCODE_YXDOMAIN = 0x8006"
    by (simp add: BIT_QR_def LDNS_RCODE_YXDOMAIN_def)
  from dns_cache_lookup_dname_yxdomain[OF miss' hit mem targ toolong]
  obtain msg dck where
    "fst (dns_cache_lookup w_long_env w_long_qname 1 1 [] 100) = Some msg"
    "rep_flags (rep msg) = BIT_QR OR LDNS_RCODE_YXDOMAIN"
    "rrsets (rep msg) = [dck]" "rk_type (rk dck) = htons LDNS_RR_TYPE_DNAME"
    by blast
  with miss hit l1 l2 fl show ?thesis by auto
qed

text \<open>
  Claim C4 as stated fails: with a DNAME cached at \<open>ab.\<close> the query for
  \<open>ab.\<close> with type DNAME gets two RRsets, the DNAME and a synthesized CNAME
  at \<open>ab.\<close>.
\<close>

theorem dname_query_at_owner_counterexample:
  "rrset_cache_lookup w_env w_owner LDNS_RR_TYPE_DNAME 1 0 100 = Some 1 \<and>
   dname (rk (mem w_env 1)) = w_owner \<and>
   slabhash_lookup (msg_cache w_env)
     \<lparr>qname = w_owner, qtype = LDNS_RR_TYPE_DNAME, qclass = 1\<rparr> = None \<and>
   dns_cache_lookup w_env w_owner LDNS_RR_TYPE_DNAME 1 [] 100 = (Some w_dname_reply, []) \<and>
   rrset_count (rep w_dname_reply) = 2 \<and>
   rk_type (rk (rrsets (rep w_dname_reply) ! 1)) = htons LDNS_RR_TYPE_CNAME"
  by code_simp

text \<open>
  Claim C4, as amended. When a live DNAME RRset is cached at the query name
  itself, whatever the query type (DNAME included), \<^verbatim>\<open>dns_cache_lookup\<close>
  on a miss in the message cache performs DNAME synthesis, and the result
  does not degenerate: given that the allocations succeed and the target is
  well formed, the answer is the copy of the DNAME RRset followed by a
  synthesized CNAME whose owner is the query name and whose target is the
  DNAME target itself (the front of the query name is empty); the TTL of the
  CNAME and of the message is 0.
\<close>

theorem dns_cache_lookup_dname_at_qname:
  assumes miss: "(case slabhash_lookup (msg_cache env) \<lparr>qname = qn, qtype = qt, qclass = qc\<rparr> of
                    None \<Rightarrow> (None, region)
                  | Some e \<Rightarrow> tomsg env e (data e) region now) = (None, r1)"
      and at: "rrset_cache_lookup env qn LDNS_RR_TYPE_DNAME qc 0 now = Some a"
      and ne: "qn \<noteq> []"
      and mem: "allocs_succeed 11 r1"
      and targ: "get_cname_target (mem env a) = Some dtarg"
  shows "\<exists>msg dck ck.
           fst (dns_cache_lookup env qn qt qc region now) = Some msg \<and>
           rrsets (rep msg) = [dck, ck] \<and>
           an_numrrsets (rep msg) = 2 \<and> rrset_count (rep msg) = 2 \<and>
           rep_ttl (rep msg) = 0 \<and>
           copy_rrset (mem env a) (drop 4 r1) now = (Some dck, drop 7 r1) \<and>
           rk_type (rk dck) = htons LDNS_RR_TYPE_DNAME \<and>
           dname (rk ck) = qn \<and> rk_type (rk ck) = htons LDNS_RR_TYPE_CNAME \<and>
           rr_data (entry_data ck) = [ldns_write_uint16 (length dtarg) @ dtarg] \<and>
           rr_ttl (entry_data ck) = [0]"
proof -
  obtain x xs where qn: "qn = x # xs" using ne by (cases qn) auto
  have hit: "find_closest_of_type env qn qc now LDNS_RR_TYPE_DNAME = Some a"
    using at by (simp add: qn)
  note o = rrset_key_match_owner[OF rrset_cache_lookup_SomeD[OF at, THEN conjunct2, THEN conjunct1]]
  have live: "now < ttl (entry_data (mem env a))"
    using rrset_cache_lookup_SomeD[OF at] by blast
  have live': "\<not> ttl (entry_data (mem env a)) < now" using live by simp
  let ?q = "\<lparr>qname = qn, qtype = qt, qclass = qc\<rparr>"
  have len': "length (dname (rk (mem env a))) \<le> length (qname ?q)" using o by simp
  have fits': "length (qname ?q) + length dtarg - length (dname (rk (mem env a)))
                 \<le> LDNS_MAX_DOMAINLEN"
    using o get_cname_target_length[OF targ] by (simp add: LDNS_MAX_DOMAINLEN_def)
  have a3: "allocs_succeed 3 (drop 4 r1)" using allocs_succeed_drop[OF mem, of 4 3] by simp
  note s = synth_dname_msg_cname[OF live' mem targ len' fits']
  note l = dns_cache_lookup_dname[OF miss hit s]
  show ?thesis
    unfolding l
    using copy_rrset_ok[OF a3, of "mem env a" now] o
    by simp
qed

theorem dns_cache_lookup_dname_at_qname_witness:
  "slabhash_lookup (msg_cache w_env)
     \<lparr>qname = w_owner, qtype = LDNS_RR_TYPE_DNAME, qclass = 1\<rparr> = None \<and>
   rrset_cache_lookup w_env w_owner LDNS_RR_TYPE_DNAME 1 0 100 = Some 1 \<and>
   get_cname_target (mem w_env 1) = Some [2, 0x63, 0x64, 0] \<and>
   (\<exists>msg dck ck.
      fst (dns_cache_lookup w_env w_owner LDNS_RR_TYPE_DNAME 1 [] 100) = Some msg \<and>
      rrsets (rep msg) = [dck, ck] \<and> rrset_count (rep msg) = 2 \<and>
      dname (rk ck) = w_owner \<and> rk_type (rk ck) = htons LDNS_RR_TYPE_CNAME \<and>
      rr_data (entry_data ck) = [[0, 4, 2, 0x63, 0x64, 0]])"
proof -
  have miss: "slabhash_lookup (msg_cache w_env)
     \<lparr>qname = w_owner, qtype = LDNS_RR_TYPE_DNAME, qclass = 1\<rparr> = None"
    by code_simp
  have at: "rrset_cache_lookup w_env w_owner LDNS_RR_TYPE_DNAME 1 0 100 = Some 1"
    by code_simp
  have miss': "(case slabhash_lookup (msg_cache w_env)
                       \<lparr>qname = w_owner, qtype = LDNS_RR_TYPE_DNAME, qclass = 1\<rparr> of
                  None \<Rightarrow> (None, [])
                | Some e \<Rightarrow> tomsg w_env e (data e) [] 100) = (None, [])"
    by (simp add: miss)
  have ne: "w_owner \<noteq> []" by (simp add: w_owner_def)
  have mem: "allocs_succeed 11 []" by simp
  have targ: "get_cname_target (mem w_env 1) = Some [2, 0x63, 0x64, 0]"
    by code_simp
  from dns_cache_lookup_dname_at_qname[OF miss' at ne mem targ]
  obtain msg dck ck where
    "fst (dns_cache_lookup w_env w_owner LDNS_RR_TYPE_DNAME 1 [] 100) = Some msg"
    "rrsets (rep msg) = [dck, ck]" "rrset_count (rep msg) = 2"
    "dname (rk ck) = w_owner" "rk_type (rk ck) = htons LDNS_RR_TYPE_CNAME"
    "rr_data (entry_data ck) = [ldns_write_uint16 (length [2, 0x63, 0x64, 0::uint8_t]) @ [2, 0x63, 0x64, 0]]"
    by blast
  then have "fst (dns_cache_lookup w_env w_owner LDNS_RR_TYPE_DNAME 1 [] 100) = Some msg \<and>
      rrsets (rep msg) = [dck, ck] \<and> rrset_count (rep msg) = 2 \<and>
      dname (rk ck) = w_owner \<and> rk_type (rk ck) = htons LDNS_RR_TYPE_CNAME \<and>
      rr_data (entry_data ck) = [[0, 4, 2, 0x63, 0x64, 0]]"
    by (simp add: ldns_write_uint16_def)
  with miss at targ show ?thesis by blast
qed

section \<open>Expired entries\<close>

lemma rrset_cache_lookup_msg_cache [simp]:
  "rrset_cache_lookup (env\<lparr>msg_cache := c\<rparr>) qn qt qc fl now = rrset_cache_lookup env qn qt qc fl now"
  by (simp add: rrset_cache_lookup_def cong: option.case_cong)

lemma find_closest_of_type_msg_cache [simp]:
  "find_closest_of_type (env\<lparr>msg_cache := c\<rparr>) qn qc now st = find_closest_of_type env qn qc now st"
  by (induction env qn qc now st rule: find_closest_of_type.induct) (simp_all split: option.splits)

lemma tomsg_expired: "rep_ttl r < now \<Longrightarrow> tomsg env e r region now = (None, region)"
  by (simp add: tomsg_def)

lemma synth_dname_msg_expired:
  "ttl (entry_data rrset) < now \<Longrightarrow> synth_dname_msg rrset region now q = (None, region)"
  by (simp add: synth_dname_msg_def)

lemma cname_msg_expired:
  "ttl (entry_data rrset) < now \<Longrightarrow> cname_msg rrset region now q = (None, region)"
  by (simp add: cname_msg_def)

lemma dns_cache_lookup_expired_msg:
  assumes "slabhash_lookup (msg_cache env) \<lparr>qname = qn, qtype = qt, qclass = qc\<rparr> = Some e"
      and "rep_ttl (data e) < now"
  shows "dns_cache_lookup env qn qt qc region now =
         dns_cache_lookup (env\<lparr>msg_cache := []\<rparr>) qn qt qc region now"
  using assms
  by (simp add: dns_cache_lookup_def tomsg_expired slabhash_lookup_def
        cong: option.case_cong prod.case_cong)

lemma find_closest_of_type_live:
  "find_closest_of_type env qn qc now st = Some a \<Longrightarrow> now < ttl (entry_data (mem env a))"
  using find_closest_of_type_owner by blast

lemma rrset_array_lock_expired:
  "rf \<in> set (take cnt rfs) \<Longrightarrow> ttl (entry_data (m (ref_key rf))) \<le> now \<Longrightarrow>
   \<not> rrset_array_lock m rfs cnt now"
proof -
  assume rf: "rf \<in> set (take cnt rfs)" and old: "ttl (entry_data (m (ref_key rf))) \<le> now"
  from old have "\<not> now < ttl (entry_data (m (ref_key rf)))" by simp
  with rf show ?thesis unfolding rrset_array_lock_def list_all_iff by blast
qed

lemma tomsg_expired_ref:
  assumes "rf \<in> set (take (rrset_count r) (ref r))"
      and "ttl (entry_data (mem env (ref_key rf))) \<le> now"
  shows "tomsg env e r region now =
         (None, if rep_ttl r < now then region
                else snd (gen_dns_msg region (key e) (rrset_count r)))"
proof -
  have "\<not> rrset_array_lock (mem env) (ref r) (rrset_count r) now"
    using assms by (rule rrset_array_lock_expired)
  then show ?thesis by (simp add: tomsg_def split: prod.splits option.splits)
qed

lemma tomsg_expired_rrset:
  assumes cover: "reply_refs_cover r"
      and a: "a \<in> set (take (rrset_count r) (rrsets r))"
      and old: "ttl (entry_data (mem env a)) \<le> now"
  shows "tomsg env e r region now =
         (None, if rep_ttl r < now then region
                else snd (gen_dns_msg region (key e) (rrset_count r)))"
proof -
  from cover a obtain rf where "rf \<in> set (take (rrset_count r) (ref r))" "ref_key rf = a"
    unfolding reply_refs_cover_def by blast
  then show ?thesis using tomsg_expired_ref[of rf r env now e region] old by simp
qed

lemma dns_cache_lookup_msg_miss:
  assumes "slabhash_lookup (msg_cache env) \<lparr>qname = qn, qtype = qt, qclass = qc\<rparr> = Some e"
      and "tomsg env e (data e) region now = (None, r1)"
  shows "dns_cache_lookup env qn qt qc region now =
         dns_cache_lookup (env\<lparr>msg_cache := []\<rparr>) qn qt qc r1 now"
  using assms
  by (simp add: dns_cache_lookup_def slabhash_lookup_def
        cong: option.case_cong prod.case_cong)

lemma dns_cache_lookup_msg_hit:
  assumes "slabhash_lookup (msg_cache env) \<lparr>qname = qn, qtype = qt, qclass = qc\<rparr> = Some e"
      and "tomsg env e (data e) region now = (Some msg, r1)"
  shows "dns_cache_lookup env qn qt qc region now = (Some msg, r1)"
  using assms by (simp add: dns_cache_lookup_def)

lemma copy_rrsets_ok:
  "allocs_succeed (3 * length as) rg \<Longrightarrow>
   copy_rrsets m as rg now =
     (Some (map (\<lambda>a. (m a)\<lparr>entry_data := (entry_data (m a))\<lparr>ttl := ttl (entry_data (m a)) - now,
                   rr_ttl := ttls_relative (rr_ttl (entry_data (m a))) now
                     (count (entry_data (m a)) + rrsig_count (entry_data (m a)))\<rparr>\<rparr>) as),
      drop (3 * length as) rg)"
proof (induction as arbitrary: rg)
  case Nil
  then show ?case by simp
next
  case (Cons a as)
  have eq: "3 * length (a # as) = 3 + 3 * length as" by simp
  from Cons.prems have h: "allocs_succeed 3 rg" "allocs_succeed (3 * length as) (drop 3 rg)"
    unfolding eq allocs_succeed_add by simp_all
  show ?case
    using Cons.IH[OF h(2)] copy_rrset_ok[OF h(1), of "m a" now]
    by (simp add: add.commute)
qed

lemma tomsg_ok:
  assumes live: "now \<le> rep_ttl r"
      and lock: "rrset_array_lock (mem env) (ref r) (rrset_count r) now"
      and mem: "allocs_succeed (4 + 3 * rrset_count r) region"
  shows "tomsg env e r region now =
         (Some \<lparr>qinfo = key e,
                rep = \<lparr>rep_flags = rep_flags r, qdcount = qdcount r, rep_ttl = rep_ttl r,
                  an_numrrsets = an_numrrsets r, ns_numrrsets = ns_numrrsets r,
                  ar_numrrsets = ar_numrrsets r, rrset_count = rrset_count r,
                  rrsets =
                    map (\<lambda>a. (mem env a)\<lparr>entry_data := (entry_data (mem env a))
                           \<lparr>ttl := ttl (entry_data (mem env a)) - now,
                            rr_ttl := ttls_relative (rr_ttl (entry_data (mem env a))) now
                              (count (entry_data (mem env a)) +
                               rrsig_count (entry_data (mem env a)))\<rparr>\<rparr>)
                      (take (rrset_count r) (rrsets r)),
                  ref = []\<rparr>\<rparr>,
          drop (4 + 3 * length (take (rrset_count r) (rrsets r))) region)"
proof -
  let ?as = "take (rrset_count r) (rrsets r)"
  have m4: "allocs_succeed 4 region"
    using allocs_succeed_drop[OF mem, of 0 4] by simp
  have m3: "allocs_succeed (3 * length ?as) (drop 4 region)"
    using allocs_succeed_drop[OF mem, of 4 "3 * length ?as"] by simp
  have nl: "\<not> rep_ttl r < now" using live by simp
  show ?thesis
    using nl lock
    by (simp add: tomsg_def gen_dns_msg_ok[OF m4] copy_rrsets_ok[OF m3] add.commute)
qed

lemma tomsg_Some_live:
  "tomsg env e r region now = (Some msg, r') \<Longrightarrow>
   now \<le> rep_ttl r \<and>
   list_all (\<lambda>rf. key_id (mem env (ref_key rf)) = ref_id rf \<and>
                   now < ttl (entry_data (mem env (ref_key rf))))
     (take (rrset_count r) (ref r))"
  by (auto simp: tomsg_def rrset_array_lock_def split: if_splits prod.splits option.splits)

lemma dns_cache_lookup_cases:
  assumes "dns_cache_lookup env qn qt qc region now = (Some msg, r')"
  shows "(\<exists>e. slabhash_lookup (msg_cache env) \<lparr>qname = qn, qtype = qt, qclass = qc\<rparr> = Some e \<and>
              tomsg env e (data e) region now = (Some msg, r')) \<or>
         (\<exists>a r1. find_closest_of_type env qn qc now LDNS_RR_TYPE_DNAME = Some a \<and>
              synth_dname_msg (mem env a) r1 now \<lparr>qname = qn, qtype = qt, qclass = qc\<rparr>
                = (Some msg, r')) \<or>
         (\<exists>a r2. rrset_cache_lookup env qn LDNS_RR_TYPE_CNAME qc 0 now = Some a \<and>
              cname_msg (mem env a) r2 now \<lparr>qname = qn, qtype = qt, qclass = qc\<rparr>
                = (Some msg, r'))"
  using assms
  by (auto simp: dns_cache_lookup_def Let_def split: option.splits prod.splits)

text \<open>
  Claim C1 as stated fails at \<open>ttl = now\<close>. In the cache \<open>w_two_stores\<close>,
  which two calls of \<^verbatim>\<open>dns_cache_store_msg\<close> leave, the message cached for
  \<open>ab.\<close> A IN expires at 500 and its RRset at 900; the lookup at time 500
  serves the message, because \<^verbatim>\<open>tomsg\<close> refuses only when \<open>now > ttl\<close>.
\<close>

theorem message_at_expiry_served_counterexample:
  "slabhash_lookup (msg_cache w_two_stores) \<lparr>qname = w_owner, qtype = 1, qclass = 1\<rparr>
     = Some w_msg_entry \<and>
   rep_ttl (data w_msg_entry) \<le> 500 \<and>
   ttl (entry_data (mem w_two_stores 1)) = 900 \<and>
   dns_cache_lookup w_two_stores w_owner 1 1 [] 500 = (Some w_msg_served, [])"
  by code_simp

text \<open>
  Claim C1, as amended. An entry whose expiry timestamp is strictly below
  \<open>now\<close> is a miss: \<^verbatim>\<open>tomsg\<close>, \<^verbatim>\<open>synth_dname_msg\<close> and \<^verbatim>\<open>cname_msg\<close>
  each return \<^verbatim>\<open>NULL\<close> without touching the region, and a lookup that finds
  such a cached message continues exactly as if the message cache had no
  entry. For RRsets the bound is \<open>ttl \<le> now\<close> on every path. The lookup in
  the RRset cache, as the spec defines it, refuses such an entry, so the
  DNAME and CNAME steps never get one. On the message-hit path \<^verbatim>\<open>tomsg\<close>
  returns \<^verbatim>\<open>NULL\<close> for a cached message one of whose references points to
  such an RRset (\<^verbatim>\<open>rrset_array_lock\<close> fails), hence for a message that holds
  such an RRset when its references point to the keys of its RRsets; the
  lookup then continues with the DNAME step as if the message cache had no
  entry, in the region that is left after the allocations of
  \<^verbatim>\<open>gen_dns_msg\<close>. In the other direction, a cached message with
  \<open>now \<le> ttl\<close>, so also with \<open>ttl = now\<close>, is served whenever all its
  references are live and unexpired and the \<open>4 + 3 * rrset_count\<close>
  allocations succeed: the lookup returns the copy of the reply with the
  TTLs of its RRsets made relative to \<open>now\<close>. Finally, whatever the lookup
  serves comes from entries that are not expired: a cached message with
  \<open>now \<le> ttl\<close> all of whose references are live with \<open>now < ttl\<close>, or a DNAME
  or CNAME RRset with \<open>now < ttl\<close>.
\<close>

theorem expired_entry_is_miss:
  "(rep_ttl r < now \<longrightarrow> tomsg env e r region now = (None, region)) \<and>
   (ttl (entry_data rrset) < now \<longrightarrow>
      synth_dname_msg rrset region now q = (None, region) \<and>
      cname_msg rrset region now q = (None, region)) \<and>
   (slabhash_lookup (msg_cache env) \<lparr>qname = qn, qtype = qt, qclass = qc\<rparr> = Some e \<and>
    rep_ttl (data e) < now \<longrightarrow>
      dns_cache_lookup env qn qt qc region now =
      dns_cache_lookup (env\<lparr>msg_cache := []\<rparr>) qn qt qc region now) \<and>
   (ttl (entry_data (mem env a)) \<le> now \<longrightarrow>
      rrset_cache_lookup env qn st qc fl now \<noteq> Some a \<and>
      find_closest_of_type env qn qc now st \<noteq> Some a) \<and>
   (rf \<in> set (take (rrset_count r) (ref r)) \<and>
    ttl (entry_data (mem env (ref_key rf))) \<le> now \<longrightarrow>
      tomsg env e r region now =
        (None, if rep_ttl r < now then region
               else snd (gen_dns_msg region (key e) (rrset_count r)))) \<and>
   (reply_refs_cover r \<and> a \<in> set (take (rrset_count r) (rrsets r)) \<and>
    ttl (entry_data (mem env a)) \<le> now \<longrightarrow>
      tomsg env e r region now =
        (None, if rep_ttl r < now then region
               else snd (gen_dns_msg region (key e) (rrset_count r)))) \<and>
   (slabhash_lookup (msg_cache env) \<lparr>qname = qn, qtype = qt, qclass = qc\<rparr> = Some e \<and>
    reply_refs_cover (data e) \<and>
    a \<in> set (take (rrset_count (data e)) (rrsets (data e))) \<and>
    ttl (entry_data (mem env a)) \<le> now \<longrightarrow>
      dns_cache_lookup env qn qt qc region now =
      dns_cache_lookup (env\<lparr>msg_cache := []\<rparr>) qn qt qc
        (if rep_ttl (data e) < now then region
         else snd (gen_dns_msg region (key e) (rrset_count (data e)))) now) \<and>
   (slabhash_lookup (msg_cache env) \<lparr>qname = qn, qtype = qt, qclass = qc\<rparr> = Some e \<and>
    now \<le> rep_ttl (data e) \<and>
    list_all (\<lambda>rf. key_id (mem env (ref_key rf)) = ref_id rf \<and>
                    now < ttl (entry_data (mem env (ref_key rf))))
      (take (rrset_count (data e)) (ref (data e))) \<and>
    allocs_succeed (4 + 3 * rrset_count (data e)) region \<longrightarrow>
      dns_cache_lookup env qn qt qc region now =
        (Some \<lparr>qinfo = key e,
               rep = \<lparr>rep_flags = rep_flags (data e), qdcount = qdcount (data e),
                 rep_ttl = rep_ttl (data e),
                 an_numrrsets = an_numrrsets (data e), ns_numrrsets = ns_numrrsets (data e),
                 ar_numrrsets = ar_numrrsets (data e), rrset_count = rrset_count (data e),
                 rrsets =
                   map (\<lambda>a. (mem env a)\<lparr>entry_data := (entry_data (mem env a))
                          \<lparr>ttl := ttl (entry_data (mem env a)) - now,
                           rr_ttl := ttls_relative (rr_ttl (entry_data (mem env a))) now
                             (count (entry_data (mem env a)) +
                              rrsig_count (entry_data (mem env a)))\<rparr>\<rparr>)
                     (take (rrset_count (data e)) (rrsets (data e))),
                 ref = []\<rparr>\<rparr>,
         drop (4 + 3 * length (take (rrset_count (data e)) (rrsets (data e)))) region)) \<and>
   (dns_cache_lookup env qn qt qc region now = (Some msg, r') \<longrightarrow>
      (\<exists>e. slabhash_lookup (msg_cache env) \<lparr>qname = qn, qtype = qt, qclass = qc\<rparr> = Some e \<and>
           now \<le> rep_ttl (data e) \<and>
           list_all (\<lambda>rf. key_id (mem env (ref_key rf)) = ref_id rf \<and>
                           now < ttl (entry_data (mem env (ref_key rf))))
             (take (rrset_count (data e)) (ref (data e))) \<and>
           tomsg env e (data e) region now = (Some msg, r')) \<or>
      (\<exists>a r1. find_closest_of_type env qn qc now LDNS_RR_TYPE_DNAME = Some a \<and>
           now < ttl (entry_data (mem env a)) \<and>
           synth_dname_msg (mem env a) r1 now \<lparr>qname = qn, qtype = qt, qclass = qc\<rparr>
             = (Some msg, r')) \<or>
      (\<exists>a r2. rrset_cache_lookup env qn LDNS_RR_TYPE_CNAME qc 0 now = Some a \<and>
           now < ttl (entry_data (mem env a)) \<and>
           cname_msg (mem env a) r2 now \<lparr>qname = qn, qtype = qt, qclass = qc\<rparr>
             = (Some msg, r')))"
  (is "?A \<and> ?B \<and> ?C \<and> ?D \<and> ?E \<and> ?F \<and> ?G \<and> ?H \<and> (_ \<longrightarrow> ?m \<or> ?d \<or> ?c)")
proof -
  have A: ?A using tomsg_expired by blast
  have B: ?B using synth_dname_msg_expired cname_msg_expired by blast
  have C: ?C using dns_cache_lookup_expired_msg by blast
  have D: ?D
  proof (intro impI conjI)
    assume "ttl (entry_data (mem env a)) \<le> now"
    then have n: "\<not> now < ttl (entry_data (mem env a))" by simp
    from n show "rrset_cache_lookup env qn st qc fl now \<noteq> Some a"
      using rrset_cache_lookup_SomeD by blast
    from n show "find_closest_of_type env qn qc now st \<noteq> Some a"
      using find_closest_of_type_live by blast
  qed
  have E: ?E using tomsg_expired_ref by blast
  have F: ?F using tomsg_expired_rrset by blast
  have G: ?G
  proof
    assume h: "slabhash_lookup (msg_cache env) \<lparr>qname = qn, qtype = qt, qclass = qc\<rparr> = Some e \<and>
      reply_refs_cover (data e) \<and>
      a \<in> set (take (rrset_count (data e)) (rrsets (data e))) \<and>
      ttl (entry_data (mem env a)) \<le> now"
    then have "tomsg env e (data e) region now =
        (None, if rep_ttl (data e) < now then region
               else snd (gen_dns_msg region (key e) (rrset_count (data e))))"
      using tomsg_expired_rrset by blast
    with h show "dns_cache_lookup env qn qt qc region now =
      dns_cache_lookup (env\<lparr>msg_cache := []\<rparr>) qn qt qc
        (if rep_ttl (data e) < now then region
         else snd (gen_dns_msg region (key e) (rrset_count (data e)))) now"
      using dns_cache_lookup_msg_miss by blast
  qed
  have H: ?H
  proof
    assume h: "slabhash_lookup (msg_cache env) \<lparr>qname = qn, qtype = qt, qclass = qc\<rparr> = Some e \<and>
      now \<le> rep_ttl (data e) \<and>
      list_all (\<lambda>rf. key_id (mem env (ref_key rf)) = ref_id rf \<and>
                      now < ttl (entry_data (mem env (ref_key rf))))
        (take (rrset_count (data e)) (ref (data e))) \<and>
      allocs_succeed (4 + 3 * rrset_count (data e)) region"
    then have lock: "rrset_array_lock (mem env) (ref (data e)) (rrset_count (data e)) now"
      by (simp add: rrset_array_lock_def)
    have t: "tomsg env e (data e) region now = 
        (Some \<lparr>qinfo = key e,
               rep = \<lparr>rep_flags = rep_flags (data e), qdcount = qdcount (data e),
                 rep_ttl = rep_ttl (data e),
                 an_numrrsets = an_numrrsets (data e), ns_numrrsets = ns_numrrsets (data e),
                 ar_numrrsets = ar_numrrsets (data e), rrset_count = rrset_count (data e),
                 rrsets =
                   map (\<lambda>a. (mem env a)\<lparr>entry_data := (entry_data (mem env a))
                          \<lparr>ttl := ttl (entry_data (mem env a)) - now,
                           rr_ttl := ttls_relative (rr_ttl (entry_data (mem env a))) now
                             (count (entry_data (mem env a)) +
                              rrsig_count (entry_data (mem env a)))\<rparr>\<rparr>)
                     (take (rrset_count (data e)) (rrsets (data e))),
                 ref = []\<rparr>\<rparr>,
         drop (4 + 3 * length (take (rrset_count (data e)) (rrsets (data e)))) region)"
      using tomsg_ok[OF _ lock] h by blast
    from h have s: "slabhash_lookup (msg_cache env) \<lparr>qname = qn, qtype = qt, qclass = qc\<rparr> = Some e"
      by blast
    show "dns_cache_lookup env qn qt qc region now =
        (Some \<lparr>qinfo = key e,
               rep = \<lparr>rep_flags = rep_flags (data e), qdcount = qdcount (data e),
                 rep_ttl = rep_ttl (data e),
                 an_numrrsets = an_numrrsets (data e), ns_numrrsets = ns_numrrsets (data e),
                 ar_numrrsets = ar_numrrsets (data e), rrset_count = rrset_count (data e),
                 rrsets =
                   map (\<lambda>a. (mem env a)\<lparr>entry_data := (entry_data (mem env a))
                          \<lparr>ttl := ttl (entry_data (mem env a)) - now,
                           rr_ttl := ttls_relative (rr_ttl (entry_data (mem env a))) now
                             (count (entry_data (mem env a)) +
                              rrsig_count (entry_data (mem env a)))\<rparr>\<rparr>)
                     (take (rrset_count (data e)) (rrsets (data e))),
                 ref = []\<rparr>\<rparr>,
         drop (4 + 3 * length (take (rrset_count (data e)) (rrsets (data e)))) region)"
      using dns_cache_lookup_msg_hit[OF s t] .
  qed
  have I: "dns_cache_lookup env qn qt qc region now = (Some msg, r') \<longrightarrow> ?m \<or> ?d \<or> ?c"
  proof
    assume h: "dns_cache_lookup env qn qt qc region now = (Some msg, r')"
    let ?k = "\<lparr>qname = qn, qtype = qt, qclass = qc\<rparr>"
    from dns_cache_lookup_cases[OF h] consider
      (m) e where "slabhash_lookup (msg_cache env) ?k = Some e"
          "tomsg env e (data e) region now = (Some msg, r')"
    | (d) a r1 where "find_closest_of_type env qn qc now LDNS_RR_TYPE_DNAME = Some a"
          "synth_dname_msg (mem env a) r1 now ?k = (Some msg, r')"
    | (c) a r2 where "rrset_cache_lookup env qn LDNS_RR_TYPE_CNAME qc 0 now = Some a"
          "cname_msg (mem env a) r2 now ?k = (Some msg, r')"
      by blast
    then show "?m \<or> ?d \<or> ?c"
    proof cases
      case m
      with tomsg_Some_live[OF m(2)] have ?m by blast
      then show ?thesis ..
    next
      case d
      with find_closest_of_type_live[OF d(1)] have ?d by blast
      then show ?thesis by blast
    next
      case c
      with rrset_cache_lookup_SomeD[OF c(1)] have ?c by blast
      then show ?thesis by blast
    qed
  qed
  from A B C D E F G H I show ?thesis by blast
qed

theorem expired_entry_is_miss_witness:
  "rep_ttl (data w_msg_entry) < 501 \<and> ttl (entry_data w_cname) < 401 \<and>
   slabhash_lookup (msg_cache w_msg_env) \<lparr>qname = w_owner, qtype = 1, qclass = 1\<rparr>
     = Some w_msg_entry \<and>
   ttl (entry_data (mem w_env 2)) \<le> 400 \<and>
   tomsg w_msg_env w_msg_entry (data w_msg_entry) [] 501 = (None, []) \<and>
   synth_dname_msg w_cname [] 401 \<lparr>qname = w_qname, qtype = 1, qclass = 1\<rparr> = (None, []) \<and>
   cname_msg w_cname [] 401 \<lparr>qname = w_qname, qtype = 1, qclass = 1\<rparr> = (None, []) \<and>
   dns_cache_lookup w_msg_env w_owner 1 1 [] 501 =
     dns_cache_lookup (w_msg_env\<lparr>msg_cache := []\<rparr>) w_owner 1 1 [] 501 \<and>
   rrset_cache_lookup w_env w_qname LDNS_RR_TYPE_CNAME 1 0 400 \<noteq> Some 2 \<and>
   find_closest_of_type w_env w_qname 1 400 LDNS_RR_TYPE_CNAME \<noteq> Some 2 \<and>
   slabhash_lookup (msg_cache w_old_env) \<lparr>qname = w_owner, qtype = 1, qclass = 1\<rparr>
     = Some w_msg_entry \<and>
   reply_refs_cover (data w_msg_entry) \<and>
   \<lparr>ref_key = 1, ref_id = 7\<rparr>
     \<in> set (take (rrset_count (data w_msg_entry)) (ref (data w_msg_entry))) \<and>
   1 \<in> set (take (rrset_count (data w_msg_entry)) (rrsets (data w_msg_entry))) \<and>
   ttl (entry_data (mem w_old_env 1)) \<le> 100 \<and> \<not> rep_ttl (data w_msg_entry) < 100 \<and>
   tomsg w_old_env w_msg_entry (data w_msg_entry) [True, True, True, True, True] 100
     = (None, [True]) \<and>
   dns_cache_lookup w_old_env w_owner 1 1 [True, True, True, True, True] 100 =
     dns_cache_lookup (w_old_env\<lparr>msg_cache := []\<rparr>) w_owner 1 1 [True] 100 \<and>
   (500 :: uint32_t) \<le> rep_ttl (data w_msg_entry) \<and>
   list_all (\<lambda>rf. key_id (mem w_msg_env (ref_key rf)) = ref_id rf \<and>
                   500 < ttl (entry_data (mem w_msg_env (ref_key rf))))
     (take (rrset_count (data w_msg_entry)) (ref (data w_msg_entry))) \<and>
   allocs_succeed (4 + 3 * rrset_count (data w_msg_entry)) [] \<and>
   dns_cache_lookup w_msg_env w_owner 1 1 [] 500 = (Some w_msg_served, []) \<and>
   tomsg w_msg_env w_msg_entry (data w_msg_entry) [] 500 = (Some w_msg_served, [])"
proof -
  let ?k = "\<lparr>qname = w_owner, qtype = 1, qclass = 1\<rparr>"
  let ?rg = "[True, True, True, True, True]"
  have h1: "rep_ttl (data w_msg_entry) < 501" by (simp add: w_msg_entry_def)
  have h2: "ttl (entry_data w_cname) < 401" by (simp add: w_cname_def)
  have h3: "slabhash_lookup (msg_cache w_msg_env) ?k = Some w_msg_entry" by code_simp
  have h4: "ttl (entry_data (mem w_env 2)) \<le> 400" by (simp add: w_env_def w_cname_def)
  have h5: "slabhash_lookup (msg_cache w_old_env) ?k = Some w_msg_entry" by code_simp
  have h6: "reply_refs_cover (data w_msg_entry)"
    by (simp add: reply_refs_cover_def w_msg_entry_def)
  have h7: "\<lparr>ref_key = 1, ref_id = 7\<rparr>
     \<in> set (take (rrset_count (data w_msg_entry)) (ref (data w_msg_entry)))"
    by (simp add: w_msg_entry_def)
  have h8: "1 \<in> set (take (rrset_count (data w_msg_entry)) (rrsets (data w_msg_entry)))"
    by (simp add: w_msg_entry_def)
  have h9: "ttl (entry_data (mem w_old_env 1)) \<le> 100"
    by (simp add: w_old_env_def w_old_rrset_def)
  have h9': "ttl (entry_data (mem w_old_env (ref_key \<lparr>ref_key = 1, ref_id = 7\<rparr>))) \<le> 100"
    using h9 by simp
  have h10: "\<not> rep_ttl (data w_msg_entry) < 100" by (simp add: w_msg_entry_def)
  have g: "snd (gen_dns_msg ?rg (key w_msg_entry) (rrset_count (data w_msg_entry))) = [True]"
    by code_simp
  have h11: "(500 :: uint32_t) \<le> rep_ttl (data w_msg_entry)" by (simp add: w_msg_entry_def)
  have h12: "list_all (\<lambda>rf. key_id (mem w_msg_env (ref_key rf)) = ref_id rf \<and>
                   500 < ttl (entry_data (mem w_msg_env (ref_key rf))))
     (take (rrset_count (data w_msg_entry)) (ref (data w_msg_entry)))"
    by (simp add: w_msg_entry_def w_msg_env_def w_a_rrset_def)
  have h13: "allocs_succeed (4 + 3 * rrset_count (data w_msg_entry)) []" by simp
  have nd: "find_closest_of_type w_msg_env w_owner 1 500 LDNS_RR_TYPE_DNAME = None"
    by code_simp
  have nc: "rrset_cache_lookup w_msg_env w_owner LDNS_RR_TYPE_CNAME 1 0 500 = None"
    by code_simp
  have c1: "tomsg w_msg_env w_msg_entry (data w_msg_entry) [] 501 = (None, [])"
    and c3: "dns_cache_lookup w_msg_env w_owner 1 1 [] 501 =
       dns_cache_lookup (w_msg_env\<lparr>msg_cache := []\<rparr>) w_owner 1 1 [] 501"
    using h1 h3
      expired_entry_is_miss[where r = "data w_msg_entry" and now = 501 and env = w_msg_env
        and e = w_msg_entry and region = "[]" and qn = w_owner and qt = 1 and qc = 1]
    by blast+
  have c2: "synth_dname_msg w_cname [] 401 \<lparr>qname = w_qname, qtype = 1, qclass = 1\<rparr> = (None, [])"
       "cname_msg w_cname [] 401 \<lparr>qname = w_qname, qtype = 1, qclass = 1\<rparr> = (None, [])"
    using h2
      expired_entry_is_miss[where rrset = w_cname and now = 401 and region = "[]"
        and q = "\<lparr>qname = w_qname, qtype = 1, qclass = 1\<rparr>"]
    by blast+
  have c4: "rrset_cache_lookup w_env w_qname LDNS_RR_TYPE_CNAME 1 0 400 \<noteq> Some 2"
       "find_closest_of_type w_env w_qname 1 400 LDNS_RR_TYPE_CNAME \<noteq> Some 2"
    using h4
      expired_entry_is_miss[where env = w_env and a = 2 and now = 400 and qn = w_qname
        and st = LDNS_RR_TYPE_CNAME and qc = 1 and fl = 0]
    by blast+
  note old = expired_entry_is_miss[where env = w_old_env and e = w_msg_entry
        and r = "data w_msg_entry" and rf = "\<lparr>ref_key = 1, ref_id = 7\<rparr>" and a = 1
        and now = 100 and region = ?rg and qn = w_owner and qt = 1 and qc = 1]
  have c5: "tomsg w_old_env w_msg_entry (data w_msg_entry) ?rg 100 =
        (None, if rep_ttl (data w_msg_entry) < 100 then ?rg
               else snd (gen_dns_msg ?rg (key w_msg_entry) (rrset_count (data w_msg_entry))))"
    using h7 h9' old by blast
  have c6: "dns_cache_lookup w_old_env w_owner 1 1 ?rg 100 =
      dns_cache_lookup (w_old_env\<lparr>msg_cache := []\<rparr>) w_owner 1 1
        (if rep_ttl (data w_msg_entry) < 100 then ?rg
         else snd (gen_dns_msg ?rg (key w_msg_entry) (rrset_count (data w_msg_entry)))) 100"
    using h5 h6 h8 h9 old by blast
  note srv = expired_entry_is_miss[where env = w_msg_env and e = w_msg_entry
        and now = 500 and region = "[]" and qn = w_owner and qt = 1 and qc = 1
        and msg = w_msg_served and r' = "[]"]
  have hyp: "slabhash_lookup (msg_cache w_msg_env) ?k = Some w_msg_entry \<and>
      500 \<le> rep_ttl (data w_msg_entry) \<and>
      list_all (\<lambda>rf. key_id (mem w_msg_env (ref_key rf)) = ref_id rf \<and>
                      500 < ttl (entry_data (mem w_msg_env (ref_key rf))))
        (take (rrset_count (data w_msg_entry)) (ref (data w_msg_entry))) \<and>
      allocs_succeed (4 + 3 * rrset_count (data w_msg_entry)) []"
    using h3 h11 h12 h13 by (intro conjI)
  note served = srv[THEN conjunct2, THEN conjunct2, THEN conjunct2, THEN conjunct2,
      THEN conjunct2, THEN conjunct2, THEN conjunct2, THEN conjunct1, THEN mp, OF hyp]
  have ev: "dns_cache_lookup w_msg_env w_owner 1 1 [] 500 = (Some w_msg_served, [])"
    unfolding served by code_simp
  note last = srv[THEN conjunct2, THEN conjunct2, THEN conjunct2, THEN conjunct2,
      THEN conjunct2, THEN conjunct2, THEN conjunct2, THEN conjunct2, THEN mp, OF ev]
  have c8: "tomsg w_msg_env w_msg_entry (data w_msg_entry) [] 500 = (Some w_msg_served, [])"
    using last unfolding h3 nd nc by simp
  have c5': "tomsg w_old_env w_msg_entry (data w_msg_entry) ?rg 100 = (None, [True])"
    using c5 unfolding g if_not_P[OF h10] .
  have c6': "dns_cache_lookup w_old_env w_owner 1 1 ?rg 100 =
      dns_cache_lookup (w_old_env\<lparr>msg_cache := []\<rparr>) w_owner 1 1 [True] 100"
    using c6 unfolding g if_not_P[OF h10] .
  show ?thesis
    by (intro conjI) (fact h1 h2 h3 h4 h5 h6 h7 h8 h9 h10 h11 h12 h13 c1 c2 c3 c4 c5' c6' c8 ev)+
qed

section \<open>Served TTLs\<close>

lemma word_rebase:
  fixes now t :: uint32_t
  assumes "now \<le> t"
  shows "unat (t - now) + unat now = unat t \<and> t - now \<le> t"
proof -
  have "unat now \<le> unat t" using assms by (simp add: word_le_nat_alt)
  moreover have "unat (t - now) = unat t - unat now" using assms by (simp add: unat_sub)
  ultimately show ?thesis using assms by (simp add: word_sub_le)
qed

lemma copy_rrset_rebased:
  assumes c: "copy_rrset k rg now = (Some ck, rg')"
      and inv: "rrset_data_invariant (entry_data k)"
      and live: "now \<le> ttl (entry_data k)"
  shows "ttl_rebased now k ck"
proof -
  let ?ts = "rr_ttl (entry_data k)"
  have len: "length ?ts = count (entry_data k) + rrsig_count (entry_data k)"
    using inv by (simp add: rrset_data_invariant_def)
  have ck: "rk ck = rk k" "rr_ttl (entry_data ck) = map (\<lambda>t. t - now) ?ts"
    using copy_rrset_SomeD[OF c] by (simp_all add: ttls_relative_map[OF len])
  have "\<forall>t\<in>set ?ts. now \<le> t"
  proof
    fix t assume "t \<in> set ?ts"
    then have "Min (set ?ts) \<le> t" by simp
    moreover have "ttl (entry_data k) = Min (set ?ts)"
      using inv unfolding rrset_data_invariant_def by blast
    ultimately show "now \<le> t" using live by (metis order_trans)
  qed
  then have "list_all2 (\<lambda>t' t. t' = t - now \<and> unat t' + unat now = unat t \<and> t' \<le> t)
               (map (\<lambda>t. t - now) ?ts) ?ts"
    by (simp add: list_all2_map1 list_all2_same word_rebase)
  then show ?thesis by (simp add: ttl_rebased_def ck)
qed

lemma copy_rrsets_SomeD:
  "copy_rrsets m as rg now = (Some cks, rg') \<Longrightarrow>
   list_all2 (\<lambda>a ck. \<exists>rg1 rg2. copy_rrset (m a) rg1 now = (Some ck, rg2)) as cks"
proof (induction as arbitrary: rg cks)
  case Nil
  then show ?case by simp
next
  case (Cons a as)
  then show ?case
    by (auto split: prod.splits option.splits)
qed

lemma tomsg_SomeD:
  "tomsg env e r region now = (Some msg, r') \<Longrightarrow>
   rrset_array_lock (mem env) (ref r) (rrset_count r) now \<and>
   (\<exists>rg. copy_rrsets (mem env) (take (rrset_count r) (rrsets r)) rg now
            = (Some (rrsets (rep msg)), r'))"
  by (auto simp: tomsg_def split: if_splits prod.splits option.splits)

lemma synth_dname_msg_rrsets:
  "synth_dname_msg rrset region now q = (Some msg, r') \<Longrightarrow>
   \<exists>dck rg1 rg2. copy_rrset rrset rg1 now = (Some dck, rg2) \<and>
     (rrsets (rep msg) = [dck] \<or>
      (\<exists>ck. rrsets (rep msg) = [dck, ck] \<and> rk_type (rk ck) = htons LDNS_RR_TYPE_CNAME \<and>
            rr_ttl (entry_data ck) = [0]))"
  by (auto simp: synth_dname_msg_def Let_def split: if_splits prod.splits option.splits) blast+

lemma cname_msg_rrsets:
  "cname_msg rrset region now q = (Some msg, r') \<Longrightarrow>
   \<exists>ck rg1 rg2. copy_rrset rrset rg1 now = (Some ck, rg2) \<and> rrsets (rep msg) = [ck]"
  by (auto simp: cname_msg_def Let_def split: if_splits prod.splits option.splits) blast+

lemma rrset_array_lock_live:
  assumes "rrset_array_lock m rf cnt now" and "x \<in> set (take cnt rf)"
  shows "now < ttl (entry_data (m (ref_key x)))"
  using assms by (auto simp: rrset_array_lock_def list_all_iff)

text \<open>
  Claim C8. Let the cached RRsets satisfy the invariant of the spec (the TTL
  of the set is the minimum of the TTLs of its records) and let the
  references of every cached reply point to the keys of its array of RRsets
  (\<open>reply_refs_cover\<close>, which \<^verbatim>\<open>dns_cache_store_msg\<close> keeps: lemma
  \<open>dns_cache_store_msg_refs_cover\<close>).
  Then in every message that \<^verbatim>\<open>dns_cache_lookup\<close> returns, every RRset is
  either the synthesized CNAME, whose only TTL is 0, or the copy of a cached
  RRset with rebased TTLs: each served per-record TTL is the stored one minus
  \<open>now\<close>, computed without wrap-around on 32 bits, and so not above the
  stored one.
\<close>

theorem served_ttls_not_above_stored:
  assumes inv: "\<forall>a\<in>cached_rrsets env. rrset_data_invariant (entry_data (mem env a))"
      and refs: "\<forall>e\<in>set (msg_cache env). reply_refs_cover (data e)"
      and served: "dns_cache_lookup env qn qt qc region now = (Some msg, r')"
  shows "\<forall>s\<in>set (rrsets (rep msg)).
           (\<exists>a\<in>cached_rrsets env. ttl_rebased now (mem env a) s) \<or>
           (rk_type (rk s) = htons LDNS_RR_TYPE_CNAME \<and> rr_ttl (entry_data s) = [0])"
proof -
  let ?k = "\<lparr>qname = qn, qtype = qt, qclass = qc\<rparr>"
  have entry: "\<And>a rg1 rg2 ck. a \<in> set (rrset_entries env) \<Longrightarrow>
      now < ttl (entry_data (mem env a)) \<Longrightarrow>
      copy_rrset (mem env a) rg1 now = (Some ck, rg2) \<Longrightarrow>
      \<exists>a\<in>cached_rrsets env. ttl_rebased now (mem env a) ck"
  proof -
    fix a rg1 rg2 ck
    assume a: "a \<in> set (rrset_entries env)" and live: "now < ttl (entry_data (mem env a))"
      and c: "copy_rrset (mem env a) rg1 now = (Some ck, rg2)"
    have ca: "a \<in> cached_rrsets env" using a by (simp add: cached_rrsets_def)
    have "ttl_rebased now (mem env a) ck"
      using copy_rrset_rebased[OF c] inv ca live by (simp add: order_less_imp_le)
    then show "\<exists>a\<in>cached_rrsets env. ttl_rebased now (mem env a) ck" using ca by blast
  qed
  from dns_cache_lookup_cases[OF served] consider
    (msg) e where "slabhash_lookup (msg_cache env) ?k = Some e"
      "tomsg env e (data e) region now = (Some msg, r')"
  | (dname) a r1 where "find_closest_of_type env qn qc now LDNS_RR_TYPE_DNAME = Some a"
      "synth_dname_msg (mem env a) r1 now ?k = (Some msg, r')"
  | (cname) a r2 where "rrset_cache_lookup env qn LDNS_RR_TYPE_CNAME qc 0 now = Some a"
      "cname_msg (mem env a) r2 now ?k = (Some msg, r')"
    by blast
  then show ?thesis
  proof cases
    case msg
    have e: "e \<in> set (msg_cache env)"
      using msg(1) by (auto simp: slabhash_lookup_def find_Some_iff)
    let ?r = "data e"
    from tomsg_SomeD[OF msg(2)] obtain rg where
      lock: "rrset_array_lock (mem env) (ref ?r) (rrset_count ?r) now" and
      cp: "copy_rrsets (mem env) (take (rrset_count ?r) (rrsets ?r)) rg now
             = (Some (rrsets (rep msg)), r')"
      by blast
    note all2 = copy_rrsets_SomeD[OF cp]
    show ?thesis
    proof
      fix s assume "s \<in> set (rrsets (rep msg))"
      then obtain i where i: "i < length (rrsets (rep msg))" "s = rrsets (rep msg) ! i"
        by (auto simp: in_set_conv_nth)
      let ?a = "take (rrset_count ?r) (rrsets ?r) ! i"
      have il: "i < length (take (rrset_count ?r) (rrsets ?r))"
        using i(1) list_all2_lengthD[OF all2] by simp
      from list_all2_nthD2[OF all2 i(1)] i(2) obtain rg1 rg2 where
        c: "copy_rrset (mem env ?a) rg1 now = (Some s, rg2)" by blast
      have mem_a: "?a \<in> set (take (rrset_count ?r) (rrsets ?r))"
        using il by (rule nth_mem)
      then have "?a \<in> set (rrsets ?r)" by (rule in_set_takeD)
      then have ca: "?a \<in> cached_rrsets env" using e by (auto simp: cached_rrsets_def)
      from refs e have "reply_refs_cover ?r" by blast
      with mem_a obtain x where x: "x \<in> set (take (rrset_count ?r) (ref ?r))" "?a = ref_key x"
        by (auto simp: reply_refs_cover_def)
      have live: "now < ttl (entry_data (mem env ?a))"
        using rrset_array_lock_live[OF lock x(1)] x(2) by simp
      have "ttl_rebased now (mem env ?a) s"
        using copy_rrset_rebased[OF c] inv ca live by (simp add: order_less_imp_le)
      then show "(\<exists>a\<in>cached_rrsets env. ttl_rebased now (mem env a) s) \<or>
           (rk_type (rk s) = htons LDNS_RR_TYPE_CNAME \<and> rr_ttl (entry_data s) = [0])"
        using ca by blast
    qed
  next
    case dname
    from find_closest_of_type_owner[OF dname(1)] have
      a: "a \<in> set (rrset_entries env)" "now < ttl (entry_data (mem env a))" by blast+
    from synth_dname_msg_rrsets[OF dname(2)] obtain dck rg1 rg2 where
      c: "copy_rrset (mem env a) rg1 now = (Some dck, rg2)" and
      rs: "rrsets (rep msg) = [dck] \<or>
           (\<exists>ck. rrsets (rep msg) = [dck, ck] \<and> rk_type (rk ck) = htons LDNS_RR_TYPE_CNAME \<and>
            rr_ttl (entry_data ck) = [0])"
      by blast
    from entry[OF a c] rs show ?thesis by auto
  next
    case cname
    from rrset_cache_lookup_SomeD[OF cname(1)] have
      a: "a \<in> set (rrset_entries env)" "now < ttl (entry_data (mem env a))" by blast+
    from cname_msg_rrsets[OF cname(2)] obtain ck rg1 rg2 where
      c: "copy_rrset (mem env a) rg1 now = (Some ck, rg2)" and rs: "rrsets (rep msg) = [ck]"
      by blast
    from entry[OF a c] rs show ?thesis by auto
  qed
qed

theorem served_ttls_not_above_stored_witness:
  "cached_rrsets w_msg_env = {1} \<and>
   rrset_data_invariant (entry_data (mem w_msg_env 1)) \<and>
   reply_refs_cover (data w_msg_entry) \<and>
   rr_ttl (entry_data (mem w_msg_env 1)) = [900] \<and>
   (\<exists>msg s. dns_cache_lookup w_msg_env w_owner 1 1 [] 100 = (Some msg, []) \<and>
      rrsets (rep msg) = [s] \<and> rr_ttl (entry_data s) = [800] \<and>
      ttl_rebased 100 (mem w_msg_env 1) s)"
proof -
  have cs: "cached_rrsets w_msg_env = {1}"
    by (simp add: cached_rrsets_def w_msg_env_def w_msg_entry_def)
  have i1: "rrset_data_invariant (entry_data (mem w_msg_env 1))"
    by (simp add: rrset_data_invariant_def w_msg_env_def w_a_rrset_def)
  have r1: "reply_refs_cover (data w_msg_entry)"
    by (simp add: reply_refs_cover_def w_msg_entry_def)
  have inv: "\<forall>a\<in>cached_rrsets w_msg_env. rrset_data_invariant (entry_data (mem w_msg_env a))"
    using cs i1 by simp
  have refs: "\<forall>e\<in>set (msg_cache w_msg_env). reply_refs_cover (data e)"
    using r1 by (simp add: w_msg_env_def)
  have st: "rr_ttl (entry_data (mem w_msg_env 1)) = [900]"
    by (simp add: w_msg_env_def w_a_rrset_def)
  obtain msg where served: "dns_cache_lookup w_msg_env w_owner 1 1 [] 100 = (Some msg, [])"
    and one: "length (rrsets (rep msg)) = 1"
    and t: "rr_ttl (entry_data (rrsets (rep msg) ! 0)) = [800]"
  proof -
    have "dns_cache_lookup w_msg_env w_owner 1 1 [] 100 =
        (Some (w_msg_served\<lparr>rep := (rep w_msg_served)\<lparr>rrsets :=
           [(rrsets (rep w_msg_served) ! 0)\<lparr>entry_data :=
              (entry_data (rrsets (rep w_msg_served) ! 0))\<lparr>ttl := 800, rr_ttl := [800]\<rparr>\<rparr>]\<rparr>\<rparr>), [])"
      by code_simp
    then show ?thesis using that by (simp add: w_msg_served_def)
  qed
  from one obtain s where s: "rrsets (rep msg) = [s]"
    by (cases "rrsets (rep msg)") auto
  from served_ttls_not_above_stored[OF inv refs served] s t cs
  have "ttl_rebased 100 (mem w_msg_env 1) s"
    by simp
  with cs i1 r1 st served s t show ?thesis by auto
qed

section \<open>Delegation points\<close>

lemma find_closest_of_type_labels:
  assumes "\<forall>l\<in>set ls. length l < 256"
  shows "find_closest_of_type env (dname_of_labels ls) qc now st =
     (case find (\<lambda>s. rrset_cache_lookup env (dname_of_labels s) st qc 0 now \<noteq> None)
             (label_suffixes ls) of
        None \<Rightarrow> None
      | Some s \<Rightarrow> rrset_cache_lookup env (dname_of_labels s) st qc 0 now)"
  using assms
proof (induction ls)
  case Nil
  then show ?case by (simp split: option.splits)
next
  case (Cons l ls)
  have u: "unat (of_nat (length l) :: uint8_t) = length l"
    using Cons.prems by (intro of_nat_inverse) simp_all
  show ?case
    using Cons by (simp add: u split: option.splits)
qed

lemma allocs_succeed_Suc:
  "allocs_succeed (Suc n) r = (alloc_ok r \<and> allocs_succeed n (alloc_rest r))"
  by (cases r) (simp_all add: allocs_succeed_def alloc_ok_def alloc_rest_def)

lemma allocs_succeed_0 [simp]: "allocs_succeed 0 r"
  by (simp add: allocs_succeed_def)

lemma copy_rrset_None_iff: "fst (copy_rrset k rg now) = None \<longleftrightarrow> \<not> allocs_succeed 3 rg"
  by (simp add: copy_rrset_def Let_def eval_nat_numeral allocs_succeed_Suc)

lemma create_msg_None_iff:
  "fst (create_msg qn qt qc rg nskey nsdata now) = None \<longleftrightarrow> \<not> allocs_succeed 7 rg"
  using copy_rrset_None_iff[of nskey "alloc_rest (alloc_rest (alloc_rest (alloc_rest rg)))" now]
  by (auto simp: create_msg_def Let_def eval_nat_numeral allocs_succeed_Suc
        split: prod.splits option.splits)

lemma delegpt_add_ns_names_name:
  "delegpt_add_ns_names dp rg rds = (ok, dp', rg') \<Longrightarrow> dp_name dp' = dp_name dp"
  by (induction rds arbitrary: dp rg) (auto split: if_splits)

lemma find_add_addr_A_name:
  "find_add_addr env qc t delegpt_add_rrset_A ns rg dp now msg = (ok, dp', msg', rg') \<Longrightarrow>
   dp_name dp' = dp_name dp \<and> (msg \<noteq> None \<longrightarrow> msg' \<noteq> None)"
  by (auto simp: find_add_addr_def delegpt_add_rrset_A_def
        split: option.splits prod.splits if_splits bool.splits)

lemma find_add_addr_AAAA_name:
  "find_add_addr env qc t delegpt_add_rrset_AAAA ns rg dp now msg = (ok, dp', msg', rg') \<Longrightarrow>
   dp_name dp' = dp_name dp \<and> (msg \<noteq> None \<longrightarrow> msg' \<noteq> None)"
  by (auto simp: find_add_addr_def delegpt_add_rrset_AAAA_def
        split: option.splits prod.splits if_splits bool.splits)

lemma find_add_addrs_loop_name:
  "find_add_addrs_loop env qc nss rg dp now msg = (ok, dp', msg', rg') \<Longrightarrow>
   dp_name dp' = dp_name dp \<and> (msg \<noteq> None \<longrightarrow> msg' \<noteq> None)"
proof (induction nss arbitrary: rg dp msg)
  case Nil
  then show ?case by simp
next
  case (Cons ns nss)
  obtain ok1 dp1 msg1 r1 where
    s1: "find_add_addr env qc LDNS_RR_TYPE_A delegpt_add_rrset_A ns rg dp now msg
           = (ok1, dp1, msg1, r1)"
    by (metis prod_cases4)
  obtain ok2 dp2 msg2 r2 where
    s2: "find_add_addr env qc LDNS_RR_TYPE_AAAA delegpt_add_rrset_AAAA ns r1 dp1 now msg1
           = (ok2, dp2, msg2, r2)"
    by (metis prod_cases4)
  note n1 = find_add_addr_A_name[OF s1] and n2 = find_add_addr_AAAA_name[OF s2]
  show ?case
  proof (cases ok1)
    case False
    with Cons.prems s1 n1 show ?thesis by simp
  next
    case True
    show ?thesis
    proof (cases ok2)
      case False
      with Cons.prems s1 s2 n1 n2 True show ?thesis by simp
    next
      case ok2: True
      with Cons.prems s1 s2 True
      have "find_add_addrs_loop env qc nss r2 dp2 now msg2 = (ok, dp', msg', rg')" by simp
      from Cons.IH[OF this] n1 n2 show ?thesis by simp
    qed
  qed
qed

lemma dns_cache_find_delegation_miss:
  "find_closest_of_type env qn qc now LDNS_RR_TYPE_NS = None \<Longrightarrow>
   dns_cache_find_delegation env qn qt qc region want_msg now = (None, None, region)"
  by (simp add: dns_cache_find_delegation_def)

lemma dns_cache_find_delegation_found:
  assumes found: "find_closest_of_type env qn qc now LDNS_RR_TYPE_NS = Some a"
      and dp0: "delegpt_create region = (Some dp0, r1)"
      and dp1: "delegpt_set_name dp0 r1 (dname (rk (mem env a))) = (Some dp1, r2)"
      and msg: "want_msg \<longrightarrow>
                  fst (create_msg qn qt qc r2 (mem env a) (entry_data (mem env a)) now) \<noteq> None"
  shows "\<exists>dp. fst (dns_cache_find_delegation env qn qt qc region want_msg now) = Some dp \<and>
              dp_name dp = dname (rk (mem env a)) \<and>
              (want_msg \<longrightarrow>
                 fst (snd (dns_cache_find_delegation env qn qt qc region want_msg now)) \<noteq> None)"
proof -
  let ?nskey = "mem env a"
  have nm: "dp_name dp1 = dname (rk ?nskey)"
    using dp1 by (auto simp: delegpt_set_name_def split: if_splits)
  obtain msg0 r3 where
    m0: "(if want_msg then create_msg qn qt qc r2 ?nskey (entry_data ?nskey) now else (None, r2))
           = (msg0, r3)"
    by (metis surj_pair)
  have m0': "want_msg \<longrightarrow> msg0 \<noteq> None" using msg m0 by (auto split: if_splits)
  have m0'': "\<not> want_msg \<longrightarrow> msg0 = None" using m0 by (auto split: if_splits)
  obtain ok_ns dp2 r4 where ns: "delegpt_rrset_add_ns dp1 r3 ?nskey = (ok_ns, dp2, r4)"
    by (metis prod_cases3)
  have nm2: "dp_name dp2 = dp_name dp1"
    using ns delegpt_add_ns_names_name by (simp add: delegpt_rrset_add_ns_def)
  obtain msg1 r5 where
    ds: "(case msg0 of None \<Rightarrow> (None, r4)
          | Some m \<Rightarrow> (case find_add_ds env r4 m dp2 now of (m1, r5) \<Rightarrow> (Some m1, r5)))
           = (msg1, r5)"
    by (metis surj_pair)
  have m1: "msg0 \<noteq> None \<longrightarrow> msg1 \<noteq> None"
    using ds by (auto split: option.splits prod.splits)
  obtain ok_addrs dp3 msg2 r6 where
    ad: "find_add_addrs env qc r5 dp2 now msg1 = (ok_addrs, dp3, msg2, r6)"
    by (metis prod_cases4)
  have nm3: "dp_name dp3 = dp_name dp2"
    using ad find_add_addrs_loop_name by (simp add: find_add_addrs_def)
  have m2: "msg1 \<noteq> None \<longrightarrow> msg2 \<noteq> None"
    using ad find_add_addrs_loop_name by (simp add: find_add_addrs_def)
  have res: "dns_cache_find_delegation env qn qt qc region want_msg now = (Some dp3, msg2, r6)"
    using found dp0 dp1 m0 m0' ns ds ad
    by (simp add: dns_cache_find_delegation_def Let_def)
  show ?thesis unfolding res using nm nm2 nm3 m0' m1 m2 by simp
qed

lemma dns_cache_find_delegation_allocs:
  assumes found: "find_closest_of_type env qn qc now LDNS_RR_TYPE_NS = Some a"
  shows "fst (dns_cache_find_delegation env qn qt qc region want_msg now) \<noteq> None \<longleftrightarrow>
         allocs_succeed (if want_msg then 9 else 2) region"
proof -
  let ?R = "dns_cache_find_delegation env qn qt qc region want_msg now"
  let ?r2 = "alloc_rest (alloc_rest region)"
  have n9: "allocs_succeed 9 region \<longleftrightarrow>
      alloc_ok region \<and> alloc_ok (alloc_rest region) \<and> allocs_succeed 7 ?r2"
  proof -
    have "(9::nat) = Suc (Suc 7)" by simp
    then show ?thesis by (simp only: allocs_succeed_Suc)
  qed
  have n2: "allocs_succeed 2 region \<longleftrightarrow> alloc_ok region \<and> alloc_ok (alloc_rest region)"
  proof -
    have "(2::nat) = Suc (Suc 0)" by simp
    then show ?thesis by (simp only: allocs_succeed_Suc allocs_succeed_0) simp
  qed
  show ?thesis
  proof (cases "alloc_ok region \<and> alloc_ok (alloc_rest region)")
    case False
    then have "fst ?R = None"
      using found
      by (auto simp: dns_cache_find_delegation_def Let_def delegpt_create_def
            delegpt_set_name_def)
    then show ?thesis using False n9 n2 by auto
  next
    case True
    let ?dp0 = "\<lparr>dp_name = [], nslist = [], dp_addrs = []\<rparr>"
    let ?dp1 = "?dp0\<lparr>dp_name := dname (rk (mem env a))\<rparr>"
    have c: "delegpt_create region = (Some ?dp0, alloc_rest region)"
      using True by (simp add: delegpt_create_def)
    have s: "delegpt_set_name ?dp0 (alloc_rest region) (dname (rk (mem env a)))
               = (Some ?dp1, ?r2)"
      using True by (simp add: delegpt_set_name_def)
    show ?thesis
    proof (cases "want_msg \<and> \<not> allocs_succeed 7 ?r2")
      case bad: True
      then have "fst (create_msg qn qt qc ?r2 (mem env a) (entry_data (mem env a)) now) = None"
        using create_msg_None_iff by blast
      then have "fst ?R = None"
        using found c s bad
        by (auto simp: dns_cache_find_delegation_def Let_def split: prod.splits)
      then show ?thesis using bad n9 by auto
    next
      case good: False
      then have m: "want_msg \<longrightarrow>
          fst (create_msg qn qt qc ?r2 (mem env a) (entry_data (mem env a)) now) \<noteq> None"
        using create_msg_None_iff by blast
      from dns_cache_find_delegation_found[OF found c s m]
      have "fst ?R \<noteq> None" by auto
      then show ?thesis using True good n9 n2 by auto
    qed
  qed
qed

lemma dns_cache_find_delegation_owner:
  assumes found: "find_closest_of_type env qn qc now LDNS_RR_TYPE_NS = Some a"
      and some: "fst (dns_cache_find_delegation env qn qt qc region want_msg now) = Some dp"
  shows "dp_name dp = dname (rk (mem env a))"
proof -
  have ok: "allocs_succeed (if want_msg then 9 else 2) region"
    using dns_cache_find_delegation_allocs[OF found, of qt region want_msg] some by simp
  have two: "alloc_ok region \<and> alloc_ok (alloc_rest region)"
  proof -
    have "allocs_succeed 2 region"
      using ok allocs_succeed_drop[of 9 region 0 2] by (auto split: if_splits)
    moreover have "(2::nat) = Suc (Suc 0)" by simp
    ultimately show ?thesis by (simp only: allocs_succeed_Suc) 
  qed
  let ?r2 = "alloc_rest (alloc_rest region)"
  let ?dp0 = "\<lparr>dp_name = [], nslist = [], dp_addrs = []\<rparr>"
  let ?dp1 = "?dp0\<lparr>dp_name := dname (rk (mem env a))\<rparr>"
  have c: "delegpt_create region = (Some ?dp0, alloc_rest region)"
    using two by (simp add: delegpt_create_def)
  have s: "delegpt_set_name ?dp0 (alloc_rest region) (dname (rk (mem env a)))
             = (Some ?dp1, ?r2)"
    using two by (simp add: delegpt_set_name_def)
  have m: "want_msg \<longrightarrow>
      fst (create_msg qn qt qc ?r2 (mem env a) (entry_data (mem env a)) now) \<noteq> None"
  proof
    assume w: want_msg
    have "(9::nat) = Suc (Suc 7)" by simp
    then have "allocs_succeed 7 ?r2" using ok w by (simp only: allocs_succeed_Suc if_True) 
    then show "fst (create_msg qn qt qc ?r2 (mem env a) (entry_data (mem env a)) now) \<noteq> None"
      using create_msg_None_iff by blast
  qed
  from dns_cache_find_delegation_found[OF found c s m] some show ?thesis by auto
qed

text \<open>
  Claim C6. For a query name with labels \<open>ls\<close> (each shorter than 256
  bytes, so that its length fits the length byte), \<^verbatim>\<open>find_closest_of_type\<close>
  looks up type NS at the name and at each of its ancestors in turn, one
  label shorter each time and the root last, and returns the first hit.
  \<^verbatim>\<open>dns_cache_find_delegation\<close> returns \<^verbatim>\<open>NULL\<close> when none of them,
  the root included, has an NS RRset; the delegation point it returns is
  named after the owner of that first hit, the longest suffix of the query
  name with an NS RRset; and with a hit it does return one when the
  allocations of the delegation point, its name and the requested message
  succeed.
\<close>

theorem find_delegation_walk:
  assumes labels: "\<forall>l\<in>set ls. length l < 256"
  shows "find_closest_of_type env (dname_of_labels ls) qc now LDNS_RR_TYPE_NS =
           (case find (\<lambda>s. rrset_cache_lookup env (dname_of_labels s) LDNS_RR_TYPE_NS qc 0 now
                              \<noteq> None) (label_suffixes ls) of
              None \<Rightarrow> None
            | Some s \<Rightarrow> rrset_cache_lookup env (dname_of_labels s) LDNS_RR_TYPE_NS qc 0 now) \<and>
         ((\<forall>s\<in>set (label_suffixes ls).
              rrset_cache_lookup env (dname_of_labels s) LDNS_RR_TYPE_NS qc 0 now = None) \<longrightarrow>
            dns_cache_find_delegation env (dname_of_labels ls) qt qc region want_msg now
              = (None, None, region)) \<and>
         (\<forall>s a dp.
            find (\<lambda>s. rrset_cache_lookup env (dname_of_labels s) LDNS_RR_TYPE_NS qc 0 now \<noteq> None)
              (label_suffixes ls) = Some s \<and>
            rrset_cache_lookup env (dname_of_labels s) LDNS_RR_TYPE_NS qc 0 now = Some a \<and>
            fst (dns_cache_find_delegation env (dname_of_labels ls) qt qc region want_msg now)
              = Some dp \<longrightarrow>
            dp_name dp = dname (rk (mem env a)) \<and>
            map tolower (dp_name dp) = map tolower (dname_of_labels s)) \<and>
         (\<forall>s.
            find (\<lambda>s. rrset_cache_lookup env (dname_of_labels s) LDNS_RR_TYPE_NS qc 0 now \<noteq> None)
              (label_suffixes ls) = Some s \<and>
            allocs_succeed (if want_msg then 9 else 2) region \<longrightarrow>
            fst (dns_cache_find_delegation env (dname_of_labels ls) qt qc region want_msg now)
              \<noteq> None)"
proof (intro conjI impI allI)
  show walk: "find_closest_of_type env (dname_of_labels ls) qc now LDNS_RR_TYPE_NS =
           (case find (\<lambda>s. rrset_cache_lookup env (dname_of_labels s) LDNS_RR_TYPE_NS qc 0 now
                              \<noteq> None) (label_suffixes ls) of
              None \<Rightarrow> None
            | Some s \<Rightarrow> rrset_cache_lookup env (dname_of_labels s) LDNS_RR_TYPE_NS qc 0 now)"
    using labels by (rule find_closest_of_type_labels)
  {
    assume "\<forall>s\<in>set (label_suffixes ls).
              rrset_cache_lookup env (dname_of_labels s) LDNS_RR_TYPE_NS qc 0 now = None"
    then have "find (\<lambda>s. rrset_cache_lookup env (dname_of_labels s) LDNS_RR_TYPE_NS qc 0 now
                              \<noteq> None) (label_suffixes ls) = None"
      by (simp add: find_None_iff)
    then have "find_closest_of_type env (dname_of_labels ls) qc now LDNS_RR_TYPE_NS = None"
      using walk by simp
    then show "dns_cache_find_delegation env (dname_of_labels ls) qt qc region want_msg now
              = (None, None, region)"
      by (rule dns_cache_find_delegation_miss)
  }
  {
    fix s a dp
    assume h: "find (\<lambda>s. rrset_cache_lookup env (dname_of_labels s) LDNS_RR_TYPE_NS qc 0 now \<noteq> None)
              (label_suffixes ls) = Some s \<and>
            rrset_cache_lookup env (dname_of_labels s) LDNS_RR_TYPE_NS qc 0 now = Some a \<and>
            fst (dns_cache_find_delegation env (dname_of_labels ls) qt qc region want_msg now)
              = Some dp"
    then have found: "find_closest_of_type env (dname_of_labels ls) qc now LDNS_RR_TYPE_NS = Some a"
      using walk by simp
    from h have some: "fst (dns_cache_find_delegation env (dname_of_labels ls) qt qc region
                         want_msg now) = Some dp" by blast
    show "dp_name dp = dname (rk (mem env a))"
      using dns_cache_find_delegation_owner[OF found some] .
    from h have "rrset_key_match (rk (mem env a)) (dname_of_labels s) LDNS_RR_TYPE_NS qc 0"
      using rrset_cache_lookup_SomeD by blast
    then show "map tolower (dp_name dp) = map tolower (dname_of_labels s)"
      using dns_cache_find_delegation_owner[OF found some] rrset_key_match_owner by simp
  }
  {
    fix s
    assume h: "find (\<lambda>s. rrset_cache_lookup env (dname_of_labels s) LDNS_RR_TYPE_NS qc 0 now \<noteq> None)
              (label_suffixes ls) = Some s \<and>
            allocs_succeed (if want_msg then 9 else 2) region"
    then have "rrset_cache_lookup env (dname_of_labels s) LDNS_RR_TYPE_NS qc 0 now \<noteq> None"
      by (auto simp: find_Some_iff)
    then obtain a where
      "find_closest_of_type env (dname_of_labels ls) qc now LDNS_RR_TYPE_NS = Some a"
      using walk h by auto
    from dns_cache_find_delegation_allocs[OF this] h
    show "fst (dns_cache_find_delegation env (dname_of_labels ls) qt qc region want_msg now)
              \<noteq> None" by blast
  }
qed

theorem find_delegation_walk_witness:
  "dname_of_labels [[0x77], [0x61, 0x62]] = [1, 0x77, 2, 0x61, 0x62, 0] \<and>
   label_suffixes [[0x77], [0x61, 0x62 :: uint8_t]] = [[[0x77], [0x61, 0x62]], [[0x61, 0x62]], []] \<and>
   rrset_cache_lookup w_ns_env (dname_of_labels [[0x77], [0x61, 0x62]]) LDNS_RR_TYPE_NS 1 0 100
     = None \<and>
   rrset_cache_lookup w_ns_env (dname_of_labels [[0x61, 0x62]]) LDNS_RR_TYPE_NS 1 0 100
     = Some 1 \<and>
   find_closest_of_type w_ns_env (dname_of_labels [[0x77], [0x61, 0x62]]) 1 100 LDNS_RR_TYPE_NS
     = Some 1 \<and>
   (\<exists>dp. fst (dns_cache_find_delegation w_ns_env (dname_of_labels [[0x77], [0x61, 0x62]])
             1 1 [] True 100) = Some dp \<and>
         dp_name dp = [2, 0x61, 0x62, 0]) \<and>
   dns_cache_find_delegation (w_ns_env\<lparr>rrset_entries := []\<rparr>)
     (dname_of_labels [[0x77], [0x61, 0x62]]) 1 1 [] True 100 = (None, None, [])"
proof -
  let ?ls = "[[0x77], [0x61, 0x62 :: uint8_t]]"
  let ?look = "\<lambda>env s. rrset_cache_lookup env (dname_of_labels s) LDNS_RR_TYPE_NS 1 0 100"
  have labels: "\<forall>l\<in>set ?ls. length l < 256" by simp
  have enc: "dname_of_labels ?ls = [1, 0x77, 2, 0x61, 0x62, 0]" by simp
  have suf: "label_suffixes ?ls = [[[0x77], [0x61, 0x62]], [[0x61, 0x62]], []]" by simp
  have l0: "?look w_ns_env ?ls = None" by code_simp
  have l1: "?look w_ns_env [[0x61, 0x62]] = Some 1" by code_simp
  have f: "find (\<lambda>s. ?look w_ns_env s \<noteq> None) (label_suffixes ?ls) = Some [[0x61, 0x62]]"
    unfolding suf using l0 l1 by simp
  have none: "\<forall>s\<in>set (label_suffixes ?ls). ?look (w_ns_env\<lparr>rrset_entries := []\<rparr>) s = None"
    by (simp add: rrset_cache_lookup_def)
  note w = find_delegation_walk[OF labels, of w_ns_env 1 100 1 "[]" True]
  have ok: "allocs_succeed (if True then 9 else 2) []" by simp
  obtain dp where dp: "fst (dns_cache_find_delegation w_ns_env (dname_of_labels ?ls)
             1 1 [] True 100) = Some dp"
  proof -
    have "fst (dns_cache_find_delegation w_ns_env (dname_of_labels ?ls) 1 1 [] True 100) \<noteq> None"
      using w f ok by blast
    then show ?thesis using that by blast
  qed
  note w' = find_delegation_walk[OF labels, of "w_ns_env\<lparr>rrset_entries := []\<rparr>" 1 100 1 "[]" True]
  have walk: "find_closest_of_type w_ns_env (dname_of_labels ?ls) 1 100 LDNS_RR_TYPE_NS = Some 1"
    using w f l1 by simp
  have nm: "dp_name dp = dname (rk (mem w_ns_env 1))"
    using w f l1 dp by blast
  have own: "dname (rk (mem w_ns_env 1)) = [2, 0x61, 0x62, 0]"
    by (simp add: w_ns_env_def w_ns_def)
  have miss: "dns_cache_find_delegation (w_ns_env\<lparr>rrset_entries := []\<rparr>)
     (dname_of_labels ?ls) 1 1 [] True 100 = (None, None, [])"
    using w' none by blast
  show ?thesis
    using enc suf l0 l1 walk dp nm own miss by (intro conjI exI[of _ dp]) simp_all
qed

text \<open>
  Claim C7 as stated fails: with the NS RRset of \<open>ab.\<close> found, a failure of
  the first allocation (the delegation point), or of the fourth when a
  message is requested (inside \<^verbatim>\<open>create_msg\<close>), makes
  \<^verbatim>\<open>dns_cache_find_delegation\<close> return \<^verbatim>\<open>NULL\<close>.
\<close>

theorem find_delegation_alloc_failure_counterexample:
  "find_closest_of_type w_ns_env w_owner 1 100 LDNS_RR_TYPE_NS = Some 1 \<and>
   dns_cache_find_delegation w_ns_env w_owner 1 1 [False] False 100 = (None, None, []) \<and>
   dns_cache_find_delegation w_ns_env w_owner 1 1 [True, True, True, False] True 100
     = (None, None, [])"
  by code_simp

text \<open>
  Claim C7, as amended. After the NS RRset is found,
  \<^verbatim>\<open>dns_cache_find_delegation\<close> returns a delegation point exactly when the
  allocations of the delegation point itself, of its name and, when a
  referral message is requested, of that message succeed (the first 2
  allocations of the region, or the first 9 with a message): a failure of one
  of these makes it return \<^verbatim>\<open>NULL\<close>, and no failure of a later allocation
  (for the nameserver names, the DS or NSEC copy, the addresses, the copies
  for the additional section) does: whatever the outcomes \<open>later\<close> of the
  allocations after those, the delegation point is returned, and it carries
  the owner name of the NS RRset, with whatever could be added to it.
\<close>

theorem find_delegation_allocation_failures:
  assumes found: "find_closest_of_type env qn qc now LDNS_RR_TYPE_NS = Some a"
  shows "(fst (dns_cache_find_delegation env qn qt qc region want_msg now) \<noteq> None \<longleftrightarrow>
            allocs_succeed (if want_msg then 9 else 2) region) \<and>
         (\<exists>dp. fst (dns_cache_find_delegation env qn qt qc
                      (replicate (if want_msg then 9 else 2) True @ later) want_msg now) = Some dp \<and>
               dp_name dp = dname (rk (mem env a)))"
proof (intro conjI)
  show "fst (dns_cache_find_delegation env qn qt qc region want_msg now) \<noteq> None \<longleftrightarrow>
            allocs_succeed (if want_msg then 9 else 2) region"
    using found by (rule dns_cache_find_delegation_allocs)
next
  let ?n = "if want_msg then 9 else 2"
  have "allocs_succeed ?n (replicate ?n True @ later)"
    by (simp add: allocs_succeed_def list_all_iff)
  then have "fst (dns_cache_find_delegation env qn qt qc (replicate ?n True @ later) want_msg now)
               \<noteq> None"
    using dns_cache_find_delegation_allocs[OF found] by blast
  then obtain dp where
    dp: "fst (dns_cache_find_delegation env qn qt qc (replicate ?n True @ later) want_msg now)
           = Some dp" by blast
  from dns_cache_find_delegation_owner[OF found dp] dp
  show "\<exists>dp. fst (dns_cache_find_delegation env qn qt qc (replicate ?n True @ later) want_msg now)
           = Some dp \<and> dp_name dp = dname (rk (mem env a))" by blast
qed

theorem find_delegation_allocation_failures_witness:
  "find_closest_of_type w_ns_env w_owner 1 100 LDNS_RR_TYPE_NS = Some 1 \<and>
   dns_cache_find_delegation w_ns_env w_owner 1 1 [True, True, False, False, False] False 100
     = (Some \<lparr>dp_name = w_owner, nslist = [], dp_addrs = []\<rparr>, None, [False, False]) \<and>
   fst (dns_cache_find_delegation w_ns_env w_owner 1 1 [True, False] False 100) = None \<and>
   (\<exists>dp. fst (dns_cache_find_delegation w_ns_env w_owner 1 1
              (replicate 2 True @ [False, False, False]) False 100) = Some dp \<and>
         dp_name dp = dname (rk (mem w_ns_env 1)))"
proof -
  have found: "find_closest_of_type w_ns_env w_owner 1 100 LDNS_RR_TYPE_NS = Some 1"
    by code_simp
  have bad: "\<not> allocs_succeed (if False then 9 else 2) [True, False]"
    by (simp add: allocs_succeed_def)
  have ev: "dns_cache_find_delegation w_ns_env w_owner 1 1 [True, True, False, False, False]
      False 100 = (Some \<lparr>dp_name = w_owner, nslist = [], dp_addrs = []\<rparr>, None, [False, False])"
    by code_simp
  note t = find_delegation_allocation_failures[OF found, of 1 _ False "[False, False, False]"]
  have none: "fst (dns_cache_find_delegation w_ns_env w_owner 1 1 [True, False] False 100) = None"
    using t[of "[True, False]"] bad by blast
  have "\<exists>dp. fst (dns_cache_find_delegation w_ns_env w_owner 1 1
              (replicate 2 True @ [False, False, False]) False 100) = Some dp \<and>
         dp_name dp = dname (rk (mem w_ns_env 1))"
    using t[of "[]"] by simp
  with found ev none show ?thesis by simp
qed

end
